theory Spec2Isabelle
  imports Complex_Main
begin

section \<open>The project importer of the editor\<close>

text \<open>
  This theory embeds \<^verbatim>\<open>ProjectImporter\<close> (the class with \<^verbatim>\<open>ImportProject\<close>,
  \<^verbatim>\<open>_ImportProject\<close>, \<^verbatim>\<open>ImportMesh\<close>, \<^verbatim>\<open>_SetWaitingParent\<close> and
  \<^verbatim>\<open>_RefreshEditor\<close>) and the manifest type \<^verbatim>\<open>IProject\<close> of
  \<^verbatim>\<open>project/typings.ts\<close>.

  The importer is one sequential asynchronous flow: every \<^verbatim>\<open>await\<close> is followed by the
  next statement of the same function, so the flow is modelled as a function from the state
  before to the state after. An exception is the value \<open>Throws\<close>; the state reached when it
  was raised is kept, as the mutations the code made before raising are kept.
\<close>

subsection \<open>Results of calls that may throw\<close>

datatype 'a outcome = Returns 'a | Throws

subsection \<open>Scene objects\<close>

type_synonym handle = nat

text \<open>
  A scene node (mesh, transform node, light or camera). Nodes are JavaScript objects, shared by
  reference: they live in the store \<open>nodes\<close> of the state and are named by their position in
  it. \<open>waitingParentId = None\<close> stands for an absent, \<^verbatim>\<open>undefined\<close> or \<^verbatim>\<open>null\<close> field.
\<close>

record node =
  node_id :: string
  node_name :: string
  waitingParentId :: "string option"
  parent :: "handle option"
  material :: "handle option"
  isMesh :: bool
  lodLevels :: "(rat \<times> handle) list"
  physicsImpostor :: "string option"

text \<open>A live texture: the engine's unique numeric id and \<^verbatim>\<open>metadata.editorName\<close>.\<close>

record texture =
  uniqueId :: nat
  editorName :: "string option"

subsection \<open>The manifest (\<^verbatim>\<open>IProject\<close>)\<close>

record material_entry =
  bindedMeshes :: "string list"
  mat_json :: string
  isMultiMaterial :: bool

record light_entry =
  light_json :: string
  shadowGenerator :: "string option"

record post_process =
  pp_enabled :: bool
  pp_json :: string

record project =
  filesList :: "string list"
  p_cameras :: "string list"
  p_textures :: "string list"
  p_materials :: "material_entry list"
  p_meshes :: "string list"
  p_transformNodes :: "string list option"
  p_lights :: "light_entry list"
  p_scene :: string
  assets_meshes :: "string list"
  assets_prefabs :: "string list option"
  project_camera :: string
  pp_ssao :: "post_process option"
  pp_standard :: "post_process option"
  pp_default :: "post_process option"

subsection \<open>Per-entity files\<close>

text \<open>
  What the importer reads of a mesh file: \<^verbatim>\<open>json.meshes[index].parentId\<close> for each index
  (a missing \<^verbatim>\<open>meshes\<close> array is the empty list: reading any index of either throws) and
  \<^verbatim>\<open>json.lods\<close> (\<open>None\<close> when the field is not iterable).
\<close>

record lod =
  lod_distance :: rat
  lod_mesh :: string
  lod_mesh_name :: "string option"

record mesh_file =
  mf_meshes :: "string option list"
  mf_lods :: "lod list option"

record transform_file =
  tf_body :: string
  tf_parentId :: "string option"

text \<open>A serialized texture: \<^verbatim>\<open>uniqueId\<close> and \<^verbatim>\<open>metadata.editorName\<close>, when present.\<close>

record texture_source =
  src_body :: string
  src_uniqueId :: "nat option"
  src_editorName :: "string option"

text \<open>
  A serialized material: what the importer reads of it is nothing, what the engine reads of it
  are, among other things, its serialized textures, in the order in which it rebuilds them.
\<close>

record material_file =
  mat_body :: string
  mat_textures :: "texture_source list"

record shadow_file =
  sf_body :: string
  sf_className :: string

subsection \<open>Observable effects\<close>

datatype severity = Info | Warning | Error

text \<open>The console messages of the importer, one constructor per template literal.\<close>

datatype message =
    ParsedMesh string
  | ParsedLOD string string
  | FailedLOD string
  | FailedMesh string
  | FailedTransformNode string
  | ParsedImpostor string
  | FailedImpostor string
  | ParsedMaterial string
  | FailedAttach string string
  | FailedMaterial string
  | ParsedTexture string
  | FailedTexture string
  | ParsedLight string
  | ParsedShadows string
  | FailedLight
  | ParsedCamera string
  | FailedCamera string

definition quoted :: "string \<Rightarrow> string" where
  "quoted s = CHR 0x22 # s @ [CHR 0x22]"

fun message_text :: "message \<Rightarrow> string" where
  "message_text (ParsedMesh n) = ''Parsed mesh '' @ quoted n"
| "message_text (ParsedLOD l n) = ''Parsed LOD level '' @ quoted l @ '' for mesh '' @ quoted n"
| "message_text (FailedLOD n) = ''Failed to load LOD for '' @ quoted n"
| "message_text (FailedMesh n) = ''Failed to load mesh '' @ quoted n"
| "message_text (FailedTransformNode n) = ''Failed to load transform node '' @ quoted n"
| "message_text (ParsedImpostor n) = ''Parsed physics impostor for mesh '' @ quoted n"
| "message_text (FailedImpostor n) = ''Failed to set physics impostor for mesh '' @ quoted n"
| "message_text (ParsedMaterial n) = ''Parsed material '' @ quoted n"
| "message_text (FailedAttach n b) =
     ''Failed to attach material '' @ n @ '' on mesh with id '' @ quoted b"
| "message_text (FailedMaterial n) = ''Failed to parse material '' @ quoted n"
| "message_text (ParsedTexture n) = ''Parsed texture '' @ quoted n"
| "message_text (FailedTexture n) = ''Failed to parse texture '' @ quoted n"
| "message_text (ParsedLight n) = ''Parsed light '' @ quoted n"
| "message_text (ParsedShadows n) = ''Parsed shadows for light '' @ quoted n"
| "message_text FailedLight = ''Failed to parse light '' @ quoted ''[object Object]''"
| "message_text (ParsedCamera n) = ''Parsed camera '' @ quoted n"
| "message_text (FailedCamera n) = ''Failed to parse camera '' @ quoted n"

text \<open>
  One event per call of the overlay, of the console and of the two refreshed panels, in the
  order of the calls.
\<close>

datatype event =
    Overlay_Show string
  | Overlay_SetMessage string
  | Overlay_SetSpinnervalue rat
  | Overlay_Hide
  | Console severity message
  | Assets_refresh
  | Graph_refresh

datatype shadow_kind = StandardShadows | CascadedShadows

subsection \<open>The state the importer works on\<close>

text \<open>
  The scene of the editor, the static registries the importer writes, the local variable
  \<^verbatim>\<open>spinnerValue\<close> of \<^verbatim>\<open>_ImportProject\<close>, the observers waiting on
  \<^verbatim>\<open>scene.onReadyObservable\<close>, and the events so far. Numbers are rationals: the progress
  values are the exact sums, not their floating-point roundings.
\<close>

record state =
  nodes :: "node list"
  meshes :: "handle list"
  transformNodes :: "handle list"
  lights :: "handle list"
  cameras :: "handle list"
  textures :: "texture list"
  materials :: "string list"
  shadowGenerators :: "shadow_kind list"
  textureParserHooked :: bool
  Project_Path :: "string option"
  Project_DirPath :: "string option"
  FilesStore_List :: "string \<Rightarrow> (string \<times> string) option"
  MeshesAssets_Meshes :: "(string \<times> string) list"
  PrefabAssets_Prefabs :: "(string \<times> string) list"
  enabledPipelines :: "(string \<times> bool) list"
  cachedData :: "string option"
  spinnerValue :: rat
  readyObservers :: nat
  events :: "event list"

subsection \<open>What the importer calls\<close>

text \<open>
  The file system, the \<^verbatim>\<open>path\<close> module, the rendering engine and the two helpers
  \<^verbatim>\<open>ProjectHelpers.ImportSceneSettings\<close> and \<^verbatim>\<open>SceneSettings.ConfigureFromJson\<close> are not
  part of the importer; they are parameters. A file function gives \<open>None\<close> where
  \<^verbatim>\<open>readJSON\<close> rejects (file missing or not JSON). An engine function says what the call
  creates, or that it throws; the model installs what is created into the scene.

  Two behaviours of the engine are written out below instead of being parameters, because the
  importer's own code meets them: \<^verbatim>\<open>Material.Parse\<close> rebuilds the textures of a material
  through \<^verbatim>\<open>SerializationHelper._TextureParser\<close>, the function the importer replaces; and the
  setter of \<^verbatim>\<open>parent\<close> throws when the new parent closes a cycle of parents.
\<close>

record env =
  dirname :: "string \<Rightarrow> string"
  join :: "string list \<Rightarrow> string"
  basename :: "string \<Rightarrow> string"
  projectFile :: "string \<Rightarrow> project option"
  meshFile :: "string \<Rightarrow> mesh_file option"
  transformFile :: "string \<Rightarrow> transform_file option"
  materialFile :: "string \<Rightarrow> material_file option"
  textureFile :: "string \<Rightarrow> texture_source option"
  lightFile :: "string \<Rightarrow> string option"
  shadowFile :: "string \<Rightarrow> shadow_file option"
  cameraFile :: "string \<Rightarrow> string option"
  cacheFile :: "string \<Rightarrow> string option"
  ImportSceneSettings :: "string \<Rightarrow> string \<Rightarrow> unit outcome"
  ConfigureFromJson :: "string \<Rightarrow> unit outcome"
  ImportMeshAsync :: "string \<Rightarrow> string \<Rightarrow> node list outcome"
  TransformNode_Parse :: "transform_file \<Rightarrow> node outcome"
  physicsEngine :: "(node \<Rightarrow> string option outcome) option"
  Material_Parse :: "material_file \<Rightarrow> string option outcome"
  MultiMaterial_ParseMultiMaterial :: "material_file \<Rightarrow> string option outcome"
  Texture_Parse :: "texture_source \<Rightarrow> texture option outcome"
  Light_Parse :: "string \<Rightarrow> node option outcome"
  ShadowGenerator_Parse :: "shadow_file \<Rightarrow> bool outcome"
  Camera_Parse :: "string \<Rightarrow> node outcome"
  SerializationHelper_Parse :: "string \<Rightarrow> string \<Rightarrow> unit outcome"
  SetPipelineEnabled :: "string \<Rightarrow> bool \<Rightarrow> unit outcome"
  sceneIsReady :: bool

subsection \<open>Small operations on the state\<close>

definition emit :: "event \<Rightarrow> state \<Rightarrow> state" where
  "emit e s = s\<lparr>events := events s @ [e]\<rparr>"

definition logInfo :: "message \<Rightarrow> state \<Rightarrow> state" where
  "logInfo m = emit (Console Info m)"

definition logWarning :: "message \<Rightarrow> state \<Rightarrow> state" where
  "logWarning m = emit (Console Warning m)"

definition logError :: "message \<Rightarrow> state \<Rightarrow> state" where
  "logError m = emit (Console Error m)"

text \<open>\<^verbatim>\<open>Overlay.SetSpinnervalue(spinnerValue += spinnerStep)\<close>\<close>

definition advanceSpinner :: "rat \<Rightarrow> state \<Rightarrow> state" where
  "advanceSpinner spinnerStep s =
     emit (Overlay_SetSpinnervalue (spinnerValue s + spinnerStep))
       (s\<lparr>spinnerValue := spinnerValue s + spinnerStep\<rparr>)"

text \<open>JavaScript truthiness of a string that may be absent: \<^verbatim>\<open>undefined\<close>, \<^verbatim>\<open>null\<close> and
  the empty string are falsy.\<close>

definition truthy :: "string option \<Rightarrow> bool" where
  "truthy v = (case v of None \<Rightarrow> False | Some w \<Rightarrow> w \<noteq> [])"

definition updateNode :: "handle \<Rightarrow> (node \<Rightarrow> node) \<Rightarrow> state \<Rightarrow> state" where
  "updateNode h f s = s\<lparr>nodes := (nodes s)[h := f (nodes s ! h)]\<rparr>"

text \<open>The engine puts the nodes it creates into the scene; the new handles are returned.\<close>

definition newHandles :: "state \<Rightarrow> node list \<Rightarrow> handle list" where
  "newHandles s ns = [length (nodes s) ..< length (nodes s) + length ns]"

definition addMeshes :: "node list \<Rightarrow> state \<Rightarrow> state" where
  "addMeshes ns s = s\<lparr>nodes := nodes s @ ns, meshes := meshes s @ newHandles s ns\<rparr>"

definition addTransformNode :: "node \<Rightarrow> state \<Rightarrow> state" where
  "addTransformNode n s =
     s\<lparr>nodes := nodes s @ [n], transformNodes := transformNodes s @ [length (nodes s)]\<rparr>"

definition addLight :: "node \<Rightarrow> state \<Rightarrow> state" where
  "addLight n s = s\<lparr>nodes := nodes s @ [n], lights := lights s @ [length (nodes s)]\<rparr>"

definition addCamera :: "node \<Rightarrow> state \<Rightarrow> state" where
  "addCamera n s = s\<lparr>nodes := nodes s @ [n], cameras := cameras s @ [length (nodes s)]\<rparr>"

subsection \<open>Lookups of the scene\<close>

text \<open>
  The lookups of the engine's scene return the first object of the list with the given id.
  \<^verbatim>\<open>getNodeByID\<close> asks for a mesh, then a transform node, then a light, then a camera.
\<close>

definition getMeshByID :: "state \<Rightarrow> string \<Rightarrow> handle option" where
  "getMeshByID s i = find (\<lambda>h. node_id (nodes s ! h) = i) (meshes s)"

definition getTransformNodeByID :: "state \<Rightarrow> string \<Rightarrow> handle option" where
  "getTransformNodeByID s i = find (\<lambda>h. node_id (nodes s ! h) = i) (transformNodes s)"

definition getLightByID :: "state \<Rightarrow> string \<Rightarrow> handle option" where
  "getLightByID s i = find (\<lambda>h. node_id (nodes s ! h) = i) (lights s)"

definition getCameraByID :: "state \<Rightarrow> string \<Rightarrow> handle option" where
  "getCameraByID s i = find (\<lambda>h. node_id (nodes s ! h) = i) (cameras s)"

definition orElse :: "'a option \<Rightarrow> 'a option \<Rightarrow> 'a option" where
  "orElse a b = (case a of Some x \<Rightarrow> Some x | None \<Rightarrow> b)"

definition getNodeByID :: "state \<Rightarrow> string \<Rightarrow> handle option" where
  "getNodeByID s i =
     orElse (getMeshByID s i)
       (orElse (getTransformNodeByID s i) (orElse (getLightByID s i) (getCameraByID s i)))"

definition getTextureByUniqueID :: "state \<Rightarrow> nat option \<Rightarrow> texture option" where
  "getTextureByUniqueID s u =
     (case u of None \<Rightarrow> None | Some k \<Rightarrow> find (\<lambda>t. uniqueId t = k) (textures s))"

subsection \<open>The texture parser installed by the importer\<close>

text \<open>
  \<^verbatim>\<open>Texture.Parse\<close>, the parser found in \<^verbatim>\<open>SerializationHelper._TextureParser\<close> before
  the importer replaces it, puts the texture it creates into the scene. A texture is returned
  by reference: its position in \<open>textures\<close>.
\<close>

definition parseTexture :: "env \<Rightarrow> texture_source \<Rightarrow> state \<Rightarrow> handle option outcome \<times> state" where
  "parseTexture E source s =
     (case Texture_Parse E source of
        Throws \<Rightarrow> (Throws, s)
      | Returns None \<Rightarrow> (Returns None, s)
      | Returns (Some t) \<Rightarrow>
          (Returns (Some (length (textures s))), s\<lparr>textures := textures s @ [t]\<rparr>))"

fun findIndex :: "('a \<Rightarrow> bool) \<Rightarrow> 'a list \<Rightarrow> nat option" where
  "findIndex P [] = None"
| "findIndex P (x # xs) = (if P x then Some 0 else map_option Suc (findIndex P xs))"

text \<open>
  The function assigned to \<^verbatim>\<open>SerializationHelper._TextureParser\<close>: a source with a truthy
  \<^verbatim>\<open>metadata.editorName\<close> is answered by the first texture of the scene with the same
  \<^verbatim>\<open>metadata.editorName\<close>, when there is one; everything else goes to the parser that was
  installed before.
\<close>

definition hookedTextureParser ::
  "env \<Rightarrow> texture_source \<Rightarrow> state \<Rightarrow> handle option outcome \<times> state" where
  "hookedTextureParser E source s =
     (if truthy (src_editorName source) then
        (case findIndex (\<lambda>t. editorName t = src_editorName source) (textures s) of
           Some texture \<Rightarrow> (Returns (Some texture), s)
         | None \<Rightarrow> parseTexture E source s)
      else parseTexture E source s)"

text \<open>A call of \<^verbatim>\<open>SerializationHelper._TextureParser\<close>, whichever function is installed.\<close>

definition SerializationHelper_TextureParser ::
  "env \<Rightarrow> texture_source \<Rightarrow> state \<Rightarrow> handle option outcome \<times> state" where
  "SerializationHelper_TextureParser E source s =
     (if textureParserHooked s then hookedTextureParser E source s else parseTexture E source s)"

subsection \<open>\<^verbatim>\<open>ImportMesh\<close>\<close>

text \<open>
  \<^verbatim>\<open>result.meshes.forEach((m, index) => { m._waitingParentId = json.meshes[index].parentId; })\<close>:
  the meshes of the result and the entries of the file are walked together; an index past the
  end of \<^verbatim>\<open>json.meshes\<close> reads a field of \<^verbatim>\<open>undefined\<close> and throws, after the earlier
  meshes were written.
\<close>

fun setWaitingIds :: "handle list \<Rightarrow> string option list \<Rightarrow> state \<Rightarrow> unit outcome \<times> state" where
  "setWaitingIds [] ps s = (Returns (), s)"
| "setWaitingIds (h # hs) [] s = (Throws, s)"
| "setWaitingIds (h # hs) (p # ps) s =
     setWaitingIds hs ps (updateNode h (\<lambda>n. n\<lparr>waitingParentId := p\<rparr>) s)"

text \<open>
  The body of the \<^verbatim>\<open>try\<close> of one LOD. \<open>hs\<close> are the meshes of the base result. The
  loader is called with an empty root url and the blob url of the serialized \<^verbatim>\<open>lod.mesh\<close>,
  which stands here for itself. The loaded LOD meshes are in the scene as soon as the loader
  returns. \<^verbatim>\<open>addLODLevel\<close> is a method of
  \<^verbatim>\<open>Mesh\<close> only, so the call throws when \<^verbatim>\<open>result.meshes[0]\<close> is missing or is not a
  \<^verbatim>\<open>Mesh\<close>; reading \<^verbatim>\<open>lod.mesh.meshes[0].name\<close> throws when that entry is missing.
\<close>

definition lodBody :: "env \<Rightarrow> string \<Rightarrow> handle list \<Rightarrow> lod \<Rightarrow> state \<Rightarrow> unit outcome \<times> state" where
  "lodBody E name hs l s =
     (case ImportMeshAsync E [] (lod_mesh l) of
        Throws \<Rightarrow> (Throws, s)
      | Returns loaded \<Rightarrow>
          let s1 = addMeshes loaded s in
          (case newHandles s loaded of
             [] \<Rightarrow> (Returns (), s1)
           | lh # _ \<Rightarrow>
               if \<not> isMesh (nodes s1 ! lh) then (Returns (), s1)
               else (case hs of
                       [] \<Rightarrow> (Throws, s1)
                     | h # _ \<Rightarrow>
                         if \<not> isMesh (nodes s1 ! h) then (Throws, s1)
                         else
                           let s2 = updateNode h
                                 (\<lambda>n. n\<lparr>lodLevels := lodLevels n @ [(lod_distance l, lh)]\<rparr>) s1
                           in (case lod_mesh_name l of
                                 None \<Rightarrow> (Throws, s2)
                               | Some lodName \<Rightarrow> (Returns (), logInfo (ParsedLOD lodName name) s2)))))"

text \<open>
  The loop over \<^verbatim>\<open>json.lods\<close>. The \<^verbatim>\<open>catch\<close> reads \<^verbatim>\<open>result.meshes[0].name\<close> before it
  logs, so it throws itself when the base result has no mesh.
\<close>

fun importLods :: "env \<Rightarrow> string \<Rightarrow> handle list \<Rightarrow> lod list \<Rightarrow> state \<Rightarrow> unit outcome \<times> state" where
  "importLods E name hs [] s = (Returns (), s)"
| "importLods E name hs (l # ls) s =
     (case lodBody E name hs l s of
        (Returns u, s1) \<Rightarrow> importLods E name hs ls s1
      | (Throws, s1) \<Rightarrow>
          (case hs of
             [] \<Rightarrow> (Throws, s1)
           | h # _ \<Rightarrow> importLods E name hs ls (logError (FailedLOD (node_name (nodes s1 ! h))) s1)))"

definition ImportMesh ::
  "env \<Rightarrow> string \<Rightarrow> mesh_file \<Rightarrow> string \<Rightarrow> string \<Rightarrow> state \<Rightarrow> unit outcome \<times> state" where
  "ImportMesh E name json rootUrl filename s =
     (case ImportMeshAsync E rootUrl filename of
        Throws \<Rightarrow> (Throws, s)
      | Returns loaded \<Rightarrow>
          let hs = newHandles s loaded;
              s1 = logInfo (ParsedMesh name) (addMeshes loaded s)
          in (case setWaitingIds hs (mf_meshes json) s1 of
                (Throws, s2) \<Rightarrow> (Throws, s2)
              | (Returns u, s2) \<Rightarrow>
                  (case mf_lods json of
                     None \<Rightarrow> (Throws, s2)
                   | Some ls \<Rightarrow> importLods E name hs ls s2)))"

subsection \<open>The loops of \<^verbatim>\<open>_ImportProject\<close>\<close>

text \<open>
  Every loop body is a \<^verbatim>\<open>try\<close> whose \<^verbatim>\<open>catch\<close> only logs, followed (except for transform
  nodes) by the progress update. \<open>dir\<close> is \<^verbatim>\<open>Project.DirPath\<close>.
\<close>

definition meshBody :: "env \<Rightarrow> string \<Rightarrow> string \<Rightarrow> state \<Rightarrow> unit outcome \<times> state" where
  "meshBody E dir m s =
     (case meshFile E (join E [dir, ''meshes'', m]) of
        None \<Rightarrow> (Throws, s)
      | Some json \<Rightarrow> ImportMesh E m json dir (join E [''meshes'', m]) s)"

definition meshStep :: "env \<Rightarrow> string \<Rightarrow> rat \<Rightarrow> string \<Rightarrow> state \<Rightarrow> state" where
  "meshStep E dir spinnerStep m s =
     advanceSpinner spinnerStep
       (case meshBody E dir m s of
          (Returns u, s1) \<Rightarrow> s1
        | (Throws, s1) \<Rightarrow> logError (FailedMesh m) s1)"

fun loadMeshes :: "env \<Rightarrow> string \<Rightarrow> rat \<Rightarrow> string list \<Rightarrow> state \<Rightarrow> state" where
  "loadMeshes E dir spinnerStep [] s = s"
| "loadMeshes E dir spinnerStep (m # ms) s =
     loadMeshes E dir spinnerStep ms (meshStep E dir spinnerStep m s)"

text \<open>Transform nodes: no progress update.\<close>

definition transformBody :: "env \<Rightarrow> string \<Rightarrow> string \<Rightarrow> state \<Rightarrow> unit outcome \<times> state" where
  "transformBody E dir t s =
     (case transformFile E (join E [dir, ''transform'', t]) of
        None \<Rightarrow> (Throws, s)
      | Some json \<Rightarrow>
          (case TransformNode_Parse E json of
             Throws \<Rightarrow> (Throws, s)
           | Returns n \<Rightarrow>
               (Returns (), addTransformNode (n\<lparr>waitingParentId := tf_parentId json\<rparr>) s)))"

definition transformStep :: "env \<Rightarrow> string \<Rightarrow> string \<Rightarrow> state \<Rightarrow> state" where
  "transformStep E dir t s =
     (case transformBody E dir t s of
        (Returns u, s1) \<Rightarrow> s1
      | (Throws, s1) \<Rightarrow> logError (FailedTransformNode t) s1)"

fun loadTransformNodes :: "env \<Rightarrow> string \<Rightarrow> string list \<Rightarrow> state \<Rightarrow> state" where
  "loadTransformNodes E dir [] s = s"
| "loadTransformNodes E dir (t # ts) s = loadTransformNodes E dir ts (transformStep E dir t s)"

text \<open>Physics impostors, for every mesh of the scene when the scene has a physics engine.\<close>

definition impostorStep :: "(node \<Rightarrow> string option outcome) \<Rightarrow> handle \<Rightarrow> state \<Rightarrow> state" where
  "impostorStep getImpostorForPhysicsObject h s =
     (case getImpostorForPhysicsObject (nodes s ! h) of
        Returns i \<Rightarrow>
          logInfo (ParsedImpostor (node_name (nodes s ! h)))
            (updateNode h (\<lambda>n. n\<lparr>physicsImpostor := i\<rparr>) s)
      | Throws \<Rightarrow> logError (FailedImpostor (node_name (nodes s ! h))) s)"

definition retrieveImpostors :: "env \<Rightarrow> state \<Rightarrow> state" where
  "retrieveImpostors E s =
     (case physicsEngine E of
        None \<Rightarrow> s
      | Some g \<Rightarrow> fold (impostorStep g) (meshes s) s)"

text \<open>
  Materials. \<^verbatim>\<open>m.bindedMeshes.forEach\<close>: a mesh found by id gets the material, a missing one
  gives a warning; the callback has no other exit.
\<close>

definition bindMesh :: "handle option \<Rightarrow> string \<Rightarrow> string \<Rightarrow> state \<Rightarrow> state" where
  "bindMesh mat mjson bm s =
     (case getMeshByID s bm of
        Some mesh \<Rightarrow> updateNode mesh (\<lambda>n. n\<lparr>material := mat\<rparr>) s
      | None \<Rightarrow> logWarning (FailedAttach mjson bm) s)"

fun bindMeshes :: "handle option \<Rightarrow> string \<Rightarrow> string list \<Rightarrow> state \<Rightarrow> state" where
  "bindMeshes mat mjson [] s = s"
| "bindMeshes mat mjson (bm # bms) s = bindMeshes mat mjson bms (bindMesh mat mjson bm s)"

text \<open>A material the engine creates is put into the scene; its handle is its position.\<close>

definition installMaterial :: "string option \<Rightarrow> state \<Rightarrow> handle option \<times> state" where
  "installMaterial created s =
     (case created of
        None \<Rightarrow> (None, s)
      | Some mat \<Rightarrow> (Some (length (materials s)), s\<lparr>materials := materials s @ [mat]\<rparr>))"

text \<open>
  The engine's \<^verbatim>\<open>Material.Parse\<close> creates the material and then rebuilds each texture of
  the payload by a call of \<^verbatim>\<open>SerializationHelper._TextureParser\<close>; an exception of that
  call leaves \<^verbatim>\<open>Material.Parse\<close>, with the material and the earlier textures in the scene.
  \<^verbatim>\<open>MultiMaterial.ParseMultiMaterial\<close> reads no texture.
\<close>

fun parsePayloadTextures :: "env \<Rightarrow> texture_source list \<Rightarrow> state \<Rightarrow> unit outcome \<times> state" where
  "parsePayloadTextures E [] s = (Returns (), s)"
| "parsePayloadTextures E (source # sources) s =
     (case SerializationHelper_TextureParser E source s of
        (Throws, s1) \<Rightarrow> (Throws, s1)
      | (Returns t, s1) \<Rightarrow> parsePayloadTextures E sources s1)"

definition parseMaterial ::
  "env \<Rightarrow> material_entry \<Rightarrow> material_file \<Rightarrow> state \<Rightarrow> handle option outcome \<times> state" where
  "parseMaterial E m json s =
     (if isMultiMaterial m then
        (case MultiMaterial_ParseMultiMaterial E json of
           Throws \<Rightarrow> (Throws, s)
         | Returns created \<Rightarrow>
             (case installMaterial created s of (mat, s1) \<Rightarrow> (Returns mat, s1)))
      else
        (case Material_Parse E json of
           Throws \<Rightarrow> (Throws, s)
         | Returns None \<Rightarrow> (Returns None, s)
         | Returns (Some body) \<Rightarrow>
             (case installMaterial (Some body) s of
                (mat, s1) \<Rightarrow>
                  (case parsePayloadTextures E (mat_textures json) s1 of
                     (Throws, s2) \<Rightarrow> (Throws, s2)
                   | (Returns u, s2) \<Rightarrow> (Returns mat, s2)))))"

definition materialBody :: "env \<Rightarrow> string \<Rightarrow> material_entry \<Rightarrow> state \<Rightarrow> unit outcome \<times> state" where
  "materialBody E dir m s =
     (case materialFile E (join E [dir, ''materials'', mat_json m]) of
        None \<Rightarrow> (Throws, s)
      | Some json \<Rightarrow>
          (case parseMaterial E m json s of
             (Throws, s1) \<Rightarrow> (Throws, s1)
           | (Returns mat, s1) \<Rightarrow>
               (Returns (),
                bindMeshes mat (mat_json m) (bindedMeshes m)
                  (logInfo (ParsedMaterial (mat_json m)) s1))))"

definition materialStep :: "env \<Rightarrow> string \<Rightarrow> rat \<Rightarrow> material_entry \<Rightarrow> state \<Rightarrow> state" where
  "materialStep E dir spinnerStep m s =
     advanceSpinner spinnerStep
       (case materialBody E dir m s of
          (Returns u, s1) \<Rightarrow> s1
        | (Throws, s1) \<Rightarrow> logError (FailedMaterial (mat_json m)) s1)"

fun loadMaterials :: "env \<Rightarrow> string \<Rightarrow> rat \<Rightarrow> material_entry list \<Rightarrow> state \<Rightarrow> state" where
  "loadMaterials E dir spinnerStep [] s = s"
| "loadMaterials E dir spinnerStep (m # ms) s =
     loadMaterials E dir spinnerStep ms (materialStep E dir spinnerStep m s)"

text \<open>
  Textures: \<^verbatim>\<open>Texture.Parse\<close> is called directly, not through
  \<^verbatim>\<open>SerializationHelper._TextureParser\<close>. The body of the
  \<^verbatim>\<open>try\<close> returns \<open>True\<close> when it left through \<^verbatim>\<open>continue\<close>, which goes to the next
  texture without the progress update at the end of the loop body.
\<close>

definition textureBody :: "env \<Rightarrow> string \<Rightarrow> string \<Rightarrow> state \<Rightarrow> bool outcome \<times> state" where
  "textureBody E dir t s =
     (case textureFile E (join E [dir, ''textures'', t]) of
        None \<Rightarrow> (Throws, s)
      | Some json \<Rightarrow>
          (case getTextureByUniqueID s (src_uniqueId json) of
             Some existing \<Rightarrow> (Returns True, s)
           | None \<Rightarrow>
               (case parseTexture E json s of
                  (Throws, s1) \<Rightarrow> (Throws, s1)
                | (Returns r, s1) \<Rightarrow> (Returns False, logInfo (ParsedTexture t) s1))))"

definition textureStep :: "env \<Rightarrow> string \<Rightarrow> rat \<Rightarrow> string \<Rightarrow> state \<Rightarrow> state" where
  "textureStep E dir spinnerStep t s =
     (case textureBody E dir t s of
        (Returns True, s1) \<Rightarrow> s1
      | (Returns False, s1) \<Rightarrow> advanceSpinner spinnerStep s1
      | (Throws, s1) \<Rightarrow> advanceSpinner spinnerStep (logError (FailedTexture t) s1))"

fun loadTextures :: "env \<Rightarrow> string \<Rightarrow> rat \<Rightarrow> string list \<Rightarrow> state \<Rightarrow> state" where
  "loadTextures E dir spinnerStep [] s = s"
| "loadTextures E dir spinnerStep (t # ts) s =
     loadTextures E dir spinnerStep ts (textureStep E dir spinnerStep t s)"

text \<open>
  Lights and their shadow generators. The constructor callback builds a cascaded generator
  when the class name of the file is not \<^verbatim>\<open>ShadowGenerator\<close> and the light is directional.
  The \<^verbatim>\<open>catch\<close> interpolates the manifest entry itself, an object.
\<close>

definition shadowBody :: "env \<Rightarrow> string \<Rightarrow> light_entry \<Rightarrow> state \<Rightarrow> unit outcome \<times> state" where
  "shadowBody E dir l s =
     (case shadowGenerator l of
        None \<Rightarrow> (Returns (), s)
      | Some sg \<Rightarrow>
          if sg = [] then (Returns (), s)
          else (case shadowFile E (join E [dir, ''shadows'', sg]) of
                  None \<Rightarrow> (Throws, s)
                | Some json \<Rightarrow>
                    (case ShadowGenerator_Parse E json of
                       Throws \<Rightarrow> (Throws, s)
                     | Returns directional \<Rightarrow>
                         (Returns (),
                          logInfo (ParsedShadows (light_json l))
                            (s\<lparr>shadowGenerators := shadowGenerators s @
                                 [if sf_className json \<noteq> ''ShadowGenerator'' \<and> directional
                                  then CascadedShadows else StandardShadows]\<rparr>)))))"

definition lightBody :: "env \<Rightarrow> string \<Rightarrow> light_entry \<Rightarrow> state \<Rightarrow> unit outcome \<times> state" where
  "lightBody E dir l s =
     (case lightFile E (join E [dir, ''lights'', light_json l]) of
        None \<Rightarrow> (Throws, s)
      | Some json \<Rightarrow>
          (case Light_Parse E json of
             Throws \<Rightarrow> (Throws, s)
           | Returns created \<Rightarrow>
               shadowBody E dir l
                 (logInfo (ParsedLight (light_json l))
                    (case created of None \<Rightarrow> s | Some n \<Rightarrow> addLight n s))))"

definition lightStep :: "env \<Rightarrow> string \<Rightarrow> rat \<Rightarrow> light_entry \<Rightarrow> state \<Rightarrow> state" where
  "lightStep E dir spinnerStep l s =
     advanceSpinner spinnerStep
       (case lightBody E dir l s of
          (Returns u, s1) \<Rightarrow> s1
        | (Throws, s1) \<Rightarrow> logError FailedLight s1)"

fun loadLights :: "env \<Rightarrow> string \<Rightarrow> rat \<Rightarrow> light_entry list \<Rightarrow> state \<Rightarrow> state" where
  "loadLights E dir spinnerStep [] s = s"
| "loadLights E dir spinnerStep (l # ls) s =
     loadLights E dir spinnerStep ls (lightStep E dir spinnerStep l s)"

text \<open>Cameras.\<close>

definition cameraBody :: "env \<Rightarrow> string \<Rightarrow> string \<Rightarrow> state \<Rightarrow> unit outcome \<times> state" where
  "cameraBody E dir c s =
     (case cameraFile E (join E [dir, ''cameras'', c]) of
        None \<Rightarrow> (Throws, s)
      | Some json \<Rightarrow>
          (case Camera_Parse E json of
             Throws \<Rightarrow> (Throws, s)
           | Returns n \<Rightarrow> (Returns (), logInfo (ParsedCamera c) (addCamera n s))))"

definition cameraStep :: "env \<Rightarrow> string \<Rightarrow> rat \<Rightarrow> string \<Rightarrow> state \<Rightarrow> state" where
  "cameraStep E dir spinnerStep c s =
     advanceSpinner spinnerStep
       (case cameraBody E dir c s of
          (Returns u, s1) \<Rightarrow> s1
        | (Throws, s1) \<Rightarrow> logError (FailedCamera c) s1)"

fun loadCameras :: "env \<Rightarrow> string \<Rightarrow> rat \<Rightarrow> string list \<Rightarrow> state \<Rightarrow> state" where
  "loadCameras E dir spinnerStep [] s = s"
| "loadCameras E dir spinnerStep (c # cs) s =
     loadCameras E dir spinnerStep cs (cameraStep E dir spinnerStep c s)"

subsection \<open>Post-processes, cache, parents, refresh\<close>

definition postProcess ::
  "env \<Rightarrow> string \<Rightarrow> post_process option \<Rightarrow> state \<Rightarrow> unit outcome \<times> state" where
  "postProcess E pipeline conf s =
     (case conf of
        None \<Rightarrow> (Returns (), s)
      | Some c \<Rightarrow>
          (case SerializationHelper_Parse E pipeline (pp_json c) of
             Throws \<Rightarrow> (Throws, s)
           | Returns u \<Rightarrow>
               (case SetPipelineEnabled E pipeline (pp_enabled c) of
                  Throws \<Rightarrow> (Throws, s)
                | Returns v \<Rightarrow>
                    (Returns (),
                     s\<lparr>enabledPipelines := enabledPipelines s @ [(pipeline, pp_enabled c)]\<rparr>))))"

definition postProcesses :: "env \<Rightarrow> project \<Rightarrow> state \<Rightarrow> unit outcome \<times> state" where
  "postProcesses E project s =
     (case postProcess E ''ssao'' (pp_ssao project) s of
        (Throws, s1) \<Rightarrow> (Throws, s1)
      | (Returns u, s1) \<Rightarrow>
          (case postProcess E ''standard'' (pp_standard project) s1 of
             (Throws, s2) \<Rightarrow> (Throws, s2)
           | (Returns v, s2) \<Rightarrow> postProcess E ''default'' (pp_default project) s2))"

text \<open>
  The setter of \<^verbatim>\<open>parent\<close> of the engine's nodes. Assigning the parent a node already
  has does nothing. Otherwise the parent is written, the node is moved into the children of
  its new parent, and the enabled state is recomputed for the node and, recursively, for its
  children. When the new parent is the node itself or one of its descendants, the node is now
  among its own descendants, the recursion does not end, and the call throws a
  \<^verbatim>\<open>RangeError\<close>: after the parent was written.

  \<open>climbs ns fuel target x\<close>: following the parents from \<open>x\<close> reaches \<open>target\<close> in at most
  \<open>fuel\<close> steps. A chain of parents through distinct nodes of the store \<open>ns\<close> has at most
  \<open>length ns\<close> steps, so that much fuel finds every cycle through a node.
\<close>

fun climbs :: "node list \<Rightarrow> nat \<Rightarrow> handle \<Rightarrow> handle \<Rightarrow> bool" where
  "climbs ns 0 target x = False"
| "climbs ns (Suc fuel) target x =
     (x < length ns \<and>
      (case parent (ns ! x) of
         None \<Rightarrow> False
       | Some p \<Rightarrow> p = target \<or> climbs ns fuel target p))"

definition closesCycle :: "node list \<Rightarrow> handle \<Rightarrow> bool" where
  "closesCycle ns h = climbs ns (length ns) h h"

definition setParent :: "handle \<Rightarrow> handle option \<Rightarrow> state \<Rightarrow> unit outcome \<times> state" where
  "setParent h p s =
     (if parent (nodes s ! h) = p then (Returns (), s)
      else let s1 = updateNode h (\<lambda>n. n\<lparr>parent := p\<rparr>) s
           in if closesCycle (nodes s1) h then (Throws, s1) else (Returns (), s1))"

text \<open>
  \<^verbatim>\<open>_SetWaitingParent\<close>, on the node with handle \<open>h\<close>. When the assignment throws, the
  \<^verbatim>\<open>delete\<close> after it is not reached.
\<close>

definition priv_SetWaitingParent :: "handle \<Rightarrow> state \<Rightarrow> unit outcome \<times> state" where
  "priv_SetWaitingParent h s =
     (case waitingParentId (nodes s ! h) of
        None \<Rightarrow> (Returns (), s)
      | Some w \<Rightarrow>
          if w = [] then (Returns (), s)
          else (case setParent h (orElse (getNodeByID s w) (getTransformNodeByID s w)) s of
                  (Throws, s1) \<Rightarrow> (Throws, s1)
                | (Returns u, s1) \<Rightarrow>
                    (Returns (), updateNode h (\<lambda>n. n\<lparr>waitingParentId := None\<rparr>) s1)))"

text \<open>
  \<^verbatim>\<open>forEach\<close> with a callback that may throw: the first exception ends the loop and leaves
  it.
\<close>

fun forEachNode ::
  "(handle \<Rightarrow> state \<Rightarrow> unit outcome \<times> state) \<Rightarrow> handle list \<Rightarrow> state \<Rightarrow> unit outcome \<times> state" where
  "forEachNode f [] s = (Returns (), s)"
| "forEachNode f (h # hs) s =
     (case f h s of
        (Throws, s1) \<Rightarrow> (Throws, s1)
      | (Returns u, s1) \<Rightarrow> forEachNode f hs s1)"

text \<open>The four \<^verbatim>\<open>forEach\<close> under the comment \<^verbatim>\<open>// Parent Ids\<close>.\<close>

definition linkParents :: "state \<Rightarrow> unit outcome \<times> state" where
  "linkParents s =
     (case forEachNode priv_SetWaitingParent (meshes s) s of
        (Throws, s1) \<Rightarrow> (Throws, s1)
      | (Returns u, s1) \<Rightarrow>
          (case forEachNode priv_SetWaitingParent (lights s1) s1 of
             (Throws, s2) \<Rightarrow> (Throws, s2)
           | (Returns v, s2) \<Rightarrow>
               (case forEachNode priv_SetWaitingParent (cameras s2) s2 of
                  (Throws, s3) \<Rightarrow> (Throws, s3)
                | (Returns w, s3) \<Rightarrow>
                    forEachNode priv_SetWaitingParent (transformNodes s3) s3)))"

text \<open>\<^verbatim>\<open>_RefreshEditor\<close>\<close>

definition priv_RefreshEditor :: "state \<Rightarrow> state" where
  "priv_RefreshEditor s = emit Overlay_Hide (emit Graph_refresh (emit Assets_refresh s))"

text \<open>
  \<^verbatim>\<open>scene._checkIsReady()\<close>: a ready scene notifies its observers and clears them; otherwise
  the engine will ask again later, outside the import.
\<close>

definition checkIsReady :: "env \<Rightarrow> state \<Rightarrow> state" where
  "checkIsReady E s =
     (if sceneIsReady E then ((priv_RefreshEditor ^^ readyObservers s) s)\<lparr>readyObservers := 0\<rparr>
      else s)"

subsection \<open>\<^verbatim>\<open>_ImportProject\<close> and \<^verbatim>\<open>ImportProject\<close>\<close>

text \<open>The registries written after the manifest was read.\<close>

definition registerFiles :: "env \<Rightarrow> string \<Rightarrow> string list \<Rightarrow> state \<Rightarrow> state" where
  "registerFiles E dir fs s =
     fold (\<lambda>f st. let path = join E [dir, ''files'', f]
                   in st\<lparr>FilesStore_List := (FilesStore_List st)(path \<mapsto> (path, basename E f))\<rparr>)
          fs s"

definition configureAssets :: "env \<Rightarrow> string \<Rightarrow> project \<Rightarrow> state \<Rightarrow> state" where
  "configureAssets E dir project s =
     (let s1 = s\<lparr>MeshesAssets_Meshes := MeshesAssets_Meshes s @
                   map (\<lambda>m. (m, join E [dir, ''assets'', ''meshes'', m])) (assets_meshes project)\<rparr>
      in case assets_prefabs project of
           None \<Rightarrow> s1
         | Some ps \<Rightarrow>
             s1\<lparr>PrefabAssets_Prefabs := PrefabAssets_Prefabs s1 @
                   map (\<lambda>p. (p, join E [dir, ''prefabs'', p])) ps\<rparr>)"

text \<open>
  \<^verbatim>\<open>const spinnerStep = 1 / (...)\<close>. For a manifest with no entity the JavaScript value is
  \<^verbatim>\<open>Infinity\<close> and the value here is \<open>0\<close>; no loop runs then, and the step is never added.
\<close>

definition spinnerStepOf :: "project \<Rightarrow> rat" where
  "spinnerStepOf project =
     1 / of_nat (length (p_textures project) + length (p_materials project)
                 + length (p_meshes project) + length (p_lights project)
                 + length (p_cameras project))"

text \<open>The loops, from \<^verbatim>\<open>// Load all meshes\<close> to \<^verbatim>\<open>// Load all cameras\<close>.\<close>

definition loadEntities :: "env \<Rightarrow> string \<Rightarrow> project \<Rightarrow> state \<Rightarrow> state" where
  "loadEntities E dir project s =
     (let spinnerStep = spinnerStepOf project;
          s1 = loadMeshes E dir spinnerStep (p_meshes project)
                 (emit (Overlay_SetMessage ''Creating Meshes...'') s);
          s2 = loadTransformNodes E dir
                 (case p_transformNodes project of None \<Rightarrow> [] | Some ts \<Rightarrow> ts)
                 (emit (Overlay_SetMessage ''Creating Transform Nodes'') s1);
          s3 = retrieveImpostors E s2;
          s4 = loadMaterials E dir spinnerStep (p_materials project)
                 (emit (Overlay_SetMessage ''Creating Materials...'') s3);
          s5 = loadTextures E dir spinnerStep (p_textures project)
                 (emit (Overlay_SetMessage ''Creating Textures...'') s4);
          s6 = loadLights E dir spinnerStep (p_lights project)
                 (emit (Overlay_SetMessage ''Creating Lights...'') s5)
      in loadCameras E dir spinnerStep (p_cameras project)
           (emit (Overlay_SetMessage ''Creating Cameras...'') s6))"

text \<open>From \<^verbatim>\<open>// Post-Processes\<close> to the end of \<^verbatim>\<open>_ImportProject\<close>.\<close>

definition finishImport :: "env \<Rightarrow> string \<Rightarrow> project \<Rightarrow> state \<Rightarrow> unit outcome \<times> state" where
  "finishImport E dir project s =
     (case postProcesses E project (emit (Overlay_SetMessage ''Configuring Rendering...'') s) of
        (Throws, s1) \<Rightarrow> (Throws, s1)
      | (Returns u, s1) \<Rightarrow>
          let s2 = emit (Overlay_SetMessage ''Loading Cache...'') s1 in
          (case cacheFile E (join E [dir, ''assets'', ''cache.json'']) of
             None \<Rightarrow> (Throws, s2)
           | Some cache \<Rightarrow>
               (case linkParents (s2\<lparr>cachedData := Some cache\<rparr>) of
                  (Throws, s3) \<Rightarrow> (Throws, s3)
                | (Returns w, s3) \<Rightarrow>
                    (Returns (),
                     checkIsReady E (s3\<lparr>readyObservers := Suc (readyObservers s3)\<rparr>)))))"

text \<open>From the top of \<^verbatim>\<open>_ImportProject\<close> to \<^verbatim>\<open>// Configure camera\<close>.\<close>

definition startImport :: "env \<Rightarrow> string \<Rightarrow> state \<Rightarrow> (string \<times> project) outcome \<times> state" where
  "startImport E path s =
     (let dir = dirname E path @ ''/'';
          s1 = (emit (Overlay_Show ''Importing Project...'') s)
                 \<lparr>textureParserHooked := True, Project_Path := Some path,
                  Project_DirPath := Some dir\<rparr>
      in case projectFile E path of
           None \<Rightarrow> (Throws, s1)
         | Some project \<Rightarrow>
             let rootUrl = join E [dir, ''/''];
                 s2 = (emit (Overlay_SetSpinnervalue 0) s1)\<lparr>spinnerValue := 0\<rparr>;
                 s3 = configureAssets E dir project (registerFiles E dir (filesList project) s2)
             in (case ImportSceneSettings E (p_scene project) rootUrl of
                   Throws \<Rightarrow> (Throws, s3)
                 | Returns u \<Rightarrow>
                     (case ConfigureFromJson E (project_camera project) of
                        Throws \<Rightarrow> (Throws, s3)
                      | Returns v \<Rightarrow> (Returns (dir, project), s3))))"

definition priv_ImportProject :: "env \<Rightarrow> string \<Rightarrow> state \<Rightarrow> unit outcome \<times> state" where
  "priv_ImportProject E path s =
     (case startImport E path s of
        (Throws, s1) \<Rightarrow> (Throws, s1)
      | (Returns (dir, project), s1) \<Rightarrow> finishImport E dir project (loadEntities E dir project s1))"

text \<open>\<^verbatim>\<open>ImportProject\<close>: the \<^verbatim>\<open>catch\<close> refreshes the editor and the promise resolves.\<close>

definition ImportProject :: "env \<Rightarrow> string \<Rightarrow> state \<Rightarrow> unit outcome \<times> state" where
  "ImportProject E path s =
     (case priv_ImportProject E path s of
        (Returns u, s1) \<Rightarrow> (Returns (), s1)
      | (Throws, s1) \<Rightarrow> (Returns (), priv_RefreshEditor s1))"

subsection \<open>Concrete inputs\<close>

text \<open>
  An empty scene, and a world in which no file exists and every engine call throws; the
  concrete inputs below change what they need of it. \<^verbatim>\<open>join\<close> glues its arguments with
  slashes.
\<close>

definition emptyScene :: state where
  "emptyScene =
     \<lparr>nodes = [], meshes = [], transformNodes = [], lights = [], cameras = [], textures = [],
      materials = [], shadowGenerators = [], textureParserHooked = False, Project_Path = None,
      Project_DirPath = None, FilesStore_List = (\<lambda>p. None), MeshesAssets_Meshes = [],
      PrefabAssets_Prefabs = [], enabledPipelines = [], cachedData = None, spinnerValue = 0,
      readyObservers = 0, events = []\<rparr>"

fun slashes :: "string list \<Rightarrow> string" where
  "slashes [] = []"
| "slashes [x] = x"
| "slashes (x # y # zs) = x @ ''/'' @ slashes (y # zs)"

definition bareWorld :: env where
  "bareWorld =
     \<lparr>dirname = (\<lambda>p. ''d''), join = slashes, basename = (\<lambda>p. p),
      projectFile = (\<lambda>p. None), meshFile = (\<lambda>p. None), transformFile = (\<lambda>p. None),
      materialFile = (\<lambda>p. None), textureFile = (\<lambda>p. None), lightFile = (\<lambda>p. None),
      shadowFile = (\<lambda>p. None), cameraFile = (\<lambda>p. None), cacheFile = (\<lambda>p. None),
      ImportSceneSettings = (\<lambda>j r. Returns ()), ConfigureFromJson = (\<lambda>j. Returns ()),
      ImportMeshAsync = (\<lambda>r f. Throws), TransformNode_Parse = (\<lambda>j. Throws),
      physicsEngine = None, Material_Parse = (\<lambda>j. Throws),
      MultiMaterial_ParseMultiMaterial = (\<lambda>j. Throws), Texture_Parse = (\<lambda>j. Throws),
      Light_Parse = (\<lambda>j. Throws), ShadowGenerator_Parse = (\<lambda>j. Throws),
      Camera_Parse = (\<lambda>j. Throws), SerializationHelper_Parse = (\<lambda>p j. Returns ()),
      SetPipelineEnabled = (\<lambda>p b. Returns ()), sceneIsReady = True\<rparr>"

definition bareProject :: project where
  "bareProject =
     \<lparr>filesList = [], p_cameras = [], p_textures = [], p_materials = [], p_meshes = [],
      p_transformNodes = None, p_lights = [], p_scene = [], assets_meshes = [],
      assets_prefabs = None, project_camera = [], pp_ssao = None, pp_standard = None,
      pp_default = None\<rparr>"

definition freshNode :: "string \<Rightarrow> node" where
  "freshNode i =
     \<lparr>node_id = i, node_name = i, waitingParentId = None, parent = None, material = None,
      isMesh = True, lodLevels = [], physicsImpostor = None\<rparr>"

subsection \<open>Auxiliary notions used in the statements\<close>

text \<open>
  The failures before the loops and after them that make \<^verbatim>\<open>_ImportProject\<close> reject, read
  off the manifest and the world.
\<close>

definition startFails :: "env \<Rightarrow> string \<Rightarrow> bool" where
  "startFails E path =
     (case projectFile E path of
        None \<Rightarrow> True
      | Some project \<Rightarrow>
          ImportSceneSettings E (p_scene project) (join E [dirname E path @ ''/'', ''/'']) = Throws
          \<or> ConfigureFromJson E (project_camera project) = Throws)"

definition postProcessFails :: "env \<Rightarrow> string \<Rightarrow> post_process option \<Rightarrow> bool" where
  "postProcessFails E pipeline conf =
     (case conf of
        None \<Rightarrow> False
      | Some c \<Rightarrow> SerializationHelper_Parse E pipeline (pp_json c) = Throws
                  \<or> SetPipelineEnabled E pipeline (pp_enabled c) = Throws)"

definition finishFails :: "env \<Rightarrow> string \<Rightarrow> project \<Rightarrow> bool" where
  "finishFails E dir project =
     (postProcessFails E ''ssao'' (pp_ssao project)
      \<or> postProcessFails E ''standard'' (pp_standard project)
      \<or> postProcessFails E ''default'' (pp_default project)
      \<or> cacheFile E (join E [dir, ''assets'', ''cache.json'']) = None)"

text \<open>
  A world whose manifest is readable and empty, and whose cache file is missing; and the same
  world with a readable cache file.
\<close>

definition worldWithoutCache :: env where
  "worldWithoutCache = bareWorld\<lparr>projectFile := (\<lambda>p. Some bareProject)\<rparr>"

definition worldWithCache :: env where
  "worldWithCache = worldWithoutCache\<lparr>cacheFile := (\<lambda>p. Some [])\<rparr>"

text \<open>The nodes the parent pass visits, and the scenes whose lists hold handles of the store.\<close>

definition sceneNodes :: "state \<Rightarrow> handle list" where
  "sceneNodes s = meshes s @ lights s @ cameras s @ transformNodes s"

definition scene_wf :: "state \<Rightarrow> bool" where
  "scene_wf s = list_all (\<lambda>h. h < length (nodes s)) (sceneNodes s)"

text \<open>
  What \<^verbatim>\<open>_SetWaitingParent\<close> makes of one node when it returns, given the scene the lookups
  run on.
\<close>

definition linked :: "state \<Rightarrow> node \<Rightarrow> node" where
  "linked s n =
     (case waitingParentId n of
        None \<Rightarrow> n
      | Some w \<Rightarrow>
          if w = [] then n
          else n\<lparr>parent := orElse (getNodeByID s w) (getTransformNodeByID s w),
                 waitingParentId := None\<rparr>)"

text \<open>Two states with the same lists of handles and the same id at every position.\<close>

definition sameIndex :: "state \<Rightarrow> state \<Rightarrow> bool" where
  "sameIndex s s' =
     (meshes s' = meshes s \<and> lights s' = lights s \<and> cameras s' = cameras s
      \<and> transformNodes s' = transformNodes s \<and> length (nodes s') = length (nodes s)
      \<and> (\<forall>k. node_id (nodes s' ! k) = node_id (nodes s ! k)))"

text \<open>The part of the state the lookups and the parent pass read.\<close>

definition sceneOf ::
  "state \<Rightarrow> node list \<times> handle list \<times> handle list \<times> handle list \<times> handle list" where
  "sceneOf s = (nodes s, meshes s, lights s, cameras s, transformNodes s)"

text \<open>
  How a later state of the import relates to an earlier one: the events only grow at the end,
  the store only grows and no node changes its id, no mesh leaves the list of meshes, the
  textures only grow at the end, handles stay handles of the store, and the texture parser
  installed by the importer stays installed.
\<close>

definition evolves :: "state \<Rightarrow> state \<Rightarrow> bool" where
  "evolves s s' =
     ((\<exists>tr. events s' = events s @ tr)
      \<and> length (nodes s) \<le> length (nodes s')
      \<and> (\<forall>k<length (nodes s). node_id (nodes s' ! k) = node_id (nodes s ! k))
      \<and> set (meshes s) \<subseteq> set (meshes s')
      \<and> (\<exists>tx. textures s' = textures s @ tx)
      \<and> (scene_wf s \<longrightarrow> scene_wf s')
      \<and> (textureParserHooked s \<longrightarrow> textureParserHooked s'))"

text \<open>The state at the end of entity loading, when the import got that far.\<close>

definition entitiesLoaded :: "env \<Rightarrow> string \<Rightarrow> project \<Rightarrow> state \<Rightarrow> state" where
  "entitiesLoaded E path project s =
     loadEntities E (dirname E path @ ''/'') project (snd (startImport E path s))"

text \<open>
  A node whose waiting parent id, if it has a truthy one, is the id of no node of the scene;
  and a scene all of whose meshes, lights, cameras and transform nodes are such.
\<close>

definition dangling :: "state \<Rightarrow> node \<Rightarrow> bool" where
  "dangling s n =
     (case waitingParentId n of
        None \<Rightarrow> True
      | Some w \<Rightarrow> w = [] \<or> (getNodeByID s w = None \<and> getTransformNodeByID s w = None))"

definition allDangling :: "state \<Rightarrow> bool" where
  "allDangling s = list_all (\<lambda>h. dangling s (nodes s ! h)) (sceneNodes s)"

text \<open>The progress values and the error messages in a list of events, in order.\<close>

fun progressValues :: "event list \<Rightarrow> rat list" where
  "progressValues [] = []"
| "progressValues (Overlay_SetSpinnervalue v # es) = v # progressValues es"
| "progressValues (e # es) = progressValues es"

fun errorsOf :: "event list \<Rightarrow> message list" where
  "errorsOf [] = []"
| "errorsOf (Console Error m # es) = m # errorsOf es"
| "errorsOf (e # es) = errorsOf es"

text \<open>The console messages of the material loop.\<close>

fun isMaterialEvent :: "event \<Rightarrow> bool" where
  "isMaterialEvent (Console v (ParsedMaterial n)) = True"
| "isMaterialEvent (Console v (FailedAttach n b)) = True"
| "isMaterialEvent (Console v (FailedMaterial n)) = True"
| "isMaterialEvent e = False"

text \<open>
  From \<open>s\<close> to \<open>s'\<close> the events grew by a list without material messages and with \<open>n\<close>
  progress reports.
\<close>

definition quiet :: "nat \<Rightarrow> state \<Rightarrow> state \<Rightarrow> bool" where
  "quiet n s s' =
     (\<exists>tr. events s' = events s @ tr \<and> list_all (\<lambda>e. \<not> isMaterialEvent e) tr
           \<and> length (progressValues tr) = n)"

subsection \<open>The states between the loops\<close>

text \<open>
  \<open>s0\<close> is the state after the manifest was read. The state when the mesh loop has ended;
  the state in which the material loop starts; the state in which the material loop takes up
  the \<open>i\<close>-th record of the manifest; the state when the material loop has ended; and the
  states in which the texture loop starts and ends.
\<close>

definition meshesLoaded :: "env \<Rightarrow> string \<Rightarrow> project \<Rightarrow> state \<Rightarrow> state" where
  "meshesLoaded E dir project s0 =
     loadMeshes E dir (spinnerStepOf project) (p_meshes project)
       (emit (Overlay_SetMessage ''Creating Meshes...'') s0)"

definition beforeMaterials :: "env \<Rightarrow> string \<Rightarrow> project \<Rightarrow> state \<Rightarrow> state" where
  "beforeMaterials E dir project s0 =
     emit (Overlay_SetMessage ''Creating Materials...'')
       (retrieveImpostors E
          (loadTransformNodes E dir
             (case p_transformNodes project of None \<Rightarrow> [] | Some ts \<Rightarrow> ts)
             (emit (Overlay_SetMessage ''Creating Transform Nodes'')
                (meshesLoaded E dir project s0))))"


definition materialsLoaded :: "env \<Rightarrow> string \<Rightarrow> project \<Rightarrow> state \<Rightarrow> state" where
  "materialsLoaded E dir project s0 =
     loadMaterials E dir (spinnerStepOf project) (p_materials project)
       (beforeMaterials E dir project s0)"

definition beforeTextures :: "env \<Rightarrow> string \<Rightarrow> project \<Rightarrow> state \<Rightarrow> state" where
  "beforeTextures E dir project s0 =
     emit (Overlay_SetMessage ''Creating Textures...'') (materialsLoaded E dir project s0)"

definition texturesLoaded :: "env \<Rightarrow> string \<Rightarrow> project \<Rightarrow> state \<Rightarrow> state" where
  "texturesLoaded E dir project s0 =
     loadTextures E dir (spinnerStepOf project) (p_textures project)
       (beforeTextures E dir project s0)"

subsection \<open>Textures by unique id and by editor name\<close>

text \<open>The number of live textures with a given unique id, and with a given editor name.\<close>

definition keyCount :: "nat \<Rightarrow> state \<Rightarrow> nat" where
  "keyCount k s = length (filter (\<lambda>t. uniqueId t = k) (textures s))"

definition nameCount :: "string \<Rightarrow> state \<Rightarrow> nat" where
  "nameCount e s = length (filter (\<lambda>t. editorName t = Some e) (textures s))"

text \<open>
  From \<open>s\<close> to \<open>s'\<close> a count did not fall, and did not rise above one unless it was above
  one before.
\<close>

definition bounded :: "(state \<Rightarrow> nat) \<Rightarrow> state \<Rightarrow> state \<Rightarrow> bool" where
  "bounded c s s' = (c s \<le> c s' \<and> c s' \<le> max 1 (c s))"

text \<open>
  The texture entry \<open>t\<close> of the manifest has a readable file that carries the unique id \<open>k\<close>;
  and, moreover, the engine parses that file into a texture.
\<close>

definition carriesKey :: "env \<Rightarrow> string \<Rightarrow> string \<Rightarrow> nat \<Rightarrow> bool" where
  "carriesKey E dir t k =
     (case textureFile E (join E [dir, ''textures'', t]) of
        None \<Rightarrow> False
      | Some source \<Rightarrow> src_uniqueId source = Some k)"

definition parsesWithKey :: "env \<Rightarrow> string \<Rightarrow> string \<Rightarrow> nat \<Rightarrow> bool" where
  "parsesWithKey E dir t k =
     (case textureFile E (join E [dir, ''textures'', t]) of
        None \<Rightarrow> False
      | Some source \<Rightarrow>
          src_uniqueId source = Some k
          \<and> (case Texture_Parse E source of Returns (Some tex) \<Rightarrow> True | _ \<Rightarrow> False))"

text \<open>
  The engine's \<^verbatim>\<open>Texture.Parse\<close> gives the unique id \<open>k\<close> to the textures it creates from
  the sources that carry \<open>k\<close>, and to no other texture. Likewise for an editor name.
\<close>

definition givesKey :: "env \<Rightarrow> nat \<Rightarrow> bool" where
  "givesKey E k =
     (\<forall>source tex. Texture_Parse E source = Returns (Some tex)
        \<longrightarrow> (uniqueId tex = k) = (src_uniqueId source = Some k))"

definition givesName :: "env \<Rightarrow> string \<Rightarrow> bool" where
  "givesName E e =
     (\<forall>source tex. Texture_Parse E source = Returns (Some tex)
        \<longrightarrow> (editorName tex = Some e) = (src_editorName source = Some e))"

text \<open>
  The material record \<open>m\<close> of the manifest is not a multi-material, its file is read, the
  engine creates a material from it, and the first texture of its payload carries the editor
  name \<open>e\<close> and is one the engine's \<^verbatim>\<open>Texture.Parse\<close> makes a texture of.
\<close>

definition namedPayload :: "env \<Rightarrow> string \<Rightarrow> material_entry \<Rightarrow> string \<Rightarrow> bool" where
  "namedPayload E dir m e =
     (if isMultiMaterial m then False
      else (case materialFile E (join E [dir, ''materials'', mat_json m]) of
              None \<Rightarrow> False
            | Some json \<Rightarrow>
                (case Material_Parse E json of
                   Returns (Some body) \<Rightarrow>
                     (case mat_textures json of
                        [] \<Rightarrow> False
                      | source # rest \<Rightarrow>
                          src_editorName source = Some e
                          \<and> (case Texture_Parse E source of
                                Returns (Some tex) \<Rightarrow> True
                              | _ \<Rightarrow> False))
                 | _ \<Rightarrow> False)))"

subsection \<open>Mesh entries that fail and mesh entries that load\<close>







text \<open>
  From \<open>s\<close> to \<open>s'\<close> the store and the list of meshes only grew, and no node changed its id or
  its class; and, moreover, nothing was reported: no error, no progress.
\<close>

definition kept :: "state \<Rightarrow> state \<Rightarrow> bool" where
  "kept s s' =
     (length (nodes s) \<le> length (nodes s')
      \<and> (\<forall>k<length (nodes s). node_id (nodes s' ! k) = node_id (nodes s ! k)
                              \<and> isMesh (nodes s' ! k) = isMesh (nodes s ! k))
      \<and> set (meshes s) \<subseteq> set (meshes s'))"


subsection \<open>Concrete imports\<close>

text \<open>
  A manifest with two texture entries. In \<open>twinWorld\<close> every texture file carries the unique
  id 7 and the engine parses it; in \<open>brokenTwinWorld\<close> the files are the same and the engine's
  parser throws on them.
\<close>

definition twinProject :: project where
  "twinProject = bareProject\<lparr>p_textures := [''a.json'', ''b.json'']\<rparr>"

definition twinSource :: texture_source where
  "twinSource = \<lparr>src_body = [], src_uniqueId = Some 7, src_editorName = None\<rparr>"

definition brokenTwinWorld :: env where
  "brokenTwinWorld =
     worldWithCache\<lparr>projectFile := (\<lambda>p. Some twinProject),
                    textureFile := (\<lambda>p. Some twinSource)\<rparr>"

definition twinWorld :: env where
  "twinWorld =
     brokenTwinWorld\<lparr>Texture_Parse :=
       (\<lambda>src. case src_uniqueId src of
                None \<Rightarrow> Throws
              | Some k \<Rightarrow> Returns (Some \<lparr>uniqueId = k, editorName = src_editorName src\<rparr>))\<rparr>"

text \<open>
  The same two texture entries, and before them a material whose payload holds the texture of
  unique id 7 twice (say, as its diffuse and as its bump texture), without an editor name.
\<close>

definition twinPaintEntry :: material_entry where
  "twinPaintEntry = \<lparr>bindedMeshes = [], mat_json = ''m.json'', isMultiMaterial = False\<rparr>"

definition twinPaintProject :: project where
  "twinPaintProject = twinProject\<lparr>p_materials := [twinPaintEntry]\<rparr>"

definition twinPaintWorld :: env where
  "twinPaintWorld =
     twinWorld\<lparr>projectFile := (\<lambda>p. Some twinPaintProject),
               materialFile :=
                 (\<lambda>p. Some \<lparr>mat_body = ''{}'', mat_textures = [twinSource, twinSource]\<rparr>),
               Material_Parse := (\<lambda>j. Returns (Some ''paint''))\<rparr>"

text \<open>
  A scene that already holds the texture \<open>wood\<close>; a serialized texture of the same editor name
  and another unique id; a world whose engine parses every serialized texture that carries a
  unique id, keeping id and editor name; in \<open>woodListWorld\<close> the manifest lists that serialized
  texture in its texture list; in \<open>woodPaintWorld\<close> the manifest has two materials, each with
  that serialized texture as its payload.
\<close>

definition woodScene :: state where
  "woodScene = emptyScene\<lparr>textures := [\<lparr>uniqueId = 3, editorName = Some ''wood''\<rparr>]\<rparr>"

definition woodSource :: texture_source where
  "woodSource = \<lparr>src_body = [], src_uniqueId = Some 9, src_editorName = Some ''wood''\<rparr>"

definition parsingWorld :: env where
  "parsingWorld =
     worldWithCache\<lparr>Texture_Parse :=
       (\<lambda>src. case src_uniqueId src of
                None \<Rightarrow> Throws
              | Some k \<Rightarrow> Returns (Some \<lparr>uniqueId = k, editorName = src_editorName src\<rparr>))\<rparr>"

definition woodListProject :: project where
  "woodListProject = bareProject\<lparr>p_textures := [''w.json'']\<rparr>"

definition woodListWorld :: env where
  "woodListWorld =
     parsingWorld\<lparr>projectFile := (\<lambda>p. Some woodListProject),
                  textureFile := (\<lambda>p. Some woodSource)\<rparr>"

definition woodPaintProject :: project where
  "woodPaintProject =
     bareProject\<lparr>p_materials :=
       [\<lparr>bindedMeshes = [], mat_json = ''m1.json'', isMultiMaterial = False\<rparr>,
        \<lparr>bindedMeshes = [], mat_json = ''m2.json'', isMultiMaterial = False\<rparr>]\<rparr>"

definition woodPaintWorld :: env where
  "woodPaintWorld =
     parsingWorld\<lparr>projectFile := (\<lambda>p. Some woodPaintProject),
                  materialFile := (\<lambda>p. Some \<lparr>mat_body = ''{}'', mat_textures = [woodSource]\<rparr>),
                  Material_Parse := (\<lambda>j. Returns (Some ''paint''))\<rparr>"

text \<open>
  A world with the material file \<open>m.json\<close>, parsed by the engine into the material \<open>paint\<close>,
  and a manifest entry binding it to the mesh \<open>A\<close> and to a mesh \<open>nope\<close>.
\<close>

definition paintWorld :: env where
  "paintWorld =
     worldWithCache\<lparr>materialFile := (\<lambda>p. Some \<lparr>mat_body = ''{}'', mat_textures = []\<rparr>),
                    Material_Parse := (\<lambda>j. Returns (Some ''paint''))\<rparr>"

definition paintEntry :: material_entry where
  "paintEntry = \<lparr>bindedMeshes = [''A'', ''nope''], mat_json = ''m.json'', isMultiMaterial = False\<rparr>"

text \<open>
  A world whose manifest lists the meshes \<open>a\<close>, \<open>x\<close>, \<open>c\<close> and the material of \<open>paintEntry\<close>.
  The file of \<open>x\<close> is missing; the files of \<open>a\<close> and \<open>c\<close> are read, hold one mesh entry and
  no LOD, and the engine loads one mesh from each, whose id is the file name it was given.
  And the same world without its cache file.
\<close>

definition meshProject :: project where
  "meshProject = bareProject\<lparr>p_meshes := [''a'', ''x'', ''c''], p_materials := [paintEntry]\<rparr>"

definition meshWorld :: env where
  "meshWorld =
     paintWorld\<lparr>projectFile := (\<lambda>p. Some meshProject),
                 meshFile := (\<lambda>p. if p = ''d//meshes/x'' then None
                                    else Some \<lparr>mf_meshes = [None], mf_lods = Some []\<rparr>),
                 ImportMeshAsync := (\<lambda>r f. Returns [freshNode f])\<rparr>"






text \<open>
  A world whose manifest lists the mesh \<open>b\<close> before the mesh \<open>a\<close>. The engine loads one mesh
  from each file, whose id is the file name it was given; the file of \<open>b\<close> names the mesh of
  \<open>a\<close> as its parent. And the same world without its cache file.
\<close>

definition familyProject :: project where
  "familyProject = bareProject\<lparr>p_meshes := [''b'', ''a'']\<rparr>"

definition familyWorld :: env where
  "familyWorld =
     worldWithCache\<lparr>projectFile := (\<lambda>p. Some familyProject),
                    meshFile := (\<lambda>p. if p = ''d//meshes/b''
                                       then Some \<lparr>mf_meshes = [Some ''meshes/a''], mf_lods = Some []\<rparr>
                                       else Some \<lparr>mf_meshes = [None], mf_lods = Some []\<rparr>),
                    ImportMeshAsync := (\<lambda>r f. Returns [freshNode f])\<rparr>"

definition orphanWorld :: env where
  "orphanWorld = familyWorld\<lparr>cacheFile := (\<lambda>p. None)\<rparr>"

text \<open>The scene of these two worlds at the end of entity loading.\<close>

definition familyScene :: state where
  "familyScene =
     emptyScene\<lparr>nodes := [(freshNode ''meshes/b'')\<lparr>waitingParentId := Some ''meshes/a''\<rparr>,
                          freshNode ''meshes/a''],
                meshes := [0, 1]\<rparr>"

text \<open>
  A world whose manifest lists the meshes \<open>a\<close> and \<open>c\<close>, with every file readable, the cache
  file included. The file of \<open>a\<close> names the mesh of \<open>a\<close> itself as its parent; the file of
  \<open>c\<close> names a parent \<open>ghost\<close> that no node has. \<open>selfScene\<close> is the scene at the end of entity
  loading.
\<close>

definition selfProject :: project where
  "selfProject = bareProject\<lparr>p_meshes := [''a'', ''c'']\<rparr>"

definition selfWorld :: env where
  "selfWorld =
     worldWithCache\<lparr>projectFile := (\<lambda>p. Some selfProject),
                    meshFile := (\<lambda>p. if p = ''d//meshes/a''
                                       then Some \<lparr>mf_meshes = [Some ''meshes/a''], mf_lods = Some []\<rparr>
                                       else Some \<lparr>mf_meshes = [Some ''ghost''], mf_lods = Some []\<rparr>),
                    ImportMeshAsync := (\<lambda>r f. Returns [freshNode f])\<rparr>"

definition selfScene :: state where
  "selfScene =
     emptyScene\<lparr>nodes := [(freshNode ''meshes/a'')\<lparr>waitingParentId := Some ''meshes/a''\<rparr>,
                          (freshNode ''meshes/c'')\<lparr>waitingParentId := Some ''ghost''\<rparr>],
                meshes := [0, 1]\<rparr>"


section \<open>Failures before the loops\<close>

lemma outcome_not_Returns [simp]: "(x \<noteq> Returns ()) = (x = Throws)"
  by (cases x) auto

lemma startImport_Throws: "(fst (startImport E path s) = Throws) = startFails E path"
  by (simp add: startImport_def startFails_def Let_def split: option.split outcome.split)

lemma startImport_Returns:
  "startImport E path s = (Returns (dir, project), s1) \<Longrightarrow>
     dir = dirname E path @ ''/'' \<and> projectFile E path = Some project"
  by (simp add: startImport_def Let_def split: option.splits outcome.splits)

lemma postProcess_Throws: "(fst (postProcess E p c s) = Throws) = postProcessFails E p c"
  by (simp add: postProcess_def postProcessFails_def split: option.split outcome.split)

lemma postProcess_result:
  "postProcess E p c s = (r, s1) \<Longrightarrow> (r = Throws) = postProcessFails E p c"
  using postProcess_Throws[of E p c s] by simp

lemma postProcesses_Throws:
  "(fst (postProcesses E project s) = Throws) =
     (postProcessFails E ''ssao'' (pp_ssao project)
      \<or> postProcessFails E ''standard'' (pp_standard project)
      \<or> postProcessFails E ''default'' (pp_default project))"
  unfolding postProcesses_def
  by (auto split: prod.splits outcome.splits dest: postProcess_result
           simp: postProcess_Throws)

lemma priv_ImportProject_start_fails:
  "startFails E path \<Longrightarrow> fst (priv_ImportProject E path s) = Throws"
  using startImport_Throws[of E path s]
  by (cases "startImport E path s") (auto simp: priv_ImportProject_def split: outcome.splits)

lemma events_RefreshEditor:
  "events (priv_RefreshEditor s) = events s @ [Assets_refresh, Graph_refresh, Overlay_Hide]"
  by (simp add: priv_RefreshEditor_def emit_def)

lemma bareWorld_startFails: "startFails bareWorld path"
  by (simp add: startFails_def bareWorld_def)

section \<open>\<^verbatim>\<open>ImportProject\<close> resolves\<close>

text \<open>
  C10. \<^verbatim>\<open>ImportProject\<close> returns normally for every world, path and state; and when
  \<^verbatim>\<open>_ImportProject\<close> rejects (whatever the cause, the unreadable manifest included), the
  state is the one the rejection left, refreshed: the assets panel is refreshed, then the graph,
  then the overlay is hidden.
\<close>

theorem ImportProject_resolves:
  "fst (ImportProject E path s) = Returns ()
   \<and> (fst (priv_ImportProject E path s) = Throws \<longrightarrow>
        snd (ImportProject E path s) = priv_RefreshEditor (snd (priv_ImportProject E path s))
        \<and> events (snd (ImportProject E path s)) =
            events (snd (priv_ImportProject E path s))
            @ [Assets_refresh, Graph_refresh, Overlay_Hide])"
  by (cases "priv_ImportProject E path s")
     (auto simp: ImportProject_def events_RefreshEditor split: outcome.splits)

theorem ImportProject_resolves_witness:
  "fst (priv_ImportProject bareWorld ''missing'' emptyScene) = Throws
   \<and> fst (ImportProject bareWorld ''missing'' emptyScene) = Returns ()
   \<and> events (snd (ImportProject bareWorld ''missing'' emptyScene)) =
       events (snd (priv_ImportProject bareWorld ''missing'' emptyScene))
       @ [Assets_refresh, Graph_refresh, Overlay_Hide]"
  using ImportProject_resolves [of bareWorld "''missing''" emptyScene]
    priv_ImportProject_start_fails [of bareWorld "''missing''" emptyScene]
    bareWorld_startFails [of "''missing''"]
  by (simp add: events_RefreshEditor)

section \<open>The small operations, field by field\<close>

lemma emit_fields [simp]:
  "events (emit e s) = events s @ [e]"
  "nodes (emit e s) = nodes s"
  "meshes (emit e s) = meshes s"
  "lights (emit e s) = lights s"
  "cameras (emit e s) = cameras s"
  "transformNodes (emit e s) = transformNodes s"
  "textures (emit e s) = textures s"
  "spinnerValue (emit e s) = spinnerValue s"
  "textureParserHooked (emit e s) = textureParserHooked s"
  by (simp_all add: emit_def)

lemma log_fields [simp]:
  "logInfo m s = emit (Console Info m) s"
  "logWarning m s = emit (Console Warning m) s"
  "logError m s = emit (Console Error m) s"
  by (simp_all add: logInfo_def logWarning_def logError_def)

lemma advanceSpinner_fields [simp]:
  "events (advanceSpinner d s) = events s @ [Overlay_SetSpinnervalue (spinnerValue s + d)]"
  "nodes (advanceSpinner d s) = nodes s"
  "meshes (advanceSpinner d s) = meshes s"
  "lights (advanceSpinner d s) = lights s"
  "cameras (advanceSpinner d s) = cameras s"
  "transformNodes (advanceSpinner d s) = transformNodes s"
  "textures (advanceSpinner d s) = textures s"
  "spinnerValue (advanceSpinner d s) = spinnerValue s + d"
  "textureParserHooked (advanceSpinner d s) = textureParserHooked s"
  by (simp_all add: advanceSpinner_def)

lemma updateNode_fields [simp]:
  "events (updateNode h f s) = events s"
  "nodes (updateNode h f s) = (nodes s)[h := f (nodes s ! h)]"
  "meshes (updateNode h f s) = meshes s"
  "lights (updateNode h f s) = lights s"
  "cameras (updateNode h f s) = cameras s"
  "transformNodes (updateNode h f s) = transformNodes s"
  "textures (updateNode h f s) = textures s"
  "spinnerValue (updateNode h f s) = spinnerValue s"
  "textureParserHooked (updateNode h f s) = textureParserHooked s"
  by (simp_all add: updateNode_def)

lemma addMeshes_fields [simp]:
  "events (addMeshes ns s) = events s"
  "nodes (addMeshes ns s) = nodes s @ ns"
  "meshes (addMeshes ns s) = meshes s @ newHandles s ns"
  "lights (addMeshes ns s) = lights s"
  "cameras (addMeshes ns s) = cameras s"
  "transformNodes (addMeshes ns s) = transformNodes s"
  "textures (addMeshes ns s) = textures s"
  "spinnerValue (addMeshes ns s) = spinnerValue s"
  "textureParserHooked (addMeshes ns s) = textureParserHooked s"
  by (simp_all add: addMeshes_def)

lemma addTransformNode_fields [simp]:
  "events (addTransformNode n s) = events s"
  "nodes (addTransformNode n s) = nodes s @ [n]"
  "meshes (addTransformNode n s) = meshes s"
  "lights (addTransformNode n s) = lights s"
  "cameras (addTransformNode n s) = cameras s"
  "transformNodes (addTransformNode n s) = transformNodes s @ [length (nodes s)]"
  "textures (addTransformNode n s) = textures s"
  "spinnerValue (addTransformNode n s) = spinnerValue s"
  "textureParserHooked (addTransformNode n s) = textureParserHooked s"
  by (simp_all add: addTransformNode_def)

lemma addLight_fields [simp]:
  "events (addLight n s) = events s"
  "nodes (addLight n s) = nodes s @ [n]"
  "meshes (addLight n s) = meshes s"
  "lights (addLight n s) = lights s @ [length (nodes s)]"
  "cameras (addLight n s) = cameras s"
  "transformNodes (addLight n s) = transformNodes s"
  "textures (addLight n s) = textures s"
  "spinnerValue (addLight n s) = spinnerValue s"
  "textureParserHooked (addLight n s) = textureParserHooked s"
  by (simp_all add: addLight_def)

lemma addCamera_fields [simp]:
  "events (addCamera n s) = events s"
  "nodes (addCamera n s) = nodes s @ [n]"
  "meshes (addCamera n s) = meshes s"
  "lights (addCamera n s) = lights s"
  "cameras (addCamera n s) = cameras s @ [length (nodes s)]"
  "transformNodes (addCamera n s) = transformNodes s"
  "textures (addCamera n s) = textures s"
  "spinnerValue (addCamera n s) = spinnerValue s"
  "textureParserHooked (addCamera n s) = textureParserHooked s"
  by (simp_all add: addCamera_def)

lemma set_newHandles [simp]:
  "set (newHandles s ns) = {length (nodes s) ..< length (nodes s) + length ns}"
  "length (newHandles s ns) = length ns"
  by (simp_all add: newHandles_def)

lemma nth_update_valid:
  "k < length xs \<Longrightarrow> (xs[h := v]) ! k = (if k = h then v else xs ! k)"
  by auto

lemma node_id_update:
  "node_id ((xs[h := v]) ! k) = (if k = h \<and> h < length xs then node_id v else node_id (xs ! k))"
  by (cases "h < length xs") (auto simp: nth_list_update list_update_beyond)


section \<open>The parent pass\<close>

lemma sameIndex_refl: "sameIndex s s"
  by (simp add: sameIndex_def)

lemma sameIndex_trans: "sameIndex s s1 \<Longrightarrow> sameIndex s1 s2 \<Longrightarrow> sameIndex s s2"
  by (simp add: sameIndex_def)

lemma sameIndex_lookups:
  assumes "sameIndex s s'"
  shows "getNodeByID s' = getNodeByID s" and "getTransformNodeByID s' = getTransformNodeByID s"
    and "getMeshByID s' = getMeshByID s"
  using assms
  by (auto simp: sameIndex_def getNodeByID_def getTransformNodeByID_def getMeshByID_def
        getLightByID_def getCameraByID_def fun_eq_iff)

lemma linked_cong: "sameIndex s s' \<Longrightarrow> linked s' = linked s"
  using sameIndex_lookups(1,2)[of s s']
  by (simp add: linked_def fun_eq_iff split: option.splits)

lemma linked_idem: "linked s (linked s n) = linked s n"
  by (simp add: linked_def split: option.splits)

lemma node_id_linked: "node_id (linked s n) = node_id n"
  by (simp add: linked_def split: option.splits)


lemma sceneOf_sameIndex: "sceneOf t = sceneOf s \<Longrightarrow> sameIndex s t"
  by (simp add: sceneOf_def sameIndex_def)

lemma sceneOf_lookups:
  assumes "sceneOf t = sceneOf s"
  shows "getNodeByID t = getNodeByID s" and "getTransformNodeByID t = getTransformNodeByID s"
    and "getMeshByID t = getMeshByID s"
  using sameIndex_lookups[OF sceneOf_sameIndex[OF assms]] by simp_all

text \<open>The setter writes the parent, whether it throws or not, and nothing else.\<close>

lemma setParent_state:
  "snd (setParent h p s) = s\<lparr>nodes := (nodes s)[h := (nodes s ! h)\<lparr>parent := p\<rparr>]\<rparr>"
proof (cases "parent (nodes s ! h) = p")
  case True
  then have "(nodes s ! h)\<lparr>parent := p\<rparr> = nodes s ! h" by auto
  then have "(nodes s)[h := (nodes s ! h)\<lparr>parent := p\<rparr>] = nodes s" by simp
  then have "s\<lparr>nodes := (nodes s)[h := (nodes s ! h)\<lparr>parent := p\<rparr>]\<rparr> = s" by simp
  then show ?thesis using True by (simp add: setParent_def)
next
  case False
  then show ?thesis by (simp add: setParent_def Let_def updateNode_def)
qed

lemma setParent_result:
  "setParent h p s = (r, s1) \<Longrightarrow> s1 = s\<lparr>nodes := (nodes s)[h := (nodes s ! h)\<lparr>parent := p\<rparr>]\<rparr>"
  using setParent_state[of h p s] by simp

lemma update_twice:
  "(xs[h := v])[h := f ((xs[h := v]) ! h)] = xs[h := (if h < length xs then f v else f (xs ! h))]"
  by (cases "h < length xs") (simp_all add: list_update_beyond)

text \<open>
  What \<^verbatim>\<open>_SetWaitingParent\<close> leaves: the node linked when it returns, the node with its
  new parent and its waiting parent id when it throws.
\<close>

lemma SetWaitingParent_Returns:
  assumes "priv_SetWaitingParent h s = (Returns u, s1)"
  shows "s1 = s\<lparr>nodes := (nodes s)[h := linked s (nodes s ! h)]\<rparr>"
proof (cases "waitingParentId (nodes s ! h)")
  case None
  then have "linked s (nodes s ! h) = nodes s ! h" by (simp add: linked_def)
  with assms None show ?thesis by (simp add: priv_SetWaitingParent_def)
next
  case (Some w)
  show ?thesis
  proof (cases "w = []")
    case True
    then have "linked s (nodes s ! h) = nodes s ! h" using Some by (simp add: linked_def)
    with assms Some True show ?thesis by (simp add: priv_SetWaitingParent_def)
  next
    case False
    let ?p = "orElse (getNodeByID s w) (getTransformNodeByID s w)"
    obtain r s2 where sp: "setParent h ?p s = (r, s2)" by (cases "setParent h ?p s")
    from setParent_result[OF sp]
    have s2: "s2 = s\<lparr>nodes := (nodes s)[h := (nodes s ! h)\<lparr>parent := ?p\<rparr>]\<rparr>" .
    from assms Some False sp have r: "r = Returns ()"
      and s1: "s1 = updateNode h (\<lambda>n. n\<lparr>waitingParentId := None\<rparr>) s2"
      by (auto simp: priv_SetWaitingParent_def split: outcome.splits)
    have lk: "linked s (nodes s ! h) = (nodes s ! h)\<lparr>parent := ?p, waitingParentId := None\<rparr>"
      using Some False by (simp add: linked_def)
    show ?thesis
      unfolding s1 s2 lk
      by (cases "h < length (nodes s)") (simp_all add: updateNode_def list_update_beyond)
  qed
qed

lemma SetWaitingParent_state:
  "\<exists>n. snd (priv_SetWaitingParent h s) = s\<lparr>nodes := (nodes s)[h := n]\<rparr>
       \<and> node_id n = node_id (nodes s ! h)"
proof (cases "priv_SetWaitingParent h s")
  case (Pair r s1)
  show ?thesis
  proof (cases r)
    case (Returns u)
    with Pair SetWaitingParent_Returns[of h s u s1] show ?thesis
      by (auto simp: node_id_linked)
  next
    case Throws
    from Pair Throws obtain w where w: "waitingParentId (nodes s ! h) = Some w" "w \<noteq> []"
      by (auto simp: priv_SetWaitingParent_def split: option.splits if_splits)
    let ?p = "orElse (getNodeByID s w) (getTransformNodeByID s w)"
    obtain r2 s2 where sp: "setParent h ?p s = (r2, s2)" by (cases "setParent h ?p s")
    from Pair Throws w sp have "s1 = s2"
      by (auto simp: priv_SetWaitingParent_def split: outcome.splits)
    with setParent_result[OF sp] Pair show ?thesis by auto
  qed
qed

lemma SetWaitingParent_sameIndex: "sameIndex s (snd (priv_SetWaitingParent h s))"
proof -
  obtain n where "snd (priv_SetWaitingParent h s) = s\<lparr>nodes := (nodes s)[h := n]\<rparr>"
    "node_id n = node_id (nodes s ! h)"
    using SetWaitingParent_state by blast
  then show ?thesis by (simp add: sameIndex_def node_id_update)
qed

lemma sameIndex_result: "priv_SetWaitingParent h s = (r, s1) \<Longrightarrow> sameIndex s s1"
  using SetWaitingParent_sameIndex[of s h] by simp

text \<open>One \<^verbatim>\<open>forEach\<close> of the pass, whether it throws or not, changes only the store.\<close>

lemma forEach_state:
  "sameIndex s (snd (forEachNode priv_SetWaitingParent hs s))
   \<and> (\<exists>ns. snd (forEachNode priv_SetWaitingParent hs s) = s\<lparr>nodes := ns\<rparr>)"
proof (induction hs arbitrary: s)
  case Nil
  show ?case by (auto simp: sameIndex_refl intro: exI[of _ "nodes s"])
next
  case (Cons h hs)
  obtain r s1 where st: "priv_SetWaitingParent h s = (r, s1)"
    by (cases "priv_SetWaitingParent h s")
  have si: "sameIndex s s1" by (rule sameIndex_result[OF st])
  obtain n where s1: "s1 = s\<lparr>nodes := (nodes s)[h := n]\<rparr>"
    using SetWaitingParent_state[of h s] st by auto
  show ?case
  proof (cases r)
    case Throws
    with st si s1 show ?thesis by auto
  next
    case (Returns u)
    from Cons.IH[of s1] obtain ns where ih: "sameIndex s1 (snd (forEachNode priv_SetWaitingParent hs s1))"
      "snd (forEachNode priv_SetWaitingParent hs s1) = s1\<lparr>nodes := ns\<rparr>" by blast
    have "snd (forEachNode priv_SetWaitingParent (h # hs) s) = s\<lparr>nodes := ns\<rparr>"
      using st Returns ih(2) s1 by simp
    moreover have "sameIndex s (snd (forEachNode priv_SetWaitingParent (h # hs) s))"
      using st Returns sameIndex_trans[OF si ih(1)] by simp
    ultimately show ?thesis by blast
  qed
qed

text \<open>A \<^verbatim>\<open>forEach\<close> of the pass that returns has linked exactly the nodes of its list.\<close>

lemma forEach_Returns:
  "forEachNode priv_SetWaitingParent hs s = (Returns u, s') \<Longrightarrow>
     nodes s' = map (\<lambda>k. if k \<in> set hs then linked s (nodes s ! k) else nodes s ! k)
                    [0..<length (nodes s)]"
proof (induction hs arbitrary: s)
  case Nil
  then show ?case by (simp add: map_nth)
next
  case (Cons h hs)
  obtain r s1 where st: "priv_SetWaitingParent h s = (r, s1)"
    by (cases "priv_SetWaitingParent h s")
  from Cons.prems st have r: "r = Returns ()"
    and rest: "forEachNode priv_SetWaitingParent hs s1 = (Returns u, s')"
    by (auto split: outcome.splits)
  from SetWaitingParent_Returns[OF st[unfolded r]]
  have n1: "nodes s1 = (nodes s)[h := linked s (nodes s ! h)]" by simp
  have si: "sameIndex s s1" by (rule sameIndex_result[OF st])
  have lk: "linked s1 = linked s" by (rule linked_cong[OF si])
  have len: "length (nodes s1) = length (nodes s)" using si by (simp add: sameIndex_def)
  note ih = Cons.IH[OF rest, unfolded lk len]
  show ?case
    unfolding ih
    by (rule map_cong) (auto simp: n1 nth_update_valid linked_idem)
qed

lemma forEach_append:
  "forEachNode f (xs @ ys) s =
     (case forEachNode f xs s of
        (Throws, s1) \<Rightarrow> (Throws, s1)
      | (Returns u, s1) \<Rightarrow> forEachNode f ys s1)"
  by (induction xs arbitrary: s) (auto split: prod.splits outcome.splits)

text \<open>The four loops of the pass are one loop over the four lists, one after the other.\<close>

lemma linkParents_forEach: "linkParents s = forEachNode priv_SetWaitingParent (sceneNodes s) s"
proof -
  let ?f = "forEachNode priv_SetWaitingParent"
  have keep: "\<And>hs r s1. ?f hs s = (r, s1) \<Longrightarrow> sameIndex s s1"
    using forEach_state by (metis snd_conv)
  obtain r1 s1 where a: "?f (meshes s) s = (r1, s1)" by (cases "?f (meshes s) s")
  have i1: "sameIndex s s1" by (rule keep[OF a])
  obtain r2 s2 where b: "?f (lights s) s1 = (r2, s2)" by (cases "?f (lights s) s1")
  have i2: "sameIndex s1 s2" using forEach_state[of s1 "lights s"] b by simp
  obtain r3 s3 where c: "?f (cameras s) s2 = (r3, s3)" by (cases "?f (cameras s) s2")
  have i3: "sameIndex s2 s3" using forEach_state[of s2 "cameras s"] c by simp
  have l1: "lights s1 = lights s" using i1 by (simp add: sameIndex_def)
  have l2: "cameras s2 = cameras s" using i1 i2 by (simp add: sameIndex_def)
  have l3: "transformNodes s3 = transformNodes s" using i1 i2 i3 by (simp add: sameIndex_def)
  show ?thesis
    unfolding linkParents_def sceneNodes_def forEach_append
    using a b c l1 l2 l3
    by (cases r1; cases r2; cases r3) (simp_all add: l1 l2 l3)
qed

lemma linkParents_sameIndex: "sameIndex s (snd (linkParents s))"
  unfolding linkParents_forEach using forEach_state by blast

lemma linkParents_only_nodes: "snd (linkParents s) = s\<lparr>nodes := nodes (snd (linkParents s))\<rparr>"
proof -
  obtain ns where "snd (linkParents s) = s\<lparr>nodes := ns\<rparr>"
    unfolding linkParents_forEach using forEach_state by blast
  then show ?thesis by simp
qed

lemma linkParents_Returns:
  "linkParents s = (Returns u, s') \<Longrightarrow>
     nodes s' = map (\<lambda>k. if k \<in> set (sceneNodes s) then linked s (nodes s ! k) else nodes s ! k)
                    [0..<length (nodes s)]"
  unfolding linkParents_forEach by (rule forEach_Returns)

lemma linkParents_node:
  "linkParents s = (Returns u, s') \<Longrightarrow> h \<in> set (sceneNodes s) \<Longrightarrow> h < length (nodes s) \<Longrightarrow>
     nodes s' ! h = linked s (nodes s ! h)"
  by (simp add: linkParents_Returns)

text \<open>The pass reads the scene only: two states with the same scene fare alike.\<close>

lemma sceneOf_update: "sceneOf t = sceneOf s \<Longrightarrow> sceneOf (updateNode h f t) = sceneOf (updateNode h f s)"
  by (simp add: sceneOf_def updateNode_def)

lemma setParent_cong:
  assumes "sceneOf t = sceneOf s"
  shows "fst (setParent h p t) = fst (setParent h p s)
     \<and> sceneOf (snd (setParent h p t)) = sceneOf (snd (setParent h p s))"
proof -
  have n: "nodes t = nodes s" using assms by (simp add: sceneOf_def)
  show ?thesis
    using sceneOf_update[OF assms, of h "\<lambda>n. n\<lparr>parent := p\<rparr>"] assms
    by (simp add: setParent_def Let_def n)
qed

lemma SetWaitingParent_cong:
  assumes "sceneOf t = sceneOf s"
  shows "fst (priv_SetWaitingParent h t) = fst (priv_SetWaitingParent h s)
     \<and> sceneOf (snd (priv_SetWaitingParent h t)) = sceneOf (snd (priv_SetWaitingParent h s))"
proof (cases "waitingParentId (nodes s ! h)")
  case None
  then show ?thesis using assms by (simp add: priv_SetWaitingParent_def sceneOf_def)
next
  case (Some w)
  have n: "nodes t = nodes s" using assms by (simp add: sceneOf_def)
  show ?thesis
  proof (cases "w = []")
    case True
    with Some show ?thesis using assms n by (simp add: priv_SetWaitingParent_def)
  next
    case False
    let ?p = "orElse (getNodeByID s w) (getTransformNodeByID s w)"
    obtain r1 t1 where a: "setParent h ?p t = (r1, t1)" by (cases "setParent h ?p t")
    obtain r2 s1 where b: "setParent h ?p s = (r2, s1)" by (cases "setParent h ?p s")
    from setParent_cong[OF assms, of h ?p] a b
    have r: "r1 = r2" and sc: "sceneOf t1 = sceneOf s1" by simp_all
    have "priv_SetWaitingParent h t =
        (case r1 of Throws \<Rightarrow> (Throws, t1)
         | Returns u \<Rightarrow> (Returns (), updateNode h (\<lambda>n. n\<lparr>waitingParentId := None\<rparr>) t1))"
      using Some False a n sceneOf_lookups(1,2)[OF assms]
      by (simp add: priv_SetWaitingParent_def split: outcome.splits)
    moreover have "priv_SetWaitingParent h s =
        (case r2 of Throws \<Rightarrow> (Throws, s1)
         | Returns u \<Rightarrow> (Returns (), updateNode h (\<lambda>n. n\<lparr>waitingParentId := None\<rparr>) s1))"
      using Some False b by (simp add: priv_SetWaitingParent_def split: outcome.splits)
    ultimately show ?thesis
      using r sc sceneOf_update[OF sc] by (cases r2) simp_all
  qed
qed

lemma forEach_cong:
  "sceneOf t = sceneOf s \<Longrightarrow>
     fst (forEachNode priv_SetWaitingParent hs t) = fst (forEachNode priv_SetWaitingParent hs s)
     \<and> sceneOf (snd (forEachNode priv_SetWaitingParent hs t))
         = sceneOf (snd (forEachNode priv_SetWaitingParent hs s))"
proof (induction hs arbitrary: s t)
  case Nil
  then show ?case by simp
next
  case (Cons h hs)
  obtain r1 t1 where a: "priv_SetWaitingParent h t = (r1, t1)"
    by (cases "priv_SetWaitingParent h t")
  obtain r2 s1 where b: "priv_SetWaitingParent h s = (r2, s1)"
    by (cases "priv_SetWaitingParent h s")
  from SetWaitingParent_cong[OF Cons.prems, of h] a b
  have r: "r1 = r2" and sc: "sceneOf t1 = sceneOf s1" by simp_all
  show ?case using a b r sc Cons.IH[OF sc] by (cases r2) simp_all
qed

lemma linkParents_cong:
  assumes "sceneOf t = sceneOf s"
  shows "fst (linkParents t) = fst (linkParents s)"
    and "sceneOf (snd (linkParents t)) = sceneOf (snd (linkParents s))"
proof -
  have sn: "sceneNodes t = sceneNodes s" using assms by (simp add: sceneOf_def sceneNodes_def)
  show "fst (linkParents t) = fst (linkParents s)"
    and "sceneOf (snd (linkParents t)) = sceneOf (snd (linkParents s))"
    unfolding linkParents_forEach sn using forEach_cong[OF assms] by simp_all
qed

text \<open>A parent that is not there closes no cycle: the assignment of no parent never throws.\<close>

lemma climbs_no_parent:
  "\<not> h < length ns \<or> parent (ns ! h) = None \<Longrightarrow> \<not> climbs ns fuel h h"
  by (cases fuel) auto

lemma setParent_None: "fst (setParent h None s) = Returns ()"
proof (cases "parent (nodes s ! h) = None")
  case True
  then show ?thesis by (simp add: setParent_def)
next
  case False
  let ?ns = "(nodes s)[h := (nodes s ! h)\<lparr>parent := None\<rparr>]"
  have "\<not> h < length ?ns \<or> parent (?ns ! h) = None" by auto
  from climbs_no_parent[OF this] have "\<not> closesCycle ?ns h" by (simp add: closesCycle_def)
  with False show ?thesis by (simp add: setParent_def Let_def)
qed

lemma SetWaitingParent_dangling:
  "dangling s (nodes s ! h) \<Longrightarrow> fst (priv_SetWaitingParent h s) = Returns ()"
proof -
  assume d: "dangling s (nodes s ! h)"
  show ?thesis
  proof (cases "waitingParentId (nodes s ! h)")
    case None
    then show ?thesis by (simp add: priv_SetWaitingParent_def)
  next
    case (Some w)
    show ?thesis
    proof (cases "w = []")
      case True
      with Some show ?thesis by (simp add: priv_SetWaitingParent_def)
    next
      case False
      with d Some have "orElse (getNodeByID s w) (getTransformNodeByID s w) = None"
        by (simp add: dangling_def orElse_def)
      with Some False setParent_None[of h s] show ?thesis
        by (cases "setParent h None s") (simp add: priv_SetWaitingParent_def split: outcome.splits)
    qed
  qed
qed

lemma dangling_cong: "sameIndex s s' \<Longrightarrow> dangling s' = dangling s"
  using sameIndex_lookups(1,2)[of s s']
  by (simp add: dangling_def fun_eq_iff split: option.splits)

lemma dangling_linked: "dangling s (linked s n)"
  by (simp add: dangling_def linked_def split: option.splits)

lemma forEach_dangling:
  "\<forall>h \<in> set hs. dangling s (nodes s ! h) \<Longrightarrow>
     fst (forEachNode priv_SetWaitingParent hs s) = Returns ()"
proof (induction hs arbitrary: s)
  case Nil
  show ?case by simp
next
  case (Cons h hs)
  obtain r s1 where st: "priv_SetWaitingParent h s = (r, s1)"
    by (cases "priv_SetWaitingParent h s")
  have r: "r = Returns ()"
    using SetWaitingParent_dangling[of s h] Cons.prems st by simp
  from SetWaitingParent_Returns[OF st[unfolded r]]
  have n1: "nodes s1 = (nodes s)[h := linked s (nodes s ! h)]" by simp
  have si: "sameIndex s s1" by (rule sameIndex_result[OF st])
  have "\<forall>k \<in> set hs. dangling s1 (nodes s1 ! k)"
  proof
    fix k assume k: "k \<in> set hs"
    have "nodes s1 ! k = linked s (nodes s ! h) \<or> nodes s1 ! k = nodes s ! k"
      unfolding n1 by (cases "k = h"; cases "h < length (nodes s)")
        (simp_all add: list_update_beyond)
    then show "dangling s1 (nodes s1 ! k)"
      using Cons.prems k dangling_linked[of s] by (auto simp: dangling_cong[OF si])
  qed
  from Cons.IH[OF this] st r show ?case by simp
qed

lemma linkParents_dangling: "allDangling s \<Longrightarrow> fst (linkParents s) = Returns ()"
  unfolding linkParents_forEach allDangling_def list_all_iff by (rule forEach_dangling)

text \<open>
  The lookup among the generic nodes covers the transform nodes: the second lookup of
  \<^verbatim>\<open>_SetWaitingParent\<close> never finds a node the first has missed.
\<close>

lemma fallback_never_decides:
  "getNodeByID s w = None \<Longrightarrow> getTransformNodeByID s w = None"
  by (simp add: getNodeByID_def orElse_def split: option.splits)


section \<open>Every step of the import evolves the state\<close>

lemma scene_wf_iff: "scene_wf s = (\<forall>h \<in> set (sceneNodes s). h < length (nodes s))"
  by (simp add: scene_wf_def list_all_iff)

lemma evolves_refl [simp]: "evolves s s"
  by (simp add: evolves_def)

lemma evolves_trans:
  assumes "evolves s s1" and "evolves s1 s2"
  shows "evolves s s2"
proof -
  from assms obtain t1 t2 x1 x2 where e: "events s1 = events s @ t1" "events s2 = events s1 @ t2"
    "textures s1 = textures s @ x1" "textures s2 = textures s1 @ x2"
    by (auto simp: evolves_def)
  have ev: "\<exists>tr. events s2 = events s @ tr" using e by simp
  have tx: "\<exists>tx. textures s2 = textures s @ tx" using e by simp
  have len: "length (nodes s) \<le> length (nodes s1)" "length (nodes s1) \<le> length (nodes s2)"
    using assms by (simp_all add: evolves_def)
  have ids: "\<forall>k<length (nodes s). node_id (nodes s2 ! k) = node_id (nodes s ! k)"
  proof (intro allI impI)
    fix k assume k: "k < length (nodes s)"
    then have "k < length (nodes s1)" using len by simp
    then have "node_id (nodes s2 ! k) = node_id (nodes s1 ! k)" using assms(2) by (simp add: evolves_def)
    also have "\<dots> = node_id (nodes s ! k)" using assms(1) k by (simp add: evolves_def)
    finally show "node_id (nodes s2 ! k) = node_id (nodes s ! k)" .
  qed
  have ms: "set (meshes s) \<subseteq> set (meshes s2)" using assms by (auto simp: evolves_def)
  show ?thesis
    unfolding evolves_def using ev tx len ids ms assms by (simp add: evolves_def)
qed

lemma evolves_step:
  assumes "\<exists>tr. events s' = events s @ tr" and "\<exists>tx. textures s' = textures s @ tx"
    and "\<exists>ns. nodes s' = nodes s @ ns" and "\<exists>ms. meshes s' = meshes s @ ms"
    and "set (sceneNodes s') \<subseteq> set (sceneNodes s) \<union> {length (nodes s) ..< length (nodes s')}"
    and "textureParserHooked s \<longrightarrow> textureParserHooked s'"
  shows "evolves s s'"
proof -
  from assms(3) obtain ns where ns: "nodes s' = nodes s @ ns" by blast
  from assms(4) obtain ms where ms: "meshes s' = meshes s @ ms" by blast
  have wf: "scene_wf s \<longrightarrow> scene_wf s'"
    using assms(5) ns unfolding scene_wf_iff by fastforce
  show ?thesis
    unfolding evolves_def using assms(1,2,6) wf ns ms by (simp add: nth_append)
qed

lemma evolves_emit1: "evolves s (emit e s)"
  by (rule evolves_step) (simp_all add: sceneNodes_def)

lemma evolves_advanceSpinner1: "evolves s (advanceSpinner d s)"
  by (rule evolves_step) (simp_all add: sceneNodes_def)

lemma evolves_addMeshes1: "evolves s (addMeshes ns s)"
  by (rule evolves_step) (auto simp: sceneNodes_def)

lemma evolves_addTransformNode1: "evolves s (addTransformNode n s)"
  by (rule evolves_step) (auto simp: sceneNodes_def)

lemma evolves_addLight1: "evolves s (addLight n s)"
  by (rule evolves_step) (auto simp: sceneNodes_def)

lemma evolves_addCamera1: "evolves s (addCamera n s)"
  by (rule evolves_step) (auto simp: sceneNodes_def)

lemma evolves_nodes:
  assumes "length ns = length (nodes s)" and "\<forall>k. node_id (ns ! k) = node_id (nodes s ! k)"
  shows "evolves s (s\<lparr>nodes := ns\<rparr>)"
  using assms by (simp add: evolves_def scene_wf_iff sceneNodes_def)

lemma evolves_updateNode1:
  assumes "\<And>n. node_id (f n) = node_id n"
  shows "evolves s (updateNode h f s)"
  unfolding updateNode_def
  by (rule evolves_nodes) (simp_all add: node_id_update assms)

lemma evolves_emit: "evolves s s1 \<Longrightarrow> evolves s (emit e s1)"
  by (rule evolves_trans[OF _ evolves_emit1])

lemma evolves_advanceSpinner: "evolves s s1 \<Longrightarrow> evolves s (advanceSpinner d s1)"
  by (rule evolves_trans[OF _ evolves_advanceSpinner1])

lemma evolves_updateNode:
  "(\<And>n. node_id (f n) = node_id n) \<Longrightarrow> evolves s s1 \<Longrightarrow> evolves s (updateNode h f s1)"
  by (rule evolves_trans[OF _ evolves_updateNode1])

lemma evolves_addMeshes: "evolves s s1 \<Longrightarrow> evolves s (addMeshes ns s1)"
  by (rule evolves_trans[OF _ evolves_addMeshes1])

lemma evolves_addTransformNode: "evolves s s1 \<Longrightarrow> evolves s (addTransformNode n s1)"
  by (rule evolves_trans[OF _ evolves_addTransformNode1])

lemma evolves_addLight: "evolves s s1 \<Longrightarrow> evolves s (addLight n s1)"
  by (rule evolves_trans[OF _ evolves_addLight1])

lemma evolves_addCamera: "evolves s s1 \<Longrightarrow> evolves s (addCamera n s1)"
  by (rule evolves_trans[OF _ evolves_addCamera1])

lemma evolves_other_fields1:
  "evolves s1 (s1\<lparr>materials := a\<rparr>)"
  "evolves s1 (s1\<lparr>textures := textures s1 @ b\<rparr>)"
  "evolves s1 (s1\<lparr>shadowGenerators := c\<rparr>)"
  "evolves s1 (s1\<lparr>enabledPipelines := d\<rparr>)"
  "evolves s1 (s1\<lparr>cachedData := e\<rparr>)"
  "evolves s1 (s1\<lparr>readyObservers := f\<rparr>)"
  "evolves s1 (s1\<lparr>spinnerValue := g\<rparr>)"
  "evolves s1 (s1\<lparr>FilesStore_List := i\<rparr>)"
  "evolves s1 (s1\<lparr>MeshesAssets_Meshes := j\<rparr>)"
  "evolves s1 (s1\<lparr>PrefabAssets_Prefabs := k\<rparr>)"
  "evolves s1 (s1\<lparr>Project_Path := l\<rparr>)"
  "evolves s1 (s1\<lparr>Project_DirPath := m\<rparr>)"
  "evolves s1 (s1\<lparr>textureParserHooked := True\<rparr>)"
  by (simp_all add: evolves_def scene_wf_iff sceneNodes_def)

lemma evolves_other_fields:
  "evolves s s1 \<Longrightarrow> evolves s (s1\<lparr>materials := a\<rparr>)"
  "evolves s s1 \<Longrightarrow> evolves s (s1\<lparr>textures := textures s1 @ b\<rparr>)"
  "evolves s s1 \<Longrightarrow> evolves s (s1\<lparr>shadowGenerators := c\<rparr>)"
  "evolves s s1 \<Longrightarrow> evolves s (s1\<lparr>enabledPipelines := d\<rparr>)"
  "evolves s s1 \<Longrightarrow> evolves s (s1\<lparr>cachedData := e\<rparr>)"
  "evolves s s1 \<Longrightarrow> evolves s (s1\<lparr>readyObservers := f\<rparr>)"
  "evolves s s1 \<Longrightarrow> evolves s (s1\<lparr>spinnerValue := g\<rparr>)"
  "evolves s s1 \<Longrightarrow> evolves s (s1\<lparr>FilesStore_List := i\<rparr>)"
  "evolves s s1 \<Longrightarrow> evolves s (s1\<lparr>MeshesAssets_Meshes := j\<rparr>)"
  "evolves s s1 \<Longrightarrow> evolves s (s1\<lparr>PrefabAssets_Prefabs := k\<rparr>)"
  "evolves s s1 \<Longrightarrow> evolves s (s1\<lparr>Project_Path := l\<rparr>)"
  "evolves s s1 \<Longrightarrow> evolves s (s1\<lparr>Project_DirPath := m\<rparr>)"
  "evolves s s1 \<Longrightarrow> evolves s (s1\<lparr>textureParserHooked := True\<rparr>)"
  by (erule evolves_trans, rule evolves_other_fields1)+

lemmas evolves_intros =
  evolves_emit evolves_advanceSpinner evolves_updateNode evolves_addMeshes
  evolves_addTransformNode evolves_addLight evolves_addCamera evolves_other_fields

lemma evolves_setWaitingIds: "evolves s (snd (setWaitingIds hs ps s))"
proof (induction hs ps s rule: setWaitingIds.induct)
  case (3 h hs p ps s)
  have "evolves s (updateNode h (\<lambda>n. n\<lparr>waitingParentId := p\<rparr>) s)"
    by (rule evolves_updateNode1) simp
  with 3 show ?case by (auto intro: evolves_trans)
qed simp_all

lemma evolves_lodBody: "evolves s (snd (lodBody E name hs l s))"
  unfolding lodBody_def Let_def
  by (auto split: outcome.split list.split option.split intro!: evolves_intros)

lemma evolves_importLods: "evolves s (snd (importLods E name hs ls s))"
proof (induction ls arbitrary: s)
  case Nil
  show ?case by simp
next
  case (Cons l ls)
  obtain r s1 where b: "lodBody E name hs l s = (r, s1)" by (cases "lodBody E name hs l s")
  have e1: "evolves s s1" using evolves_lodBody[of s E name hs l] b by simp
  show ?case
  proof (cases r)
    case (Returns u)
    with b e1 Cons.IH[of s1] show ?thesis by (auto intro: evolves_trans)
  next
    case Throws
    show ?thesis
    proof (cases hs)
      case Nil
      with b Throws e1 show ?thesis by simp
    next
      case (Cons h hs')
      have "evolves s (logError (FailedLOD (node_name (nodes s1 ! h))) s1)"
        using e1 by (auto intro!: evolves_intros)
      with b Throws Cons Cons.IH[of "logError (FailedLOD (node_name (nodes s1 ! h))) s1"]
      show ?thesis by (auto intro: evolves_trans)
    qed
  qed
qed

lemma evolves_ImportMesh: "evolves s (snd (ImportMesh E name json rootUrl filename s))"
proof (cases "ImportMeshAsync E rootUrl filename")
  case Throws
  then show ?thesis by (simp add: ImportMesh_def)
next
  case (Returns loaded)
  let ?s1 = "logInfo (ParsedMesh name) (addMeshes loaded s)"
  let ?hs = "newHandles s loaded"
  have e1: "evolves s ?s1" by (auto intro!: evolves_intros)
  obtain r s2 where w: "setWaitingIds ?hs (mf_meshes json) ?s1 = (r, s2)"
    by (cases "setWaitingIds ?hs (mf_meshes json) ?s1")
  have e2: "evolves s s2"
    using evolves_setWaitingIds[of ?s1 ?hs "mf_meshes json"] w e1 by (auto intro: evolves_trans)
  have e3: "\<And>ls. evolves s (snd (importLods E name ?hs ls s2))"
    using e2 evolves_importLods by (blast intro: evolves_trans)
  show ?thesis
    using Returns w e2 e3
    by (auto simp: ImportMesh_def Let_def split: outcome.split option.split)
qed

lemma evolves_meshStep: "evolves s (meshStep E dir d m s)"
proof -
  have "evolves s (snd (meshBody E dir m s))"
    by (auto simp: meshBody_def evolves_ImportMesh split: option.split)
  then show ?thesis
    by (cases "meshBody E dir m s")
       (auto simp: meshStep_def split: outcome.split intro!: evolves_intros)
qed

lemma evolves_loadMeshes: "evolves s (loadMeshes E dir d ms s)"
proof (induction ms arbitrary: s)
  case (Cons m ms)
  show ?case using evolves_trans[OF evolves_meshStep Cons.IH] by simp
qed simp

lemma evolves_transformStep: "evolves s (transformStep E dir t s)"
  by (auto simp: transformStep_def transformBody_def split: option.split outcome.split
        intro!: evolves_intros)

lemma evolves_loadTransformNodes: "evolves s (loadTransformNodes E dir ts s)"
proof (induction ts arbitrary: s)
  case (Cons t ts)
  show ?case using evolves_trans[OF evolves_transformStep Cons.IH] by simp
qed simp

lemma evolves_impostorStep: "evolves s (impostorStep g h s)"
  by (auto simp: impostorStep_def split: outcome.split intro!: evolves_intros)

lemma evolves_fold_impostorStep: "evolves s (fold (impostorStep g) hs s)"
proof (induction hs arbitrary: s)
  case (Cons h hs)
  show ?case using evolves_trans[OF evolves_impostorStep Cons.IH] by simp
qed simp

lemma evolves_retrieveImpostors: "evolves s (retrieveImpostors E s)"
  by (simp add: retrieveImpostors_def evolves_fold_impostorStep split: option.split)

lemma evolves_bindMesh: "evolves s (bindMesh mat mj bm s)"
  by (auto simp: bindMesh_def split: option.split intro!: evolves_intros)

lemma evolves_bindMeshes: "evolves s (bindMeshes mat mj bms s)"
proof (induction bms arbitrary: s)
  case (Cons bm bms)
  show ?case using evolves_trans[OF evolves_bindMesh Cons.IH] by simp
qed simp

lemma evolves_parseTexture: "evolves s (snd (parseTexture E src s))"
  by (auto simp: parseTexture_def split: outcome.split option.split intro!: evolves_intros)

lemma evolves_parseTexture_result: "parseTexture E src s = (r, s1) \<Longrightarrow> evolves s s1"
  using evolves_parseTexture[of s E src] by simp

lemma evolves_TextureParser: "evolves s (snd (SerializationHelper_TextureParser E src s))"
  by (simp add: SerializationHelper_TextureParser_def hookedTextureParser_def evolves_parseTexture
        split: option.split)

lemma evolves_parsePayloadTextures: "evolves s (snd (parsePayloadTextures E srcs s))"
proof (induction srcs arbitrary: s)
  case Nil
  show ?case by simp
next
  case (Cons src srcs)
  obtain r s1 where p: "SerializationHelper_TextureParser E src s = (r, s1)"
    by (cases "SerializationHelper_TextureParser E src s")
  have e1: "evolves s s1" using evolves_TextureParser[of s E src] p by simp
  show ?case using p e1 evolves_trans[OF e1 Cons.IH[of s1]] by (cases r) simp_all
qed

lemma evolves_installMaterial: "evolves s (snd (installMaterial created s))"
  by (cases created) (simp_all add: installMaterial_def evolves_other_fields1)

lemma evolves_parseMaterial: "evolves s (snd (parseMaterial E m json s))"
proof -
  have a: "\<And>created. evolves s (snd (installMaterial created s))"
    by (rule evolves_installMaterial)
  have b: "\<And>created srcs.
      evolves s (snd (parsePayloadTextures E srcs (snd (installMaterial created s))))"
    by (rule evolves_trans[OF evolves_installMaterial evolves_parsePayloadTextures])
  show ?thesis
  proof (cases "isMultiMaterial m")
    case True
    then show ?thesis using a
      by (auto simp: parseMaterial_def split: outcome.split prod.split)
         (metis snd_conv)
  next
    case False
    show ?thesis
    proof (cases "Material_Parse E json")
      case Throws
      with False show ?thesis by (simp add: parseMaterial_def)
    next
      case (Returns created)
      show ?thesis
      proof (cases created)
        case None
        with False Returns show ?thesis by (simp add: parseMaterial_def)
      next
        case (Some body)
        obtain mat s1 where im: "installMaterial (Some body) s = (mat, s1)"
          by (cases "installMaterial (Some body) s")
        obtain r s2 where pp: "parsePayloadTextures E (mat_textures json) s1 = (r, s2)"
          by (cases "parsePayloadTextures E (mat_textures json) s1")
        have "evolves s s2" using b[of "mat_textures json" "Some body"] im pp by simp
        then show ?thesis using False Returns Some im pp
          by (cases r) (simp_all add: parseMaterial_def)
      qed
    qed
  qed
qed

lemma evolves_parseMaterial_result: "parseMaterial E m json s = (r, s1) \<Longrightarrow> evolves s s1"
  using evolves_parseMaterial[of s E m json] by simp

lemma evolves_materialStep: "evolves s (materialStep E dir d m s)"
proof -
  have "evolves s (snd (materialBody E dir m s))"
    by (auto simp: materialBody_def split: option.split outcome.split prod.split
          intro!: evolves_trans[OF _ evolves_bindMeshes] evolves_intros
          intro: evolves_parseMaterial_result)
  then show ?thesis
    by (cases "materialBody E dir m s")
       (auto simp: materialStep_def split: outcome.split intro!: evolves_intros)
qed

lemma evolves_loadMaterials: "evolves s (loadMaterials E dir d ms s)"
proof (induction ms arbitrary: s)
  case (Cons m ms)
  show ?case using evolves_trans[OF evolves_materialStep Cons.IH] by simp
qed simp

lemma evolves_textureStep: "evolves s (textureStep E dir d t s)"
proof -
  have "evolves s (snd (textureBody E dir t s))"
    by (auto simp: textureBody_def split: option.split outcome.split prod.split
          intro!: evolves_intros intro: evolves_parseTexture_result)
  then show ?thesis
    by (cases "textureBody E dir t s")
       (auto simp: textureStep_def split: outcome.split bool.split intro!: evolves_intros)
qed

lemma evolves_loadTextures: "evolves s (loadTextures E dir d ts s)"
proof (induction ts arbitrary: s)
  case (Cons t ts)
  show ?case using evolves_trans[OF evolves_textureStep Cons.IH] by simp
qed simp

lemma evolves_shadowBody: "evolves s s1 \<Longrightarrow> evolves s (snd (shadowBody E dir l s1))"
  by (auto simp: shadowBody_def split: option.split outcome.split intro!: evolves_intros)

lemma evolves_lightStep: "evolves s (lightStep E dir d l s)"
proof -
  have "evolves s (snd (lightBody E dir l s))"
    by (auto simp: lightBody_def split: option.split outcome.split
          intro!: evolves_shadowBody evolves_intros)
  then show ?thesis
    by (cases "lightBody E dir l s")
       (auto simp: lightStep_def split: outcome.split intro!: evolves_intros)
qed

lemma evolves_loadLights: "evolves s (loadLights E dir d ls s)"
proof (induction ls arbitrary: s)
  case (Cons l ls)
  show ?case using evolves_trans[OF evolves_lightStep Cons.IH] by simp
qed simp

lemma evolves_cameraStep: "evolves s (cameraStep E dir d c s)"
proof -
  have "evolves s (snd (cameraBody E dir c s))"
    by (auto simp: cameraBody_def split: option.split outcome.split intro!: evolves_intros)
  then show ?thesis
    by (cases "cameraBody E dir c s")
       (auto simp: cameraStep_def split: outcome.split intro!: evolves_intros)
qed

lemma evolves_loadCameras: "evolves s (loadCameras E dir d cs s)"
proof (induction cs arbitrary: s)
  case (Cons c cs)
  show ?case using evolves_trans[OF evolves_cameraStep Cons.IH] by simp
qed simp

lemma evolves_loadEntities: "evolves s (loadEntities E dir project s)"
  unfolding loadEntities_def Let_def
  by (intro evolves_trans[OF _ evolves_loadCameras] evolves_emit
        evolves_trans[OF _ evolves_loadLights] evolves_trans[OF _ evolves_loadTextures]
        evolves_trans[OF _ evolves_loadMaterials] evolves_trans[OF _ evolves_retrieveImpostors]
        evolves_trans[OF _ evolves_loadTransformNodes] evolves_trans[OF _ evolves_loadMeshes]
        evolves_refl)

lemma evolves_registerFiles: "evolves s (registerFiles E dir fs s)"
proof -
  have "\<And>s1. evolves s s1 \<Longrightarrow>
          evolves s (fold (\<lambda>f st. let path = join E [dir, ''files'', f]
                   in st\<lparr>FilesStore_List := (FilesStore_List st)(path \<mapsto> (path, basename E f))\<rparr>)
          fs s1)"
    by (induction fs) (auto simp: Let_def intro!: evolves_intros)
  then show ?thesis by (simp add: registerFiles_def)
qed

lemma evolves_configureAssets: "evolves s s1 \<Longrightarrow> evolves s (configureAssets E dir project s1)"
  by (auto simp: configureAssets_def Let_def split: option.split intro!: evolves_intros)

lemma evolves_startImport: "evolves s (snd (startImport E path s))"
  by (auto simp: startImport_def Let_def split: option.split outcome.split
        intro!: evolves_configureAssets evolves_trans[OF _ evolves_registerFiles]
          evolves_intros)

lemma startImport_hooked: "textureParserHooked (snd (startImport E path s))"
proof -
  have keep: "\<And>s0 dir project fs. textureParserHooked s0 \<Longrightarrow>
      textureParserHooked (configureAssets E dir project (registerFiles E dir fs s0))"
    using evolves_configureAssets[OF evolves_registerFiles] by (auto simp: evolves_def)
  show ?thesis
    by (auto simp: startImport_def Let_def split: option.split outcome.split intro!: keep)
qed


section \<open>The end of the import\<close>

lemma postProcess_state: "\<exists>x. snd (postProcess E p c s) = s\<lparr>enabledPipelines := x\<rparr>"
  by (auto simp: postProcess_def split: option.split outcome.split
        intro: exI[of _ "enabledPipelines s"])

lemma postProcess_state_result:
  "postProcess E p c s = (r, s1) \<Longrightarrow> \<exists>x. s1 = s\<lparr>enabledPipelines := x\<rparr>"
  using postProcess_state[of E p c s] by simp

lemma postProcesses_state: "\<exists>x. snd (postProcesses E project s) = s\<lparr>enabledPipelines := x\<rparr>"
proof -
  obtain r1 s1 where p1: "postProcess E ''ssao'' (pp_ssao project) s = (r1, s1)"
    by (cases "postProcess E ''ssao'' (pp_ssao project) s")
  obtain x1 where s1: "s1 = s\<lparr>enabledPipelines := x1\<rparr>"
    using postProcess_state_result[OF p1] by blast
  show ?thesis
  proof (cases r1)
    case Throws
    then have "snd (postProcesses E project s) = s1" using p1 by (simp add: postProcesses_def)
    then show ?thesis using s1 by blast
  next
    case (Returns u)
    obtain r2 s2 where p2: "postProcess E ''standard'' (pp_standard project) s1 = (r2, s2)"
      by (cases "postProcess E ''standard'' (pp_standard project) s1")
    obtain x2 where s2: "s2 = s1\<lparr>enabledPipelines := x2\<rparr>"
      using postProcess_state_result[OF p2] by blast
    show ?thesis
    proof (cases r2)
      case Throws
      then have "snd (postProcesses E project s) = s2"
        using p1 p2 Returns by (simp add: postProcesses_def)
      then show ?thesis using s1 s2 by (intro exI[of _ x2]) simp
    next
      case (Returns v)
      obtain r3 s3 where p3: "postProcess E ''default'' (pp_default project) s2 = (r3, s3)"
        by (cases "postProcess E ''default'' (pp_default project) s2")
      obtain x3 where s3: "s3 = s2\<lparr>enabledPipelines := x3\<rparr>"
        using postProcess_state_result[OF p3] by blast
      have "snd (postProcesses E project s) = s3"
        using p1 p2 p3 Returns \<open>r1 = Returns u\<close> by (simp add: postProcesses_def)
      then show ?thesis using s1 s2 s3 by (intro exI[of _ x3]) simp
    qed
  qed
qed

lemma refresh_events_silent:
  "set tr \<subseteq> {Assets_refresh, Graph_refresh, Overlay_Hide} \<Longrightarrow>
     progressValues tr = [] \<and> errorsOf tr = [] \<and> list_all (\<lambda>e. \<not> isMaterialEvent e) tr"
  by (induction tr) auto

lemma RefreshEditor_pow:
  "\<exists>tr. (priv_RefreshEditor ^^ n) s = s\<lparr>events := events s @ tr\<rparr>
        \<and> set tr \<subseteq> {Assets_refresh, Graph_refresh, Overlay_Hide}"
proof (induction n)
  case 0
  show ?case by (auto intro: exI[of _ "[]"])
next
  case (Suc n)
  then obtain tr where eq: "(priv_RefreshEditor ^^ n) s = s\<lparr>events := events s @ tr\<rparr>"
    and tr: "set tr \<subseteq> {Assets_refresh, Graph_refresh, Overlay_Hide}" by blast
  have "(priv_RefreshEditor ^^ Suc n) s = priv_RefreshEditor ((priv_RefreshEditor ^^ n) s)"
    by simp
  also have "\<dots> = priv_RefreshEditor (s\<lparr>events := events s @ tr\<rparr>)"
    by (simp only: eq)
  also have "\<dots> = s\<lparr>events := events s @ (tr @ [Assets_refresh, Graph_refresh, Overlay_Hide])\<rparr>"
    by (simp add: priv_RefreshEditor_def emit_def)
  finally have "(priv_RefreshEditor ^^ Suc n) s
      = s\<lparr>events := events s @ (tr @ [Assets_refresh, Graph_refresh, Overlay_Hide])\<rparr>" .
  moreover have "set (tr @ [Assets_refresh, Graph_refresh, Overlay_Hide])
      \<subseteq> {Assets_refresh, Graph_refresh, Overlay_Hide}" using tr by auto
  ultimately show ?case by blast
qed

lemma checkIsReady_state:
  "\<exists>tr k. checkIsReady E s = s\<lparr>events := events s @ tr, readyObservers := k\<rparr>
          \<and> set tr \<subseteq> {Assets_refresh, Graph_refresh, Overlay_Hide}"
proof (cases "sceneIsReady E")
  case True
  obtain tr where "(priv_RefreshEditor ^^ readyObservers s) s = s\<lparr>events := events s @ tr\<rparr>"
    and tr: "set tr \<subseteq> {Assets_refresh, Graph_refresh, Overlay_Hide}"
    using RefreshEditor_pow by blast
  then have "checkIsReady E s = s\<lparr>events := events s @ tr, readyObservers := 0\<rparr>"
    using True by (simp add: checkIsReady_def)
  with tr show ?thesis by blast
next
  case False
  have "s = s\<lparr>events := events s @ [], readyObservers := readyObservers s\<rparr>" by simp
  then have "checkIsReady E s = s\<lparr>events := events s @ [], readyObservers := readyObservers s\<rparr>"
    using False by (simp add: checkIsReady_def)
  moreover have "set ([]::event list) \<subseteq> {Assets_refresh, Graph_refresh, Overlay_Hide}" by simp
  ultimately show ?thesis by blast
qed

text \<open>
  The four ways through the end of the import, and the state each leaves: a post-process
  throws; the cache file is not read; the parent pass throws; or the end is reached.
\<close>

lemma finishImport_cases:
  obtains
    (postProcess) x where
      "postProcessFails E ''ssao'' (pp_ssao project)
       \<or> postProcessFails E ''standard'' (pp_standard project)
       \<or> postProcessFails E ''default'' (pp_default project)"
      "finishImport E dir project s =
         (Throws, (emit (Overlay_SetMessage ''Configuring Rendering...'') s)\<lparr>enabledPipelines := x\<rparr>)"
  | (cache) x where
      "cacheFile E (join E [dir, ''assets'', ''cache.json'']) = None"
      "finishImport E dir project s =
         (Throws, emit (Overlay_SetMessage ''Loading Cache...'')
            ((emit (Overlay_SetMessage ''Configuring Rendering...'') s)\<lparr>enabledPipelines := x\<rparr>))"
  | (parents) x c where
      "\<not> finishFails E dir project" "fst (linkParents s) = Throws"
      "finishImport E dir project s =
         (Throws, (emit (Overlay_SetMessage ''Loading Cache...'')
            ((emit (Overlay_SetMessage ''Configuring Rendering...'') s)\<lparr>enabledPipelines := x\<rparr>))
              \<lparr>cachedData := Some c, nodes := nodes (snd (linkParents s))\<rparr>)"
  | (finished) x c tr k where
      "\<not> finishFails E dir project" "fst (linkParents s) = Returns ()"
      "set tr \<subseteq> {Assets_refresh, Graph_refresh, Overlay_Hide}"
      "finishImport E dir project s =
         (Returns (), (emit (Overlay_SetMessage ''Loading Cache...'')
            ((emit (Overlay_SetMessage ''Configuring Rendering...'') s)\<lparr>enabledPipelines := x\<rparr>))
              \<lparr>cachedData := Some c, nodes := nodes (snd (linkParents s)),
               events := events s @ [Overlay_SetMessage ''Configuring Rendering...'',
                                     Overlay_SetMessage ''Loading Cache...''] @ tr,
               readyObservers := k\<rparr>)"
proof -
  let ?s0 = "emit (Overlay_SetMessage ''Configuring Rendering...'') s"
  obtain r s1 where pp: "postProcesses E project ?s0 = (r, s1)"
    by (cases "postProcesses E project ?s0")
  obtain x where s1: "s1 = ?s0\<lparr>enabledPipelines := x\<rparr>"
    using postProcesses_state[of E project ?s0] pp by auto
  show ?thesis
  proof (cases r)
    case Throws
    then have "postProcessFails E ''ssao'' (pp_ssao project)
       \<or> postProcessFails E ''standard'' (pp_standard project)
       \<or> postProcessFails E ''default'' (pp_default project)"
      using postProcesses_Throws[of E project ?s0] pp by simp
    moreover have "finishImport E dir project s = (Throws, ?s0\<lparr>enabledPipelines := x\<rparr>)"
      using pp Throws s1 by (simp add: finishImport_def)
    ultimately show ?thesis by (rule postProcess)
  next
    case (Returns u)
    then have npp: "\<not> (postProcessFails E ''ssao'' (pp_ssao project)
       \<or> postProcessFails E ''standard'' (pp_standard project)
       \<or> postProcessFails E ''default'' (pp_default project))"
      using postProcesses_Throws[of E project ?s0] pp by simp
    let ?s2 = "emit (Overlay_SetMessage ''Loading Cache...'') (?s0\<lparr>enabledPipelines := x\<rparr>)"
    show ?thesis
    proof (cases "cacheFile E (join E [dir, ''assets'', ''cache.json''])")
      case None
      moreover have "finishImport E dir project s = (Throws, ?s2)"
        using pp Returns s1 None by (simp add: finishImport_def Let_def)
      ultimately show ?thesis by (rule cache)
    next
      case (Some c)
      have nf: "\<not> finishFails E dir project" using npp Some by (simp add: finishFails_def)
      let ?s3 = "?s2\<lparr>cachedData := Some c\<rparr>"
      have sc: "sceneOf ?s3 = sceneOf s" by (simp add: sceneOf_def)
      note cg = linkParents_cong[OF sc]
      have n3: "nodes (snd (linkParents ?s3)) = nodes (snd (linkParents s))"
        using cg(2) by (simp add: sceneOf_def)
      obtain r3 s4 where lp: "linkParents ?s3 = (r3, s4)" by (cases "linkParents ?s3")
      have s4: "s4 = ?s3\<lparr>nodes := nodes (snd (linkParents s))\<rparr>"
        using linkParents_only_nodes[of ?s3] lp n3 by simp
      have r3: "r3 = fst (linkParents s)" using cg(1) lp by simp
      show ?thesis
      proof (cases r3)
        case Throws
        have "finishImport E dir project s =
            (Throws, ?s2\<lparr>cachedData := Some c, nodes := nodes (snd (linkParents s))\<rparr>)"
          using pp Returns s1 Some lp Throws s4 by (simp add: finishImport_def Let_def)
        with nf Throws r3 show ?thesis by (intro parents) simp_all
      next
        case (Returns v)
        let ?s5 = "s4\<lparr>readyObservers := Suc (readyObservers s4)\<rparr>"
        obtain tr k where cr: "checkIsReady E ?s5 = ?s5\<lparr>events := events ?s5 @ tr, readyObservers := k\<rparr>"
          and tr: "set tr \<subseteq> {Assets_refresh, Graph_refresh, Overlay_Hide}"
          using checkIsReady_state[of E ?s5] by blast
        have fin: "finishImport E dir project s = (Returns (), checkIsReady E ?s5)"
          using pp \<open>r = Returns u\<close> s1 Some lp Returns by (simp add: finishImport_def Let_def)
        have "finishImport E dir project s =
         (Returns (), ?s2\<lparr>cachedData := Some c, nodes := nodes (snd (linkParents s)),
               events := events s @ [Overlay_SetMessage ''Configuring Rendering...'',
                                     Overlay_SetMessage ''Loading Cache...''] @ tr,
               readyObservers := k\<rparr>)"
          unfolding fin cr by (simp add: s4)
        moreover have "fst (linkParents s) = Returns ()" using r3 Returns by simp
        ultimately show ?thesis using nf tr by (intro finished) simp_all
      qed
    qed
  qed
qed

lemma finishImport_Throws:
  "(fst (finishImport E dir project s) = Throws)
     = (finishFails E dir project \<or> fst (linkParents s) = Throws)"
  by (rule finishImport_cases[of E project dir s]) (auto simp: finishFails_def)

lemma linkParents_other_fields:
  "textures (snd (linkParents s)) = textures s"
  "spinnerValue (snd (linkParents s)) = spinnerValue s"
  "events (snd (linkParents s)) = events s"
  "meshes (snd (linkParents s)) = meshes s"
  "lights (snd (linkParents s)) = lights s"
  "cameras (snd (linkParents s)) = cameras s"
  "transformNodes (snd (linkParents s)) = transformNodes s"
  "textureParserHooked (snd (linkParents s)) = textureParserHooked s"
  by (subst linkParents_only_nodes, simp)+

text \<open>The scene the end of the import leaves.\<close>

lemma finishImport_scene:
  "sceneOf (snd (finishImport E dir project s)) =
     (if finishFails E dir project then sceneOf s else sceneOf (snd (linkParents s)))"
  by (rule finishImport_cases[of E project dir s])
     (auto simp: finishFails_def sceneOf_def linkParents_other_fields)

lemma evolves_linkParents: "evolves s (snd (linkParents s))"
proof -
  have si: "sameIndex s (snd (linkParents s))" by (rule linkParents_sameIndex)
  have "evolves s (s\<lparr>nodes := nodes (snd (linkParents s))\<rparr>)"
    by (rule evolves_nodes) (use si in \<open>simp_all add: sameIndex_def\<close>)
  then show ?thesis using linkParents_only_nodes[of s] by simp
qed

text \<open>
  The end of the import starts with its message, reports no progress, logs no error, creates
  no texture, and keeps the nodes and their ids.
\<close>

lemma finishImport_shape:
  "\<exists>tr. events (snd (finishImport E dir project s))
          = events s @ Overlay_SetMessage ''Configuring Rendering...'' # tr
        \<and> progressValues tr = [] \<and> errorsOf tr = []
        \<and> list_all (\<lambda>e. \<not> isMaterialEvent e) tr"
proof (rule finishImport_cases[of E project dir s])
  fix x c tr k
  assume tr: "set tr \<subseteq> {Assets_refresh, Graph_refresh, Overlay_Hide}"
    and fin: "finishImport E dir project s =
         (Returns (), (emit (Overlay_SetMessage ''Loading Cache...'')
            ((emit (Overlay_SetMessage ''Configuring Rendering...'') s)\<lparr>enabledPipelines := x\<rparr>))
              \<lparr>cachedData := Some c, nodes := nodes (snd (linkParents s)),
               events := events s @ [Overlay_SetMessage ''Configuring Rendering...'',
                                     Overlay_SetMessage ''Loading Cache...''] @ tr,
               readyObservers := k\<rparr>)"
  note q = refresh_events_silent[OF tr]
  show ?thesis
    unfolding fin
    by (rule exI[of _ "Overlay_SetMessage ''Loading Cache...'' # tr"]) (simp add: q)
qed (auto intro: exI[of _ "[]"] exI[of _ "[Overlay_SetMessage ''Loading Cache...'']"])

lemma finishImport_quiet:
  "spinnerValue (snd (finishImport E dir project s)) = spinnerValue s
   \<and> textures (snd (finishImport E dir project s)) = textures s
   \<and> (\<exists>tr. events (snd (finishImport E dir project s)) = events s @ tr
            \<and> progressValues tr = [])"
proof -
  have a: "spinnerValue (snd (finishImport E dir project s)) = spinnerValue s
      \<and> textures (snd (finishImport E dir project s)) = textures s"
    by (rule finishImport_cases[of E project dir s]) simp_all
  obtain tr where "events (snd (finishImport E dir project s))
          = events s @ Overlay_SetMessage ''Configuring Rendering...'' # tr"
    "progressValues tr = []"
    using finishImport_shape by blast
  then have "events (snd (finishImport E dir project s))
      = events s @ (Overlay_SetMessage ''Configuring Rendering...'' # tr)
      \<and> progressValues (Overlay_SetMessage ''Configuring Rendering...'' # tr) = []" by simp
  with a show ?thesis by blast
qed

lemma evolves_finishImport: "evolves s (snd (finishImport E dir project s))"
proof -
  let ?s' = "snd (finishImport E dir project s)"
  have si: "sameIndex s (snd (linkParents s))" by (rule linkParents_sameIndex)
  have sc: "sameIndex s ?s'"
    using finishImport_scene[of E dir project s] si
    by (auto simp: sceneOf_def sameIndex_def split: if_splits)
  have tx: "textures ?s' = textures s" using finishImport_quiet by blast
  have ev: "\<exists>tr. events ?s' = events s @ tr" using finishImport_quiet by blast
  have hk: "textureParserHooked ?s' = textureParserHooked s"
    by (rule finishImport_cases[of E project dir s]) simp_all
  show ?thesis
    unfolding evolves_def scene_wf_iff sceneNodes_def
    using sc tx ev hk by (simp add: sameIndex_def)
qed

lemma priv_ImportProject_success:
  assumes "\<not> startFails E path" and "projectFile E path = Some project"
  shows "priv_ImportProject E path s =
           finishImport E (dirname E path @ ''/'') project
             (loadEntities E (dirname E path @ ''/'') project (snd (startImport E path s)))"
proof -
  obtain r s1 where st: "startImport E path s = (r, s1)" by (cases "startImport E path s")
  have "r \<noteq> Throws" using startImport_Throws[of E path s] assms(1) st by simp
  then obtain dir' project' where r: "r = Returns (dir', project')" by (cases r) auto
  from startImport_Returns[OF st[unfolded r]] assms(2)
  have "dir' = dirname E path @ ''/''" "project' = project" by auto
  then show ?thesis using st r by (simp add: priv_ImportProject_def)
qed

lemma startImport_success:
  assumes "\<not> startFails E path" and "projectFile E path = Some project"
  shows "startImport E path s =
           (Returns (dirname E path @ ''/'', project), snd (startImport E path s))"
proof -
  obtain r s1 where st: "startImport E path s = (r, s1)" by (cases "startImport E path s")
  have "r \<noteq> Throws" using startImport_Throws[of E path s] assms(1) st by simp
  then obtain dir' project' where r: "r = Returns (dir', project')" by (cases r) auto
  from startImport_Returns[OF st[unfolded r]] assms(2)
  have "dir' = dirname E path @ ''/''" "project' = project" by auto
  then show ?thesis using st r by simp
qed

lemma priv_ImportProject_Throws:
  "(fst (priv_ImportProject E path s) = Throws) =
     (startFails E path \<or>
      (\<exists>project. projectFile E path = Some project
         \<and> (finishFails E (dirname E path @ ''/'') project
            \<or> fst (linkParents (entitiesLoaded E path project s)) = Throws)))"
proof (cases "startFails E path")
  case True
  then show ?thesis using priv_ImportProject_start_fails[of E path s] by simp
next
  case False
  then obtain project where pf: "projectFile E path = Some project"
    by (auto simp: startFails_def split: option.splits)
  show ?thesis
    unfolding priv_ImportProject_success[OF False pf] finishImport_Throws
    using False pf by (simp add: entitiesLoaded_def)
qed

lemma evolves_entitiesLoaded: "evolves s (entitiesLoaded E path project s)"
  unfolding entitiesLoaded_def
  by (rule evolves_trans[OF evolves_startImport evolves_loadEntities])

lemma worldWithoutCache_fails:
  "\<not> startFails worldWithoutCache path
   \<and> projectFile worldWithoutCache path = Some bareProject
   \<and> finishFails worldWithoutCache dir bareProject"
  by (simp add: startFails_def finishFails_def worldWithoutCache_def bareWorld_def
        bareProject_def)


section \<open>The import as a chain of phases\<close>

lemma import_run:
  "startImport E path s = (Returns (dir, project), s0) \<Longrightarrow>
     priv_ImportProject E path s = finishImport E dir project (loadEntities E dir project s0)"
  by (simp add: priv_ImportProject_def)

lemma loadEntities_phases:
  "loadEntities E dir project s0 =
     loadCameras E dir (spinnerStepOf project) (p_cameras project)
       (emit (Overlay_SetMessage ''Creating Cameras...'')
          (loadLights E dir (spinnerStepOf project) (p_lights project)
             (emit (Overlay_SetMessage ''Creating Lights...'')
                (texturesLoaded E dir project s0))))"
  by (simp add: loadEntities_def texturesLoaded_def beforeTextures_def materialsLoaded_def
        beforeMaterials_def meshesLoaded_def Let_def)

lemma sceneOf_emit [simp]: "sceneOf (emit e s) = sceneOf s"
  by (simp add: sceneOf_def)

lemma sceneOf_advanceSpinner [simp]: "sceneOf (advanceSpinner d s) = sceneOf s"
  by (simp add: sceneOf_def)

text \<open>A manifest that lists meshes only, in a scene without physics engine.\<close>

lemma loadEntities_meshes_only:
  assumes "p_transformNodes project = None" "p_materials project = []" "p_textures project = []"
    "p_lights project = []" "p_cameras project = []" "physicsEngine E = None"
  shows "sceneOf (loadEntities E dir project s)
           = sceneOf (loadMeshes E dir (spinnerStepOf project) (p_meshes project)
                        (emit (Overlay_SetMessage ''Creating Meshes...'') s))"
  by (simp add: loadEntities_def Let_def assms retrieveImpostors_def)

text \<open>A mesh file with one entry and no LOD, from which the engine loads one mesh.\<close>

lemma meshStep_single:
  assumes "meshFile E (join E [dir, ''meshes'', m]) = Some \<lparr>mf_meshes = [p], mf_lods = Some []\<rparr>"
    and "ImportMeshAsync E dir (join E [''meshes'', m]) = Returns [n]"
  shows "sceneOf (meshStep E dir d m s)
           = (nodes s @ [n\<lparr>waitingParentId := p\<rparr>], meshes s @ [length (nodes s)],
              lights s, cameras s, transformNodes s)"
  by (simp add: meshStep_def meshBody_def ImportMesh_def assms Let_def newHandles_def
        sceneOf_def)

lemma sceneOf_fields:
  "sceneOf s = (ns, ms, ls, cs, ts) \<Longrightarrow>
     nodes s = ns \<and> meshes s = ms \<and> lights s = ls \<and> cameras s = cs \<and> transformNodes s = ts"
  by (simp add: sceneOf_def)

lemma sceneOf_startImport_fields:
  "sceneOf (snd (startImport E path s)) = sceneOf s"
proof -
  have r: "\<And>dir fs s1. sceneOf (registerFiles E dir fs s1) = sceneOf s1"
  proof -
    fix dir fs s1
    have "\<And>s2. sceneOf (fold (\<lambda>f st. let path = join E [dir, ''files'', f]
                   in st\<lparr>FilesStore_List := (FilesStore_List st)(path \<mapsto> (path, basename E f))\<rparr>)
          fs s2) = sceneOf s2"
      by (induction fs) (simp_all add: Let_def sceneOf_def)
    then show "sceneOf (registerFiles E dir fs s1) = sceneOf s1" by (simp add: registerFiles_def)
  qed
  have c: "\<And>dir project s1. sceneOf (configureAssets E dir project s1) = sceneOf s1"
    by (simp add: configureAssets_def Let_def sceneOf_def split: option.split)
  show ?thesis
    by (simp add: startImport_def Let_def r c split: option.split outcome.split)
       (simp add: sceneOf_def)
qed

section \<open>Which failures escape \<^verbatim>\<open>_ImportProject\<close>\<close>

lemma selfWorld_facts:
  "\<not> startFails selfWorld path" "projectFile selfWorld path = Some selfProject"
  "dirname selfWorld path = ''d''" "physicsEngine selfWorld = None"
  "\<not> finishFails selfWorld dir selfProject"
  "meshFile selfWorld (join selfWorld [''d/'', ''meshes'', ''a''])
     = Some \<lparr>mf_meshes = [Some ''meshes/a''], mf_lods = Some []\<rparr>"
  "meshFile selfWorld (join selfWorld [''d/'', ''meshes'', ''c''])
     = Some \<lparr>mf_meshes = [Some ''ghost''], mf_lods = Some []\<rparr>"
  "ImportMeshAsync selfWorld r (join selfWorld [''meshes'', m]) = Returns [freshNode (''meshes/'' @ m)]"
  by (simp_all add: startFails_def finishFails_def postProcessFails_def selfWorld_def
        worldWithCache_def worldWithoutCache_def bareWorld_def selfProject_def bareProject_def)

lemma selfProject_lists:
  "p_meshes selfProject = [''a'', ''c'']" "p_transformNodes selfProject = None"
  "p_materials selfProject = []" "p_textures selfProject = []"
  "p_lights selfProject = []" "p_cameras selfProject = []"
  by (simp_all add: selfProject_def bareProject_def)

text \<open>The scene of \<open>selfWorld\<close> at the end of entity loading, and the parent pass on it.\<close>

lemma self_entities:
  "sceneOf (entitiesLoaded selfWorld ''p'' selfProject emptyScene) = sceneOf selfScene"
proof -
  let ?d = "spinnerStepOf selfProject"
  let ?s0 = "emit (Overlay_SetMessage ''Creating Meshes...'') (snd (startImport selfWorld ''p'' emptyScene))"
  have e0: "sceneOf ?s0 = ([], [], [], [], [])"
    by (simp add: sceneOf_startImport_fields) (simp add: sceneOf_def emptyScene_def)
  note f0 = sceneOf_fields[OF e0]
  let ?s1 = "meshStep selfWorld ''d/'' ?d ''a'' ?s0"
  have e1: "sceneOf ?s1 = ([(freshNode ''meshes/a'')\<lparr>waitingParentId := Some ''meshes/a''\<rparr>],
      [0], [], [], [])"
    using meshStep_single[OF selfWorld_facts(6) selfWorld_facts(8), of ?d ?s0] f0 by simp
  note f1 = sceneOf_fields[OF e1]
  let ?s2 = "meshStep selfWorld ''d/'' ?d ''c'' ?s1"
  have e2: "sceneOf ?s2 = ([(freshNode ''meshes/a'')\<lparr>waitingParentId := Some ''meshes/a''\<rparr>,
      (freshNode ''meshes/c'')\<lparr>waitingParentId := Some ''ghost''\<rparr>], [0, 1], [], [], [])"
    using meshStep_single[OF selfWorld_facts(7) selfWorld_facts(8), of ?d ?s1] f1 by simp
  have "sceneOf (entitiesLoaded selfWorld ''p'' selfProject emptyScene) = sceneOf ?s2"
    unfolding entitiesLoaded_def
    by (simp add: loadEntities_meshes_only[OF selfProject_lists(2-6) selfWorld_facts(4)]
          selfProject_lists(1) selfWorld_facts(3))
  also have "\<dots> = sceneOf selfScene"
    unfolding e2 by (simp add: sceneOf_def selfScene_def emptyScene_def)
  finally show ?thesis .
qed

lemma selfScene_pass:
  "fst (linkParents selfScene) = Throws"
  "nodes (snd (linkParents selfScene))
     = [(freshNode ''meshes/a'')\<lparr>waitingParentId := Some ''meshes/a'', parent := Some 0\<rparr>,
        (freshNode ''meshes/c'')\<lparr>waitingParentId := Some ''ghost''\<rparr>]"
  by (simp_all add: linkParents_def priv_SetWaitingParent_def setParent_def closesCycle_def
        getNodeByID_def getMeshByID_def getTransformNodeByID_def getLightByID_def
        getCameraByID_def orElse_def selfScene_def emptyScene_def freshNode_def updateNode_def
        Let_def numeral_2_eq_2)

text \<open>
  C1, as amended. A rejection of \<^verbatim>\<open>_ImportProject\<close> has one of these causes and no other:
  the manifest cannot be read, \<^verbatim>\<open>ImportSceneSettings\<close> or \<^verbatim>\<open>ConfigureFromJson\<close> throws,
  the configuration of one of the three post-process pipelines throws, the cache file cannot
  be read, or the parent pass throws on the scene the loops have left (the engine refuses a
  parent that closes a cycle of parents). Nothing that happens while a mesh, transform node,
  material, texture, light or camera is loaded is among the causes: those failures are caught
  inside their loops.
\<close>

theorem import_rejects_iff:
  "(fst (priv_ImportProject E path s) = Throws) =
     (startFails E path \<or>
      (\<exists>project. projectFile E path = Some project
         \<and> (finishFails E (dirname E path @ ''/'') project
            \<or> fst (linkParents (entitiesLoaded E path project s)) = Throws)))"
  by (rule priv_ImportProject_Throws)

text \<open>
  In \<open>selfWorld\<close> every file is read and no helper throws; the mesh \<open>a\<close> names itself as its
  parent, the parent pass throws and the import rejects.
\<close>

theorem import_rejects_iff_witness:
  "\<not> startFails selfWorld ''p''
   \<and> projectFile selfWorld ''p'' = Some selfProject
   \<and> \<not> finishFails selfWorld (dirname selfWorld ''p'' @ ''/'') selfProject
   \<and> fst (linkParents (entitiesLoaded selfWorld ''p'' selfProject emptyScene)) = Throws
   \<and> fst (priv_ImportProject selfWorld ''p'' emptyScene) = Throws"
proof -
  have lp: "fst (linkParents (entitiesLoaded selfWorld ''p'' selfProject emptyScene)) = Throws"
    using linkParents_cong(1)[OF self_entities] selfScene_pass(1) by simp
  from import_rejects_iff [of selfWorld "''p''" emptyScene] lp selfWorld_facts(2)[of "''p''"]
  have "fst (priv_ImportProject selfWorld ''p'' emptyScene) = Throws" by simp
  with lp selfWorld_facts(1,2,5) show ?thesis by simp
qed

text \<open>
  C1, as stated, fails: with a readable manifest and a missing \<^verbatim>\<open>assets/cache.json\<close> the
  cache load throws and \<^verbatim>\<open>_ImportProject\<close> rejects.
\<close>

theorem cache_failure_escapes:
  "projectFile worldWithoutCache ''project.editorproject'' = Some bareProject
   \<and> fst (priv_ImportProject worldWithoutCache ''project.editorproject'' emptyScene) = Throws"
  using priv_ImportProject_Throws [of worldWithoutCache "''project.editorproject''" emptyScene]
    worldWithoutCache_fails [of "''project.editorproject''" "dirname worldWithoutCache ''project.editorproject'' @ ''/''"]
  by simp


section \<open>The parent pass at the end of an import\<close>

text \<open>
  An import that returns normally has read the manifest and the cache, has met no throwing
  helper, and its parent pass has returned: the final scene is the scene at the end of entity
  loading with every mesh, light, camera and transform node linked.
\<close>

lemma import_returns_linked:
  assumes "scene_wf s" and "projectFile E path = Some project"
    and "fst (priv_ImportProject E path s) = Returns ()"
  shows "sceneNodes (snd (priv_ImportProject E path s))
           = sceneNodes (entitiesLoaded E path project s)"
    and "\<forall>h \<in> set (sceneNodes (entitiesLoaded E path project s)).
           nodes (snd (priv_ImportProject E path s)) ! h
             = linked (entitiesLoaded E path project s)
                 (nodes (entitiesLoaded E path project s) ! h)"
proof -
  let ?dir = "dirname E path @ ''/''"
  let ?sL = "entitiesLoaded E path project s"
  let ?s' = "snd (priv_ImportProject E path s)"
  from assms(3) have nt: "fst (priv_ImportProject E path s) \<noteq> Throws" by simp
  then have nsf: "\<not> startFails E path" and nff: "\<not> finishFails E ?dir project"
    and np: "fst (linkParents ?sL) \<noteq> Throws"
    using priv_ImportProject_Throws[of E path s] assms(2) by auto
  obtain sP where lp: "linkParents ?sL = (Returns (), sP)"
    using np by (cases "linkParents ?sL"; cases "fst (linkParents ?sL)") auto
  have run: "priv_ImportProject E path s = finishImport E ?dir project ?sL"
    using priv_ImportProject_success[OF nsf assms(2)] by (simp add: entitiesLoaded_def)
  have sc: "sceneOf ?s' = sceneOf sP"
    unfolding run using finishImport_scene[of E ?dir project ?sL] nff lp by simp
  have wf: "scene_wf ?sL" using evolves_entitiesLoaded[of s E path project] assms(1)
    by (simp add: evolves_def)
  have si: "sameIndex ?sL sP" using linkParents_sameIndex[of ?sL] lp by simp
  show "sceneNodes ?s' = sceneNodes ?sL"
    using sc si by (simp add: sceneOf_def sceneNodes_def sameIndex_def)
  show "\<forall>h \<in> set (sceneNodes ?sL). nodes ?s' ! h = linked ?sL (nodes ?sL ! h)"
  proof
    fix h assume h: "h \<in> set (sceneNodes ?sL)"
    then have "h < length (nodes ?sL)" using wf by (simp add: scene_wf_iff)
    from linkParents_node[OF lp h this] sc show "nodes ?s' ! h = linked ?sL (nodes ?sL ! h)"
      by (simp add: sceneOf_def)
  qed
qed


text \<open>
  C4, as amended. Let the import return normally, from a scene whose lists hold handles of the
  store. A mesh, light, camera or transform node that carries a waiting parent id \<open>w\<close> at
  the end of entity loading ends the import with the parent
  \<^verbatim>\<open>getNodeByID(w) ?? getTransformNodeByID(w)\<close>, looked up in the scene at the end of entity
  loading: the node found among the generic nodes if there is one, whatever the order in
  which child and parent were loaded; and its waiting parent id is removed.
\<close>

theorem waiting_parent_linked:
  assumes "scene_wf s" and "projectFile E path = Some project"
    and "fst (priv_ImportProject E path s) = Returns ()"
    and "h \<in> set (sceneNodes (entitiesLoaded E path project s))"
    and "waitingParentId (nodes (entitiesLoaded E path project s) ! h) = Some w" and "w \<noteq> []"
  shows "parent (nodes (snd (priv_ImportProject E path s)) ! h)
           = orElse (getNodeByID (entitiesLoaded E path project s) w)
                    (getTransformNodeByID (entitiesLoaded E path project s) w)
     \<and> (\<forall>p. getNodeByID (entitiesLoaded E path project s) w = Some p \<longrightarrow>
            parent (nodes (snd (priv_ImportProject E path s)) ! h) = Some p)
     \<and> waitingParentId (nodes (snd (priv_ImportProject E path s)) ! h) = None"
proof -
  let ?sL = "entitiesLoaded E path project s"
  have "nodes (snd (priv_ImportProject E path s)) ! h = linked ?sL (nodes ?sL ! h)"
    using import_returns_linked(2)[OF assms(1,2,3)] assms(4) by blast
  then show ?thesis using assms(5,6) by (auto simp: linked_def orElse_def)
qed

lemma familyWorld_facts:
  "\<not> startFails familyWorld path" "projectFile familyWorld path = Some familyProject"
  "dirname familyWorld path = ''d''" "physicsEngine familyWorld = None"
  "\<not> finishFails familyWorld dir familyProject"
  "meshFile familyWorld (join familyWorld [''d/'', ''meshes'', ''b''])
     = Some \<lparr>mf_meshes = [Some ''meshes/a''], mf_lods = Some []\<rparr>"
  "meshFile familyWorld (join familyWorld [''d/'', ''meshes'', ''a''])
     = Some \<lparr>mf_meshes = [None], mf_lods = Some []\<rparr>"
  "ImportMeshAsync familyWorld r (join familyWorld [''meshes'', m]) = Returns [freshNode (''meshes/'' @ m)]"
  by (simp_all add: startFails_def finishFails_def postProcessFails_def familyWorld_def
        worldWithCache_def worldWithoutCache_def bareWorld_def familyProject_def bareProject_def)

lemma orphanWorld_facts:
  "\<not> startFails orphanWorld path" "projectFile orphanWorld path = Some familyProject"
  "dirname orphanWorld path = ''d''" "physicsEngine orphanWorld = None"
  "finishFails orphanWorld dir familyProject"
  "meshFile orphanWorld (join orphanWorld [''d/'', ''meshes'', ''b''])
     = Some \<lparr>mf_meshes = [Some ''meshes/a''], mf_lods = Some []\<rparr>"
  "meshFile orphanWorld (join orphanWorld [''d/'', ''meshes'', ''a''])
     = Some \<lparr>mf_meshes = [None], mf_lods = Some []\<rparr>"
  "ImportMeshAsync orphanWorld r (join orphanWorld [''meshes'', m]) = Returns [freshNode (''meshes/'' @ m)]"
  by (simp_all add: startFails_def finishFails_def postProcessFails_def orphanWorld_def
        familyWorld_def worldWithCache_def worldWithoutCache_def bareWorld_def
        familyProject_def bareProject_def)

lemma familyProject_lists:
  "p_meshes familyProject = [''b'', ''a'']" "p_transformNodes familyProject = None"
  "p_materials familyProject = []" "p_textures familyProject = []"
  "p_lights familyProject = []" "p_cameras familyProject = []"
  by (simp_all add: familyProject_def bareProject_def)

text \<open>
  The scene at the end of entity loading, in a world that loads the two meshes of
  \<open>familyProject\<close> as \<open>familyWorld\<close> does.
\<close>

lemma family_entities:
  assumes "projectFile E ''p'' = Some familyProject" "dirname E ''p'' = ''d''"
    "physicsEngine E = None"
    "meshFile E (join E [''d/'', ''meshes'', ''b''])
       = Some \<lparr>mf_meshes = [Some ''meshes/a''], mf_lods = Some []\<rparr>"
    "meshFile E (join E [''d/'', ''meshes'', ''a''])
       = Some \<lparr>mf_meshes = [None], mf_lods = Some []\<rparr>"
    "\<And>r m. ImportMeshAsync E r (join E [''meshes'', m]) = Returns [freshNode (''meshes/'' @ m)]"
  shows "sceneOf (entitiesLoaded E ''p'' familyProject emptyScene) = sceneOf familyScene"
proof -
  let ?d = "spinnerStepOf familyProject"
  let ?s0 = "emit (Overlay_SetMessage ''Creating Meshes...'') (snd (startImport E ''p'' emptyScene))"
  have e0: "sceneOf ?s0 = ([], [], [], [], [])"
    by (simp add: sceneOf_startImport_fields) (simp add: sceneOf_def emptyScene_def)
  note f0 = sceneOf_fields[OF e0]
  let ?s1 = "meshStep E ''d/'' ?d ''b'' ?s0"
  have e1: "sceneOf ?s1 = ([(freshNode ''meshes/b'')\<lparr>waitingParentId := Some ''meshes/a''\<rparr>],
      [0], [], [], [])"
    using meshStep_single[OF assms(4) assms(6), of ?d ?s0] f0 by simp
  note f1 = sceneOf_fields[OF e1]
  let ?s2 = "meshStep E ''d/'' ?d ''a'' ?s1"
  have e2: "sceneOf ?s2 = ([(freshNode ''meshes/b'')\<lparr>waitingParentId := Some ''meshes/a''\<rparr>,
      (freshNode ''meshes/a'')\<lparr>waitingParentId := None\<rparr>], [0, 1], [], [], [])"
    using meshStep_single[OF assms(5) assms(6), of ?d ?s1] f1 by simp
  have "sceneOf (entitiesLoaded E ''p'' familyProject emptyScene) = sceneOf ?s2"
    unfolding entitiesLoaded_def
    by (simp add: loadEntities_meshes_only[OF familyProject_lists(2-6) assms(3)]
          familyProject_lists(1) assms(2))
  also have "\<dots> = sceneOf familyScene"
    unfolding e2 by (simp add: sceneOf_def familyScene_def emptyScene_def freshNode_def)
  finally show ?thesis .
qed

lemma familyScene_facts:
  "sceneNodes familyScene = [0, 1]"
  "waitingParentId (nodes familyScene ! 0) = Some ''meshes/a''"
  "parent (nodes familyScene ! 0) = None"
  "node_id (nodes familyScene ! 0) = ''meshes/b''"
  "node_id (nodes familyScene ! Suc 0) = ''meshes/a''"
  "getNodeByID familyScene ''meshes/a'' = Some 1"
  by (simp_all add: sceneNodes_def getNodeByID_def getMeshByID_def getTransformNodeByID_def
        getLightByID_def getCameraByID_def orElse_def familyScene_def emptyScene_def
        freshNode_def)

lemma familyScene_pass: "fst (linkParents familyScene) = Returns ()"
  by (simp add: linkParents_def priv_SetWaitingParent_def setParent_def
        closesCycle_def getNodeByID_def getMeshByID_def getTransformNodeByID_def
        getLightByID_def getCameraByID_def orElse_def familyScene_def emptyScene_def
        freshNode_def updateNode_def Let_def numeral_2_eq_2)

lemma sceneOf_facts:
  assumes "sceneOf t = sceneOf s"
  shows "sceneNodes t = sceneNodes s" and "nodes t = nodes s"
  using assms by (simp_all add: sceneOf_def sceneNodes_def)

text \<open>
  The import of \<open>familyProject\<close> returns normally: the child \<open>b\<close> is listed and loaded before
  its parent \<open>a\<close>, and ends the import with the mesh of \<open>a\<close> as its parent.
\<close>

theorem waiting_parent_linked_witness:
  "scene_wf emptyScene
   \<and> projectFile familyWorld ''p'' = Some familyProject
   \<and> p_meshes familyProject = [''b'', ''a'']
   \<and> fst (priv_ImportProject familyWorld ''p'' emptyScene) = Returns ()
   \<and> 0 \<in> set (sceneNodes (entitiesLoaded familyWorld ''p'' familyProject emptyScene))
   \<and> node_id (nodes (entitiesLoaded familyWorld ''p'' familyProject emptyScene) ! 0) = ''meshes/b''
   \<and> node_id (nodes (entitiesLoaded familyWorld ''p'' familyProject emptyScene) ! 1) = ''meshes/a''
   \<and> waitingParentId (nodes (entitiesLoaded familyWorld ''p'' familyProject emptyScene) ! 0)
       = Some ''meshes/a''
   \<and> getNodeByID (entitiesLoaded familyWorld ''p'' familyProject emptyScene) ''meshes/a'' = Some 1
   \<and> parent (nodes (snd (priv_ImportProject familyWorld ''p'' emptyScene)) ! 0) = Some 1
   \<and> waitingParentId (nodes (snd (priv_ImportProject familyWorld ''p'' emptyScene)) ! 0) = None"
proof -
  let ?sL = "entitiesLoaded familyWorld ''p'' familyProject emptyScene"
  have wf: "scene_wf emptyScene" by (simp add: scene_wf_def sceneNodes_def emptyScene_def)
  have sc: "sceneOf ?sL = sceneOf familyScene"
    by (rule family_entities) (rule familyWorld_facts)+
  note f = sceneOf_facts[OF sc] sceneOf_lookups(1)[OF sc]
  have lp: "fst (linkParents ?sL) = Returns ()"
    using linkParents_cong(1)[OF sc] familyScene_pass by simp
  have r: "fst (priv_ImportProject familyWorld ''p'' emptyScene) = Returns ()"
    using priv_ImportProject_Throws[of familyWorld "''p''" emptyScene] lp
      familyWorld_facts(1,2,5)
    by (cases "fst (priv_ImportProject familyWorld ''p'' emptyScene)") auto
  have m: "0 \<in> set (sceneNodes ?sL)" by (simp add: f familyScene_facts)
  have w: "waitingParentId (nodes ?sL ! 0) = Some ''meshes/a''" by (simp add: f familyScene_facts)
  have g: "getNodeByID ?sL ''meshes/a'' = Some 1" by (simp add: f familyScene_facts)
  have i: "node_id (nodes ?sL ! 0) = ''meshes/b''" "node_id (nodes ?sL ! 1) = ''meshes/a''"
    by (simp_all add: f familyScene_facts)
  have ne: "''meshes/a'' \<noteq> []" by simp
  from waiting_parent_linked [OF wf familyWorld_facts(2) r m w ne] g
  have "parent (nodes (snd (priv_ImportProject familyWorld ''p'' emptyScene)) ! 0) = Some 1"
    and "waitingParentId (nodes (snd (priv_ImportProject familyWorld ''p'' emptyScene)) ! 0) = None"
    by (simp_all add: orElse_def)
  with wf familyWorld_facts(2) familyProject_lists(1) r m i w g show ?thesis by simp
qed

text \<open>
  C4, as stated, fails: \<open>orphanWorld\<close> is \<open>familyWorld\<close> without its cache file. The child
  \<open>b\<close> and its parent \<open>a\<close> are both loaded, the cache load throws before the parent pass, and
  the child ends the import without a parent, its waiting parent id still on it.
\<close>

theorem parent_not_linked_without_cache:
  "projectFile orphanWorld ''p'' = Some familyProject
   \<and> p_meshes familyProject = [''b'', ''a'']
   \<and> 0 \<in> set (sceneNodes (entitiesLoaded orphanWorld ''p'' familyProject emptyScene))
   \<and> waitingParentId (nodes (entitiesLoaded orphanWorld ''p'' familyProject emptyScene) ! 0)
       = Some ''meshes/a''
   \<and> getNodeByID (entitiesLoaded orphanWorld ''p'' familyProject emptyScene) ''meshes/a'' = Some 1
   \<and> fst (priv_ImportProject orphanWorld ''p'' emptyScene) = Throws
   \<and> parent (nodes (snd (priv_ImportProject orphanWorld ''p'' emptyScene)) ! 0) = None
   \<and> waitingParentId (nodes (snd (priv_ImportProject orphanWorld ''p'' emptyScene)) ! 0)
       = Some ''meshes/a''"
proof -
  let ?sL = "entitiesLoaded orphanWorld ''p'' familyProject emptyScene"
  let ?s' = "snd (priv_ImportProject orphanWorld ''p'' emptyScene)"
  have sc: "sceneOf ?sL = sceneOf familyScene"
    by (rule family_entities) (rule orphanWorld_facts)+
  note f = sceneOf_facts[OF sc] sceneOf_lookups(1)[OF sc]
  have run: "priv_ImportProject orphanWorld ''p'' emptyScene
      = finishImport orphanWorld ''d/'' familyProject ?sL"
    using priv_ImportProject_success[of orphanWorld "''p''" familyProject emptyScene,
        OF orphanWorld_facts(1,2)]
    by (simp add: entitiesLoaded_def orphanWorld_facts(3))
  have r: "fst (priv_ImportProject orphanWorld ''p'' emptyScene) = Throws"
    using priv_ImportProject_Throws[of orphanWorld "''p''" emptyScene]
      orphanWorld_facts(2,5) by simp
  have "sceneOf ?s' = sceneOf ?sL"
    unfolding run using finishImport_scene[of orphanWorld "''d/''" familyProject ?sL]
      orphanWorld_facts(5) by simp
  then have n: "nodes ?s' = nodes familyScene" using sc by (simp add: sceneOf_def)
  show ?thesis
    using orphanWorld_facts(2) familyProject_lists(1) r
    by (simp add: n f familyScene_facts)
qed

section \<open>No waiting parent id is left\<close>








section \<open>What the loops leave of the scene and of the textures\<close>

lemma progressValues_append [simp]:
  "progressValues (xs @ ys) = progressValues xs @ progressValues ys"
  by (induction xs rule: progressValues.induct) simp_all

lemma errorsOf_append [simp]: "errorsOf (xs @ ys) = errorsOf xs @ errorsOf ys"
  by (induction xs rule: errorsOf.induct) simp_all

lemma startImport_progress:
  assumes "startImport E path s = (Returns (dir, project), s1)"
  shows "spinnerValue s1 = 0" and "textures s1 = textures s"
    and "events s1 = events s @ [Overlay_Show ''Importing Project...'', Overlay_SetSpinnervalue 0]"
proof -
  have keep: "\<And>dir project fs s0.
      spinnerValue (configureAssets E dir project (registerFiles E dir fs s0)) = spinnerValue s0
      \<and> textures (configureAssets E dir project (registerFiles E dir fs s0)) = textures s0
      \<and> events (configureAssets E dir project (registerFiles E dir fs s0)) = events s0"
  proof -
    fix dir project fs s0
    have r: "\<And>s1. spinnerValue (fold (\<lambda>f st. let path = join E [dir, ''files'', f]
                   in st\<lparr>FilesStore_List := (FilesStore_List st)(path \<mapsto> (path, basename E f))\<rparr>)
          fs s1) = spinnerValue s1
       \<and> textures (fold (\<lambda>f st. let path = join E [dir, ''files'', f]
                   in st\<lparr>FilesStore_List := (FilesStore_List st)(path \<mapsto> (path, basename E f))\<rparr>)
          fs s1) = textures s1
       \<and> events (fold (\<lambda>f st. let path = join E [dir, ''files'', f]
                   in st\<lparr>FilesStore_List := (FilesStore_List st)(path \<mapsto> (path, basename E f))\<rparr>)
          fs s1) = events s1"
      by (induction fs) (simp_all add: Let_def)
    show "spinnerValue (configureAssets E dir project (registerFiles E dir fs s0)) = spinnerValue s0
      \<and> textures (configureAssets E dir project (registerFiles E dir fs s0)) = textures s0
      \<and> events (configureAssets E dir project (registerFiles E dir fs s0)) = events s0"
      using r[of s0]
      by (simp add: configureAssets_def registerFiles_def Let_def split: option.split)
  qed
  from assms show "spinnerValue s1 = 0" and "textures s1 = textures s"
    and "events s1 = events s @ [Overlay_Show ''Importing Project...'', Overlay_SetSpinnervalue 0]"
    by (auto simp: startImport_def Let_def keep split: option.splits outcome.splits)
qed

lemma textureStep_cases:
  "textureStep E dir d t s =
     (case textureFile E (join E [dir, ''textures'', t]) of
        None \<Rightarrow> advanceSpinner d (logError (FailedTexture t) s)
      | Some source \<Rightarrow>
          (case getTextureByUniqueID s (src_uniqueId source) of
             Some existing \<Rightarrow> s
           | None \<Rightarrow>
               (case Texture_Parse E source of
                  Throws \<Rightarrow> advanceSpinner d (logError (FailedTexture t) s)
                | Returns None \<Rightarrow> advanceSpinner d (logInfo (ParsedTexture t) s)
                | Returns (Some tex) \<Rightarrow>
                    advanceSpinner d
                      (logInfo (ParsedTexture t) (s\<lparr>textures := textures s @ [tex]\<rparr>)))))"
  by (simp add: textureStep_def textureBody_def parseTexture_def
        split: option.split outcome.split)

text \<open>Neither the material loop nor the texture loop adds, removes or renames a node.\<close>

lemma sceneOf_parseTexture: "sceneOf (snd (parseTexture E src s)) = sceneOf s"
  by (simp add: parseTexture_def sceneOf_def split: outcome.split option.split)

lemma sceneOf_TextureParser: "sceneOf (snd (SerializationHelper_TextureParser E src s)) = sceneOf s"
  by (simp add: SerializationHelper_TextureParser_def hookedTextureParser_def
        sceneOf_parseTexture split: option.split)

lemma sceneOf_parsePayloadTextures: "sceneOf (snd (parsePayloadTextures E srcs s)) = sceneOf s"
proof (induction srcs arbitrary: s)
  case Nil
  show ?case by simp
next
  case (Cons src srcs)
  obtain r s1 where p: "SerializationHelper_TextureParser E src s = (r, s1)"
    by (cases "SerializationHelper_TextureParser E src s")
  have "sceneOf s1 = sceneOf s" using sceneOf_TextureParser[of E src s] p by simp
  then show ?case using p Cons.IH[of s1] by (cases r) simp_all
qed

lemma sceneOf_installMaterial: "sceneOf (snd (installMaterial created s)) = sceneOf s"
  by (cases created) (simp_all add: installMaterial_def sceneOf_def)

lemma sceneOf_parseMaterial: "sceneOf (snd (parseMaterial E m json s)) = sceneOf s"
proof -
  have b: "\<And>created srcs.
      sceneOf (snd (parsePayloadTextures E srcs (snd (installMaterial created s)))) = sceneOf s"
    by (simp add: sceneOf_parsePayloadTextures sceneOf_installMaterial)
  show ?thesis
  proof (cases "isMultiMaterial m")
    case True
    then show ?thesis using sceneOf_installMaterial[of _ s]
      by (auto simp: parseMaterial_def split: outcome.split prod.split)
         (metis snd_conv)
  next
    case False
    show ?thesis
    proof (cases "Material_Parse E json")
      case Throws
      with False show ?thesis by (simp add: parseMaterial_def)
    next
      case (Returns created)
      show ?thesis
      proof (cases created)
        case None
        with False Returns show ?thesis by (simp add: parseMaterial_def)
      next
        case (Some body)
        obtain mat s1 where im: "installMaterial (Some body) s = (mat, s1)"
          by (cases "installMaterial (Some body) s")
        obtain r s2 where pp: "parsePayloadTextures E (mat_textures json) s1 = (r, s2)"
          by (cases "parsePayloadTextures E (mat_textures json) s1")
        have "sceneOf s2 = sceneOf s" using b[of "mat_textures json" "Some body"] im pp by simp
        then show ?thesis using False Returns Some im pp
          by (cases r) (simp_all add: parseMaterial_def)
      qed
    qed
  qed
qed


lemma sameIndex_bindMesh: "sameIndex s (bindMesh mat mj bm s)"
  by (auto simp: bindMesh_def sameIndex_def node_id_update split: option.split)

lemma sameIndex_bindMeshes: "sameIndex s (bindMeshes mat mj bms s)"
proof (induction bms arbitrary: s)
  case Nil
  show ?case by (simp add: sameIndex_refl)
next
  case (Cons bm bms)
  show ?case using sameIndex_trans[OF sameIndex_bindMesh Cons.IH] by simp
qed

lemma sameIndex_emit: "sameIndex s s1 \<Longrightarrow> sameIndex s (emit e s1)"
  by (simp add: sameIndex_def)

lemma sameIndex_advanceSpinner: "sameIndex s s1 \<Longrightarrow> sameIndex s (advanceSpinner d s1)"
  by (simp add: sameIndex_def)

lemma sameIndex_materialStep: "sameIndex s (materialStep E dir d m s)"
proof -
  have p: "\<And>json r s1. parseMaterial E m json s = (r, s1) \<Longrightarrow> sameIndex s s1"
    using sceneOf_parseMaterial sceneOf_sameIndex by (metis snd_conv)
  have "sameIndex s (snd (materialBody E dir m s))"
    by (auto simp: materialBody_def sameIndex_refl split: option.split outcome.split prod.split
          intro!: sameIndex_trans[OF _ sameIndex_bindMeshes] sameIndex_emit dest: p)
  then show ?thesis
    by (cases "materialBody E dir m s")
       (auto simp: materialStep_def split: outcome.split
          intro!: sameIndex_advanceSpinner sameIndex_emit)
qed

lemma sameIndex_loadMaterials: "sameIndex s (loadMaterials E dir d ms s)"
proof (induction ms arbitrary: s)
  case Nil
  show ?case by (simp add: sameIndex_refl)
next
  case (Cons m ms)
  show ?case using sameIndex_trans[OF sameIndex_materialStep Cons.IH] by simp
qed

lemma sceneOf_loadTextures: "sceneOf (loadTextures E dir d ts s) = sceneOf s"
proof (induction ts arbitrary: s)
  case Nil
  show ?case by simp
next
  case (Cons t ts)
  have "sceneOf (textureStep E dir d t s) = sceneOf s"
    by (simp add: textureStep_cases sceneOf_def split: option.split outcome.split)
  with Cons.IH show ?case by simp
qed

text \<open>A manifest without meshes, transform nodes, lights and cameras brings no node.\<close>

lemma loadEntities_no_nodes:
  assumes "p_meshes project = []" "p_transformNodes project = None" "p_lights project = []"
    "p_cameras project = []" "physicsEngine E = None"
  shows "sameIndex s (loadEntities E dir project s)"
proof -
  let ?d = "spinnerStepOf project"
  let ?s3 = "emit (Overlay_SetMessage ''Creating Materials...'')
      (emit (Overlay_SetMessage ''Creating Transform Nodes'')
         (emit (Overlay_SetMessage ''Creating Meshes...'') s))"
  let ?s4 = "loadMaterials E dir ?d (p_materials project) ?s3"
  let ?s5 = "loadTextures E dir ?d (p_textures project)
      (emit (Overlay_SetMessage ''Creating Textures...'') ?s4)"
  have a: "loadEntities E dir project s =
      emit (Overlay_SetMessage ''Creating Cameras...'')
        (emit (Overlay_SetMessage ''Creating Lights...'') ?s5)"
    by (simp add: loadEntities_def Let_def assms retrieveImpostors_def)
  have "sameIndex s ?s3" by (simp add: sameIndex_def)
  then have "sameIndex s ?s4" using sameIndex_loadMaterials sameIndex_trans by blast
  then have "sameIndex s (emit (Overlay_SetMessage ''Creating Textures...'') ?s4)"
    by (rule sameIndex_emit)
  moreover have "sameIndex (emit (Overlay_SetMessage ''Creating Textures...'') ?s4) ?s5"
    by (rule sceneOf_sameIndex) (simp add: sceneOf_loadTextures)
  ultimately have "sameIndex s ?s5" by (rule sameIndex_trans)
  then show ?thesis unfolding a by (intro sameIndex_emit)
qed

lemma import_returns_no_nodes:
  assumes "\<not> startFails E path" "projectFile E path = Some project"
    "\<not> finishFails E (dirname E path @ ''/'') project"
    "p_meshes project = []" "p_transformNodes project = None" "p_lights project = []"
    "p_cameras project = []" "physicsEngine E = None" "sceneNodes s = []"
  shows "fst (priv_ImportProject E path s) = Returns ()"
proof -
  let ?sL = "entitiesLoaded E path project s"
  have "sameIndex (snd (startImport E path s)) ?sL"
    unfolding entitiesLoaded_def by (rule loadEntities_no_nodes[OF assms(4-8)])
  moreover have "sameIndex s (snd (startImport E path s))"
    by (rule sceneOf_sameIndex) (rule sceneOf_startImport_fields)
  ultimately have "sameIndex s ?sL" using sameIndex_trans by blast
  then have "sceneNodes ?sL = []" using assms(9) by (simp add: sameIndex_def sceneNodes_def)
  then have "allDangling ?sL" by (simp add: allDangling_def)
  then have "fst (linkParents ?sL) = Returns ()" by (rule linkParents_dangling)
  then have "fst (priv_ImportProject E path s) \<noteq> Throws"
    using priv_ImportProject_Throws[of E path s] assms(1,2,3) by auto
  then show ?thesis by (cases "fst (priv_ImportProject E path s)") auto
qed

text \<open>
  The loops before the material loop, the loops after the texture loop and the end of the
  import create no texture.
\<close>

lemma textures_setWaitingIds: "textures (snd (setWaitingIds hs ps s)) = textures s"
  by (induction hs ps s rule: setWaitingIds.induct) simp_all

lemma textures_lodBody: "textures (snd (lodBody E name hs l s)) = textures s"
  by (simp add: lodBody_def Let_def split: outcome.split list.split option.split)

lemma textures_importLods: "textures (snd (importLods E name hs ls s)) = textures s"
proof (induction ls arbitrary: s)
  case Nil
  show ?case by simp
next
  case (Cons l ls)
  obtain r s1 where b: "lodBody E name hs l s = (r, s1)" by (cases "lodBody E name hs l s")
  have t1: "textures s1 = textures s" using textures_lodBody[of E name hs l s] b by simp
  show ?case using b t1 Cons.IH
    by (cases r; cases hs) simp_all
qed

lemma textures_ImportMesh: "textures (snd (ImportMesh E name json rootUrl filename s)) = textures s"
proof (cases "ImportMeshAsync E rootUrl filename")
  case Throws
  then show ?thesis by (simp add: ImportMesh_def)
next
  case (Returns loaded)
  let ?s1 = "logInfo (ParsedMesh name) (addMeshes loaded s)"
  obtain r s2 where w: "setWaitingIds (newHandles s loaded) (mf_meshes json) ?s1 = (r, s2)"
    by (cases "setWaitingIds (newHandles s loaded) (mf_meshes json) ?s1")
  have t2: "textures s2 = textures s"
    using textures_setWaitingIds[of "newHandles s loaded" "mf_meshes json" ?s1] w by simp
  show ?thesis
    using Returns w t2
    by (simp add: ImportMesh_def Let_def textures_importLods split: outcome.split option.split)
qed

lemma textures_loadMeshes: "textures (loadMeshes E dir d ms s) = textures s"
proof (induction ms arbitrary: s)
  case Nil
  show ?case by simp
next
  case (Cons m ms)
  have "textures (snd (meshBody E dir m s)) = textures s"
    by (simp add: meshBody_def textures_ImportMesh split: option.split)
  then have "textures (meshStep E dir d m s) = textures s"
    by (cases "meshBody E dir m s") (simp add: meshStep_def split: outcome.split)
  with Cons.IH show ?case by simp
qed

lemma textures_loadTransformNodes: "textures (loadTransformNodes E dir ts s) = textures s"
proof (induction ts arbitrary: s)
  case Nil
  show ?case by simp
next
  case (Cons t ts)
  have "textures (transformStep E dir t s) = textures s"
    by (simp add: transformStep_def transformBody_def split: option.split outcome.split)
  with Cons.IH show ?case by simp
qed

lemma textures_retrieveImpostors: "textures (retrieveImpostors E s) = textures s"
proof -
  have "\<And>g hs s. textures (fold (impostorStep g) hs s) = textures s"
  proof -
    fix g hs s show "textures (fold (impostorStep g) hs s) = textures s"
      by (induction hs arbitrary: s) (simp_all add: impostorStep_def split: outcome.split)
  qed
  then show ?thesis by (simp add: retrieveImpostors_def split: option.split)
qed

lemma textures_bindMeshes: "textures (bindMeshes mat mj bms s) = textures s"
  by (induction bms arbitrary: s) (simp_all add: bindMesh_def split: option.split)

lemma textures_loadLights: "textures (loadLights E dir d ls s) = textures s"
proof (induction ls arbitrary: s)
  case Nil
  show ?case by simp
next
  case (Cons l ls)
  have sh: "\<And>s1. textures (snd (shadowBody E dir l s1)) = textures s1"
    by (simp add: shadowBody_def split: option.split outcome.split)
  have "textures (snd (lightBody E dir l s)) = textures s"
    by (simp add: lightBody_def sh split: option.split outcome.split)
  then have "textures (lightStep E dir d l s) = textures s"
    by (cases "lightBody E dir l s") (simp add: lightStep_def split: outcome.split)
  with Cons.IH show ?case by simp
qed

lemma textures_loadCameras: "textures (loadCameras E dir d cs s) = textures s"
proof (induction cs arbitrary: s)
  case Nil
  show ?case by simp
next
  case (Cons c cs)
  have "textures (snd (cameraBody E dir c s)) = textures s"
    by (simp add: cameraBody_def split: option.split outcome.split)
  then have "textures (cameraStep E dir d c s) = textures s"
    by (cases "cameraBody E dir c s") (simp add: cameraStep_def split: outcome.split)
  with Cons.IH show ?case by simp
qed

lemma startImport_textures: "textures (snd (startImport E path s)) = textures s"
proof -
  have r: "\<And>dir fs s1. textures (registerFiles E dir fs s1) = textures s1"
  proof -
    fix dir fs s1
    have "\<And>s2. textures (fold (\<lambda>f st. let path = join E [dir, ''files'', f]
                   in st\<lparr>FilesStore_List := (FilesStore_List st)(path \<mapsto> (path, basename E f))\<rparr>)
          fs s2) = textures s2"
      by (induction fs) (simp_all add: Let_def)
    then show "textures (registerFiles E dir fs s1) = textures s1"
      by (simp add: registerFiles_def)
  qed
  have c: "\<And>dir project s1. textures (configureAssets E dir project s1) = textures s1"
    by (simp add: configureAssets_def Let_def split: option.split)
  show ?thesis
    by (simp add: startImport_def Let_def r c split: option.split outcome.split)
qed

lemma textures_beforeMaterials:
  "textures (beforeMaterials E dir project s0) = textures s0"
  by (simp add: beforeMaterials_def meshesLoaded_def textures_retrieveImpostors
        textures_loadTransformNodes textures_loadMeshes)

lemma hooked_beforeMaterials:
  assumes "startImport E path s = (Returns (dir, project), s0)"
  shows "textureParserHooked (beforeMaterials E dir project s0)"
proof -
  have h0: "textureParserHooked s0" using startImport_hooked[of E path s] assms by simp
  have "evolves s0 (beforeMaterials E dir project s0)"
    unfolding beforeMaterials_def meshesLoaded_def
    by (intro evolves_emit evolves_trans[OF _ evolves_retrieveImpostors]
          evolves_trans[OF _ evolves_loadTransformNodes] evolves_trans[OF _ evolves_loadMeshes]
          evolves_refl)
  with h0 show ?thesis by (simp add: evolves_def)
qed

lemma textures_import:
  assumes "startImport E path s = (Returns (dir, project), s0)"
  shows "textures (snd (priv_ImportProject E path s)) = textures (texturesLoaded E dir project s0)"
  unfolding import_run[OF assms]
  using finishImport_quiet[of E dir project "loadEntities E dir project s0"]
  by (simp add: loadEntities_phases textures_loadCameras textures_loadLights)

text \<open>The events of the import extend those of each state between the loops.\<close>

lemma events_after_texturesLoaded:
  assumes "startImport E path s = (Returns (dir, project), s0)"
  shows "\<exists>c. events (snd (priv_ImportProject E path s))
           = events (texturesLoaded E dir project s0) @ c"
proof -
  have "evolves (texturesLoaded E dir project s0) (loadEntities E dir project s0)"
    unfolding loadEntities_phases
    by (intro evolves_trans[OF _ evolves_loadCameras] evolves_emit
          evolves_trans[OF _ evolves_loadLights] evolves_refl)
  from evolves_trans[OF this evolves_finishImport]
  show ?thesis unfolding import_run[OF assms] by (simp add: evolves_def)
qed

lemma events_after_materialsLoaded:
  assumes "startImport E path s = (Returns (dir, project), s0)"
  shows "\<exists>c. events (snd (priv_ImportProject E path s))
           = events (materialsLoaded E dir project s0) @ c"
proof -
  have "evolves (materialsLoaded E dir project s0) (texturesLoaded E dir project s0)"
    unfolding texturesLoaded_def beforeTextures_def
    by (intro evolves_trans[OF _ evolves_loadTextures] evolves_emit evolves_refl)
  then obtain a where a: "events (texturesLoaded E dir project s0)
      = events (materialsLoaded E dir project s0) @ a" by (auto simp: evolves_def)
  from events_after_texturesLoaded[OF assms] obtain c where
    "events (snd (priv_ImportProject E path s)) = events (texturesLoaded E dir project s0) @ c"
    by blast
  with a show ?thesis by simp
qed

section \<open>Counting textures\<close>

lemma bounded_refl [simp]: "bounded c s s"
  by (simp add: bounded_def)

lemma bounded_trans: "bounded c s s1 \<Longrightarrow> bounded c s1 s2 \<Longrightarrow> bounded c s s2"
  by (auto simp: bounded_def)

lemma bounded_same: "c s1 = c s \<Longrightarrow> bounded c s s1"
  by (simp add: bounded_def)

lemma bounded_first: "c s = 0 \<Longrightarrow> c s1 = 1 \<Longrightarrow> bounded c s s1"
  by (simp add: bounded_def)

lemma count_positive: "t \<in> set xs \<Longrightarrow> P t \<Longrightarrow> 1 \<le> length (filter P xs)"
proof -
  assume "t \<in> set xs" "P t"
  then have "filter P xs \<noteq> []" by (auto simp: filter_empty_conv)
  then show ?thesis by (cases "filter P xs") simp_all
qed

lemma count_zero: "(\<forall>t \<in> set xs. \<not> P t) \<Longrightarrow> length (filter P xs) = 0"
  by (simp add: filter_empty_conv)

lemma findIndex_Some:
  "findIndex P xs = Some i \<Longrightarrow> i < length xs \<and> P (xs ! i) \<and> (\<forall>j<i. \<not> P (xs ! j))"
proof (induction xs arbitrary: i)
  case Nil
  then show ?case by simp
next
  case (Cons x xs)
  show ?case
  proof (cases "P x")
    case True
    with Cons.prems show ?thesis by simp
  next
    case False
    with Cons.prems obtain k where k: "findIndex P xs = Some k" "i = Suc k" by auto
    from Cons.IH[OF k(1)] False k(2) show ?thesis by (auto simp: less_Suc_eq_0_disj)
  qed
qed

lemma findIndex_None: "(findIndex P xs = None) = (\<forall>x \<in> set xs. \<not> P x)"
  by (induction xs) auto


section \<open>The installed texture parser\<close>

lemma nameCount_same: "textures s1 = textures s \<Longrightarrow> nameCount e s1 = nameCount e s"
  by (simp add: nameCount_def)

lemma nameCount_mono: "evolves s s1 \<Longrightarrow> nameCount e s \<le> nameCount e s1"
  by (auto simp: evolves_def nameCount_def)

text \<open>What the installed parser does to the number of textures of one editor name.\<close>

lemma TextureParser_names:
  assumes "givesName E e" and "e \<noteq> []" and "textureParserHooked s"
  shows "bounded (nameCount e) s (snd (SerializationHelper_TextureParser E src s))
     \<and> (src_editorName src = Some e
           \<and> (case Texture_Parse E src of Returns (Some tex) \<Rightarrow> True | _ \<Rightarrow> False)
         \<longrightarrow> 1 \<le> nameCount e (snd (SerializationHelper_TextureParser E src s)))"
proof -
  let ?P = "\<lambda>t. editorName t = src_editorName src"
  have parse: "(\<forall>t \<in> set (textures s). \<not> ?P t) \<or> \<not> truthy (src_editorName src) \<Longrightarrow>
      bounded (nameCount e) s (snd (parseTexture E src s))
      \<and> (src_editorName src = Some e
            \<and> (case Texture_Parse E src of Returns (Some tex) \<Rightarrow> True | _ \<Rightarrow> False)
          \<longrightarrow> 1 \<le> nameCount e (snd (parseTexture E src s)))"
  proof -
    assume free: "(\<forall>t \<in> set (textures s). \<not> ?P t) \<or> \<not> truthy (src_editorName src)"
    show ?thesis
    proof (cases "Texture_Parse E src")
      case Throws
      then show ?thesis by (simp add: parseTexture_def)
    next
      case (Returns created)
      show ?thesis
      proof (cases created)
        case None
        with Returns show ?thesis by (simp add: parseTexture_def)
      next
        case (Some tex)
        have nm: "(editorName tex = Some e) = (src_editorName src = Some e)"
          using assms(1) Returns Some by (simp add: givesName_def)
        have st: "snd (parseTexture E src s) = s\<lparr>textures := textures s @ [tex]\<rparr>"
          using Returns Some by (simp add: parseTexture_def)
        show ?thesis
        proof (cases "src_editorName src = Some e")
          case True
          then have "truthy (src_editorName src)" using assms(2) by (simp add: truthy_def)
          with free True have "\<forall>t \<in> set (textures s). editorName t \<noteq> Some e" by simp
          then have z: "nameCount e s = 0" by (simp add: nameCount_def filter_empty_conv)
          have "nameCount e (snd (parseTexture E src s)) = 1"
            unfolding st using z nm True by (simp add: nameCount_def)
          with z show ?thesis by (simp add: bounded_def)
        next
          case False
          then have "nameCount e (snd (parseTexture E src s)) = nameCount e s"
            unfolding st using nm by (simp add: nameCount_def)
          with False show ?thesis by (simp add: bounded_def)
        qed
      qed
    qed
  qed
  show ?thesis
  proof (cases "truthy (src_editorName src)")
    case False
    then have "SerializationHelper_TextureParser E src s = parseTexture E src s"
      by (simp add: SerializationHelper_TextureParser_def hookedTextureParser_def)
    then show ?thesis using parse False by simp
  next
    case True
    show ?thesis
    proof (cases "findIndex ?P (textures s)")
      case None
      then have "\<forall>t \<in> set (textures s). \<not> ?P t" by (simp add: findIndex_None)
      moreover have "SerializationHelper_TextureParser E src s = parseTexture E src s"
        using True None
        by (simp add: SerializationHelper_TextureParser_def hookedTextureParser_def)
      ultimately show ?thesis using parse by simp
    next
      case (Some i)
      have st: "snd (SerializationHelper_TextureParser E src s) = s"
        using True Some assms(3)
        by (simp add: SerializationHelper_TextureParser_def hookedTextureParser_def)
      from findIndex_Some[OF Some] have "textures s ! i \<in> set (textures s)" "?P (textures s ! i)"
        by simp_all
      then have "src_editorName src = Some e \<Longrightarrow> 1 \<le> nameCount e s"
        unfolding nameCount_def by (intro count_positive[of "textures s ! i"]) simp_all
      then show ?thesis unfolding st by simp
    qed
  qed
qed

lemma hooked_TextureParser:
  "textureParserHooked s \<Longrightarrow> textureParserHooked (snd (SerializationHelper_TextureParser E src s))"
  using evolves_TextureParser[of s E src] by (simp add: evolves_def)

lemma payload_names:
  assumes "givesName E e" and "e \<noteq> []"
  shows "textureParserHooked s \<Longrightarrow>
     bounded (nameCount e) s (snd (parsePayloadTextures E srcs s))
     \<and> ((case srcs of
            [] \<Rightarrow> False
          | src # rest \<Rightarrow> src_editorName src = Some e
              \<and> (case Texture_Parse E src of Returns (Some tex) \<Rightarrow> True | _ \<Rightarrow> False))
         \<longrightarrow> 1 \<le> nameCount e (snd (parsePayloadTextures E srcs s)))"
proof (induction srcs arbitrary: s)
  case Nil
  show ?case by simp
next
  case (Cons src srcs)
  obtain r s1 where p: "SerializationHelper_TextureParser E src s = (r, s1)"
    by (cases "SerializationHelper_TextureParser E src s")
  note tp = TextureParser_names[OF assms Cons.prems, of src, unfolded p snd_conv]
  have h1: "textureParserHooked s1" using hooked_TextureParser[OF Cons.prems, of E src] p by simp
  have rest: "bounded (nameCount e) s1 (snd (parsePayloadTextures E srcs s1))"
    using Cons.IH[OF h1] by simp
  have mono: "nameCount e s1 \<le> nameCount e (snd (parsePayloadTextures E srcs s1))"
    using rest by (simp add: bounded_def)
  show ?case
  proof (cases r)
    case Throws
    with p tp show ?thesis by simp
  next
    case (Returns t)
    have "snd (parsePayloadTextures E (src # srcs) s) = snd (parsePayloadTextures E srcs s1)"
      using p Returns by simp
    then show ?thesis using tp rest mono bounded_trans[of "nameCount e" s s1] by auto
  qed
qed

lemma nameCount_installMaterial:
  "installMaterial created s = (mat, s1) \<Longrightarrow>
     nameCount e s1 = nameCount e s \<and> textureParserHooked s1 = textureParserHooked s"
  by (cases created) (auto simp: installMaterial_def nameCount_def)

lemma parseMaterial_names:
  assumes "givesName E e" and "e \<noteq> []" and "textureParserHooked s"
  shows "bounded (nameCount e) s (snd (parseMaterial E m json s))
     \<and> (\<not> isMultiMaterial m
          \<and> (case Material_Parse E json of Returns (Some body) \<Rightarrow> True | _ \<Rightarrow> False)
          \<and> (case mat_textures json of
                [] \<Rightarrow> False
              | src # rest \<Rightarrow> src_editorName src = Some e
                  \<and> (case Texture_Parse E src of Returns (Some tex) \<Rightarrow> True | _ \<Rightarrow> False))
         \<longrightarrow> 1 \<le> nameCount e (snd (parseMaterial E m json s)))"
proof (cases "isMultiMaterial m")
  case True
  have "nameCount e (snd (parseMaterial E m json s)) = nameCount e s"
    using True nameCount_installMaterial[of _ s]
    by (auto simp: parseMaterial_def split: outcome.split prod.split)
  with True show ?thesis by (simp add: bounded_def)
next
  case False
  show ?thesis
  proof (cases "Material_Parse E json")
    case Throws
    with False show ?thesis by (simp add: parseMaterial_def)
  next
    case (Returns created)
    show ?thesis
    proof (cases created)
      case None
      with False Returns show ?thesis by (simp add: parseMaterial_def)
    next
      case (Some body)
      obtain mat s1 where im: "installMaterial (Some body) s = (mat, s1)"
        by (cases "installMaterial (Some body) s")
      from nameCount_installMaterial[OF im, of e] assms(3)
      have c1: "nameCount e s1 = nameCount e s" and h1: "textureParserHooked s1" by simp_all
      obtain r s2 where pp: "parsePayloadTextures E (mat_textures json) s1 = (r, s2)"
        by (cases "parsePayloadTextures E (mat_textures json) s1")
      have st: "snd (parseMaterial E m json s) = s2"
        using False Returns Some im pp by (cases r) (simp_all add: parseMaterial_def)
      from payload_names[OF assms(1,2) h1, of "mat_textures json"] pp
      show ?thesis unfolding st using c1 by (simp add: bounded_def)
    qed
  qed
qed

lemma materialStep_names:
  assumes "givesName E e" and "e \<noteq> []" and "textureParserHooked s"
  shows "bounded (nameCount e) s (materialStep E dir d m s)
     \<and> textureParserHooked (materialStep E dir d m s)
     \<and> (namedPayload E dir m e \<longrightarrow> 1 \<le> nameCount e (materialStep E dir d m s))"
proof -
  have hk: "textureParserHooked (materialStep E dir d m s)"
    using evolves_materialStep[of s E dir d m] assms(3) by (simp add: evolves_def)
  show ?thesis
  proof (cases "materialFile E (join E [dir, ''materials'', mat_json m])")
    case None
    then have "textures (materialStep E dir d m s) = textures s"
      by (simp add: materialStep_def materialBody_def)
    then have "nameCount e (materialStep E dir d m s) = nameCount e s" by (rule nameCount_same)
    with None hk show ?thesis by (simp add: bounded_def namedPayload_def)
  next
    case (Some json)
    obtain r s1 where pm: "parseMaterial E m json s = (r, s1)"
      by (cases "parseMaterial E m json s")
    have "textures (materialStep E dir d m s) = textures s1"
      using Some pm
      by (cases r) (simp_all add: materialStep_def materialBody_def textures_bindMeshes)
    then have c: "nameCount e (materialStep E dir d m s) = nameCount e s1" by (rule nameCount_same)
    from parseMaterial_names[OF assms, of m json] pm Some hk
    show ?thesis
      by (auto simp: c bounded_def namedPayload_def split: outcome.splits option.splits)
  qed
qed

lemma loadMaterials_names:
  assumes "givesName E e" and "e \<noteq> []"
  shows "textureParserHooked s \<Longrightarrow>
     bounded (nameCount e) s (loadMaterials E dir d ms s)
     \<and> ((\<exists>m \<in> set ms. namedPayload E dir m e) \<longrightarrow> 1 \<le> nameCount e (loadMaterials E dir d ms s))"
proof (induction ms arbitrary: s)
  case Nil
  show ?case by simp
next
  case (Cons m ms)
  let ?s1 = "materialStep E dir d m s"
  note st = materialStep_names[OF assms Cons.prems, of dir d m]
  from st have h1: "textureParserHooked ?s1" by simp
  note ih = Cons.IH[OF h1]
  have mono: "nameCount e ?s1 \<le> nameCount e (loadMaterials E dir d ms ?s1)"
    using ih by (simp add: bounded_def)
  from st ih mono bounded_trans[of "nameCount e" s ?s1] show ?case by auto
qed

text \<open>
  C9, as amended. Let the manifest be read, let \<open>e\<close> be a non-empty editor name, and let the
  engine's \<^verbatim>\<open>Texture.Parse\<close> give the editor name \<open>e\<close> to exactly the textures it creates
  from sources that carry \<open>e\<close>. The importer's parser is installed when the material loop
  starts. The material loop, whose payload textures go through that parser, keeps the
  textures of the editor name \<open>e\<close> it finds and never leaves more of them than one, unless
  there were more when it started; and it leaves at least one when some material of the
  manifest, which the engine parses, has as its first texture a parseable source that carries
  \<open>e\<close>.
  The parser itself: a source with a truthy editor name that a texture of the scene carries is
  answered by the first such texture, the scene is unchanged and the engine's parser is not
  run, whatever the unique ids are; any other source goes to the engine's parser. All this is
  part of the import: its events extend those of the end of the material loop.
\<close>

theorem editor_name_reuses_texture:
  assumes "startImport E path s = (Returns (dir, project), s0)"
    and "givesName E e" and "e \<noteq> []"
  shows "textureParserHooked (beforeMaterials E dir project s0)
     \<and> nameCount e (beforeMaterials E dir project s0)
         \<le> nameCount e (materialsLoaded E dir project s0)
     \<and> nameCount e (materialsLoaded E dir project s0)
         \<le> max 1 (nameCount e (beforeMaterials E dir project s0))
     \<and> ((\<exists>m \<in> set (p_materials project). namedPayload E dir m e)
          \<longrightarrow> 1 \<le> nameCount e (materialsLoaded E dir project s0))
     \<and> (textureParserHooked sx \<and> truthy (src_editorName source)
          \<and> (\<exists>t \<in> set (textures sx). editorName t = src_editorName source)
         \<longrightarrow> (\<exists>i. SerializationHelper_TextureParser E source sx = (Returns (Some i), sx)
                  \<and> i < length (textures sx)
                  \<and> editorName (textures sx ! i) = src_editorName source
                  \<and> (\<forall>j<i. editorName (textures sx ! j) \<noteq> src_editorName source)))
     \<and> (textureParserHooked sx
          \<and> \<not> (truthy (src_editorName source)
                \<and> (\<exists>t \<in> set (textures sx). editorName t = src_editorName source))
         \<longrightarrow> SerializationHelper_TextureParser E source sx = parseTexture E source sx)
     \<and> (\<exists>c. events (snd (priv_ImportProject E path s))
               = events (materialsLoaded E dir project s0) @ c)"
proof -
  let ?sB = "beforeMaterials E dir project s0"
  let ?sM = "materialsLoaded E dir project s0"
  have hk: "textureParserHooked ?sB" by (rule hooked_beforeMaterials[OF assms(1)])
  note lm = loadMaterials_names[OF assms(2,3) hk, of dir "spinnerStepOf project"
      "p_materials project", folded materialsLoaded_def]
  have ev: "\<exists>c. events (snd (priv_ImportProject E path s)) = events ?sM @ c"
    by (rule events_after_materialsLoaded[OF assms(1)])
  let ?P = "\<lambda>t. editorName t = src_editorName source"
  have found: "(\<exists>t \<in> set (textures sx). ?P t) \<Longrightarrow>
      \<exists>i. findIndex ?P (textures sx) = Some i \<and> i < length (textures sx)
          \<and> ?P (textures sx ! i) \<and> (\<forall>j<i. \<not> ?P (textures sx ! j))"
    using findIndex_None[of ?P "textures sx"] findIndex_Some[of ?P "textures sx"]
    by (cases "findIndex ?P (textures sx)") auto
  have none: "\<not> (\<exists>t \<in> set (textures sx). ?P t) \<Longrightarrow> findIndex ?P (textures sx) = None"
    using findIndex_None[of ?P "textures sx"] by simp
  have a: "textureParserHooked sx \<and> truthy (src_editorName source)
        \<and> (\<exists>t \<in> set (textures sx). ?P t)
       \<longrightarrow> (\<exists>i. SerializationHelper_TextureParser E source sx = (Returns (Some i), sx)
                \<and> i < length (textures sx) \<and> ?P (textures sx ! i)
                \<and> (\<forall>j<i. \<not> ?P (textures sx ! j)))"
  proof
    assume h: "textureParserHooked sx \<and> truthy (src_editorName source)
        \<and> (\<exists>t \<in> set (textures sx). ?P t)"
    then obtain i where i: "findIndex ?P (textures sx) = Some i" "i < length (textures sx)"
      "?P (textures sx ! i)" "\<forall>j<i. \<not> ?P (textures sx ! j)"
      using found by blast
    have "SerializationHelper_TextureParser E source sx = (Returns (Some i), sx)"
      using h i(1) by (simp add: SerializationHelper_TextureParser_def hookedTextureParser_def)
    with i show "\<exists>i. SerializationHelper_TextureParser E source sx = (Returns (Some i), sx)
                \<and> i < length (textures sx) \<and> ?P (textures sx ! i)
                \<and> (\<forall>j<i. \<not> ?P (textures sx ! j))"
      by blast
  qed
  have b: "textureParserHooked sx
        \<and> \<not> (truthy (src_editorName source) \<and> (\<exists>t \<in> set (textures sx). ?P t))
       \<longrightarrow> SerializationHelper_TextureParser E source sx = parseTexture E source sx"
    using none
    by (auto simp: SerializationHelper_TextureParser_def hookedTextureParser_def)
  from hk lm ev a b show ?thesis by (simp add: bounded_def)
qed

lemma parsingWorld_parse:
  "Texture_Parse parsingWorld src =
     (case src_uniqueId src of
        None \<Rightarrow> Throws
      | Some k \<Rightarrow> Returns (Some \<lparr>uniqueId = k, editorName = src_editorName src\<rparr>))"
  by (simp add: parsingWorld_def)

lemma woodPaintWorld_facts:
  "\<not> startFails woodPaintWorld path" "projectFile woodPaintWorld path = Some woodPaintProject"
  "dirname woodPaintWorld path = ''d''"
  "materialFile woodPaintWorld p = Some \<lparr>mat_body = ''{}'', mat_textures = [woodSource]\<rparr>"
  "Material_Parse woodPaintWorld j = Returns (Some ''paint'')"
  "Texture_Parse woodPaintWorld = Texture_Parse parsingWorld"
  by (simp_all add: startFails_def woodPaintWorld_def parsingWorld_def worldWithCache_def
        worldWithoutCache_def bareWorld_def)

lemma parsingWorld_givesName: "givesName parsingWorld e"
  by (auto simp: givesName_def parsingWorld_parse split: option.splits)

text \<open>
  Both materials of \<open>woodPaintProject\<close> have the serialized texture \<open>wood\<close> as their payload;
  the import starts from the empty scene; after the material loop the scene holds one texture
  \<open>wood\<close>. And on a scene that holds \<open>wood\<close>, the installed parser answers the serialized
  texture \<open>wood\<close>, of another unique id, with the texture of the scene.
\<close>

theorem editor_name_reuses_texture_witness:
  "startImport woodPaintWorld ''p'' emptyScene
     = (Returns (''d/'', woodPaintProject), snd (startImport woodPaintWorld ''p'' emptyScene))
   \<and> givesName woodPaintWorld ''wood''
   \<and> length (p_materials woodPaintProject) = 2
   \<and> list_all (\<lambda>m. namedPayload woodPaintWorld ''d/'' m ''wood'') (p_materials woodPaintProject)
   \<and> nameCount ''wood'' (beforeMaterials woodPaintWorld ''d/'' woodPaintProject
                            (snd (startImport woodPaintWorld ''p'' emptyScene))) = 0
   \<and> nameCount ''wood'' (materialsLoaded woodPaintWorld ''d/'' woodPaintProject
                            (snd (startImport woodPaintWorld ''p'' emptyScene))) = 1
   \<and> textureParserHooked (woodScene\<lparr>textureParserHooked := True\<rparr>)
   \<and> truthy (src_editorName woodSource)
   \<and> editorName (textures (woodScene\<lparr>textureParserHooked := True\<rparr>) ! 0)
       = src_editorName woodSource
   \<and> uniqueId (textures (woodScene\<lparr>textureParserHooked := True\<rparr>) ! 0) = 3
   \<and> src_uniqueId woodSource = Some 9
   \<and> SerializationHelper_TextureParser woodPaintWorld woodSource
         (woodScene\<lparr>textureParserHooked := True\<rparr>)
       = (Returns (Some 0), woodScene\<lparr>textureParserHooked := True\<rparr>)"
proof -
  let ?sx = "woodScene\<lparr>textureParserHooked := True\<rparr>"
  have st: "startImport woodPaintWorld ''p'' emptyScene
     = (Returns (''d/'', woodPaintProject), snd (startImport woodPaintWorld ''p'' emptyScene))"
    using startImport_success[of woodPaintWorld "''p''" woodPaintProject emptyScene,
        OF woodPaintWorld_facts(1,2)]
    by (simp add: woodPaintWorld_facts)
  have gn: "givesName woodPaintWorld ''wood''"
    using parsingWorld_givesName[of "''wood''"]
    by (simp add: givesName_def woodPaintWorld_facts(6))
  have ne: "''wood'' \<noteq> []" by simp
  have pm: "length (p_materials woodPaintProject) = 2"
    by (simp add: woodPaintProject_def bareProject_def)
  have np: "list_all (\<lambda>m. namedPayload woodPaintWorld ''d/'' m ''wood'') (p_materials woodPaintProject)"
    by (simp add: woodPaintProject_def bareProject_def namedPayload_def woodPaintWorld_facts
          parsingWorld_parse woodSource_def)
  then have ex: "\<exists>m \<in> set (p_materials woodPaintProject). namedPayload woodPaintWorld ''d/'' m ''wood''"
    by (simp add: woodPaintProject_def bareProject_def)
  have "textures (beforeMaterials woodPaintWorld ''d/'' woodPaintProject
      (snd (startImport woodPaintWorld ''p'' emptyScene))) = []"
    by (simp add: textures_beforeMaterials startImport_textures) (simp add: emptyScene_def)
  then have z: "nameCount ''wood'' (beforeMaterials woodPaintWorld ''d/'' woodPaintProject
      (snd (startImport woodPaintWorld ''p'' emptyScene))) = 0"
    by (simp add: nameCount_def)
  have f: "textureParserHooked ?sx" "truthy (src_editorName woodSource)"
    "editorName (textures ?sx ! 0) = src_editorName woodSource"
    "uniqueId (textures ?sx ! 0) = 3" "src_uniqueId woodSource = Some 9"
    "length (textures ?sx) = 1"
    by (simp_all add: woodScene_def woodSource_def emptyScene_def truthy_def)
  have ext: "\<exists>t \<in> set (textures ?sx). editorName t = src_editorName woodSource"
    by (simp add: woodScene_def woodSource_def emptyScene_def)
  note th = editor_name_reuses_texture [OF st gn ne, of ?sx woodSource]
  from th ex z
  have one: "nameCount ''wood'' (materialsLoaded woodPaintWorld ''d/'' woodPaintProject
                            (snd (startImport woodPaintWorld ''p'' emptyScene))) = 1"
    by simp
  from th f(1,2) ext
  obtain i where "SerializationHelper_TextureParser woodPaintWorld woodSource ?sx
       = (Returns (Some i), ?sx)" "i < length (textures ?sx)"
    by blast
  then have hook: "SerializationHelper_TextureParser woodPaintWorld woodSource ?sx
       = (Returns (Some 0), ?sx)" using f(6) by simp
  from st gn pm np z one f(1-5) hook show ?thesis by simp
qed

lemma woodListWorld_facts:
  "\<not> startFails woodListWorld path" "projectFile woodListWorld path = Some woodListProject"
  "dirname woodListWorld path = ''d''" "physicsEngine woodListWorld = None"
  "\<not> finishFails woodListWorld dir woodListProject"
  "textureFile woodListWorld p = Some woodSource"
  "Texture_Parse woodListWorld = Texture_Parse parsingWorld"
  by (simp_all add: startFails_def finishFails_def postProcessFails_def woodListWorld_def
        parsingWorld_def worldWithCache_def worldWithoutCache_def bareWorld_def
        woodListProject_def bareProject_def)

lemma woodListProject_lists:
  "p_meshes woodListProject = []" "p_transformNodes woodListProject = None"
  "p_materials woodListProject = []" "p_textures woodListProject = [''w.json'']"
  "p_lights woodListProject = []" "p_cameras woodListProject = []"
  by (simp_all add: woodListProject_def bareProject_def)

text \<open>
  C9, as stated, fails for the serialized textures of the manifest's texture list, which the
  importer hands to \<^verbatim>\<open>Texture.Parse\<close>, not to the installed parser. The scene holds the
  texture \<open>wood\<close>, of unique id 3; the texture list names a serialized texture of the same
  editor name and of unique id 9. The import returns normally and the scene ends with two
  textures \<open>wood\<close>.
\<close>

theorem editor_name_duplicated_from_texture_list:
  "textures woodScene = [\<lparr>uniqueId = 3, editorName = Some ''wood''\<rparr>]
   \<and> projectFile woodListWorld ''p'' = Some woodListProject
   \<and> p_textures woodListProject = [''w.json'']
   \<and> textureFile woodListWorld (join woodListWorld [''d/'', ''textures'', ''w.json''])
       = Some woodSource
   \<and> src_editorName woodSource = Some ''wood''
   \<and> fst (priv_ImportProject woodListWorld ''p'' woodScene) = Returns ()
   \<and> textures (snd (priv_ImportProject woodListWorld ''p'' woodScene))
       = [\<lparr>uniqueId = 3, editorName = Some ''wood''\<rparr>, \<lparr>uniqueId = 9, editorName = Some ''wood''\<rparr>]
   \<and> nameCount ''wood'' (snd (priv_ImportProject woodListWorld ''p'' woodScene)) = 2"
proof -
  let ?s0 = "snd (startImport woodListWorld ''p'' woodScene)"
  have tw: "textures woodScene = [\<lparr>uniqueId = 3, editorName = Some ''wood''\<rparr>]"
    by (simp add: woodScene_def emptyScene_def)
  have st: "startImport woodListWorld ''p'' woodScene = (Returns (''d/'', woodListProject), ?s0)"
    using startImport_success[of woodListWorld "''p''" woodListProject woodScene,
        OF woodListWorld_facts(1,2)]
    by (simp add: woodListWorld_facts)
  have r: "fst (priv_ImportProject woodListWorld ''p'' woodScene) = Returns ()"
    by (rule import_returns_no_nodes[OF woodListWorld_facts(1,2,5) woodListProject_lists(1,2,5,6)
          woodListWorld_facts(4)])
       (simp add: sceneNodes_def woodScene_def emptyScene_def)
  let ?sT = "beforeTextures woodListWorld ''d/'' woodListProject ?s0"
  have tT: "textures ?sT = [\<lparr>uniqueId = 3, editorName = Some ''wood''\<rparr>]"
    by (simp add: beforeTextures_def materialsLoaded_def woodListProject_lists
          textures_beforeMaterials startImport_textures tw)
  have "textures (texturesLoaded woodListWorld ''d/'' woodListProject ?s0)
      = [\<lparr>uniqueId = 3, editorName = Some ''wood''\<rparr>, \<lparr>uniqueId = 9, editorName = Some ''wood''\<rparr>]"
    unfolding texturesLoaded_def
    by (simp add: woodListProject_lists textureStep_cases woodListWorld_facts
          parsingWorld_parse getTextureByUniqueID_def tT woodSource_def)
  then have tx: "textures (snd (priv_ImportProject woodListWorld ''p'' woodScene))
      = [\<lparr>uniqueId = 3, editorName = Some ''wood''\<rparr>, \<lparr>uniqueId = 9, editorName = Some ''wood''\<rparr>]"
    using textures_import[OF st] by simp
  have nc: "nameCount ''wood'' (snd (priv_ImportProject woodListWorld ''p'' woodScene)) = 2"
    unfolding nameCount_def tx by simp
  have ws: "src_editorName woodSource = Some ''wood''" by (simp add: woodSource_def)
  from tw woodListWorld_facts(2,6) woodListProject_lists(4) ws r tx nc show ?thesis by simp
qed


section \<open>Textures, progress and deduplication by unique id\<close>

lemma getTexture_None_count:
  "getTextureByUniqueID s (Some k) = None \<Longrightarrow> keyCount k s = 0"
  by (simp add: getTextureByUniqueID_def keyCount_def find_None_iff)

lemma getTexture_Some_count:
  "getTextureByUniqueID s (Some k) = Some t \<Longrightarrow> 1 \<le> keyCount k s"
proof -
  assume "getTextureByUniqueID s (Some k) = Some t"
  then have "t \<in> set (textures s)" "uniqueId t = k"
    by (auto simp: getTextureByUniqueID_def find_Some_iff)
  then have "filter (\<lambda>t. uniqueId t = k) (textures s) \<noteq> []"
    by (auto simp: filter_empty_conv)
  then show ?thesis by (cases "filter (\<lambda>t. uniqueId t = k) (textures s)") (simp_all add: keyCount_def)
qed

lemma keyCount_same: "textures s1 = textures s \<Longrightarrow> keyCount k s1 = keyCount k s"
  by (simp add: keyCount_def)

text \<open>What one iteration of the texture loop does to the number of textures of one unique id.\<close>

lemma textureStep_keys:
  assumes "givesKey E k"
  shows "bounded (keyCount k) s (textureStep E dir d t s)
     \<and> (parsesWithKey E dir t k \<longrightarrow> 1 \<le> keyCount k (textureStep E dir d t s))"
proof (cases "textureFile E (join E [dir, ''textures'', t])")
  case None
  then show ?thesis
    by (simp add: textureStep_cases keyCount_def parsesWithKey_def bounded_def)
next
  case (Some source)
  note tfile = Some
  show ?thesis
  proof (cases "getTextureByUniqueID s (src_uniqueId source)")
    case (Some existing)
    have "parsesWithKey E dir t k \<Longrightarrow> 1 \<le> keyCount k s"
      using Some tfile by (auto simp: parsesWithKey_def dest: getTexture_Some_count)
    then show ?thesis using Some tfile by (auto simp: textureStep_cases)
  next
    case None
    show ?thesis
    proof (cases "Texture_Parse E source")
      case Throws
      then show ?thesis using None tfile
        by (simp add: textureStep_cases keyCount_def parsesWithKey_def bounded_def)
    next
      case (Returns created)
      show ?thesis
      proof (cases created)
        case None
        then show ?thesis using Returns \<open>getTextureByUniqueID s (src_uniqueId source) = None\<close>
            tfile
          by (simp add: textureStep_cases keyCount_def parsesWithKey_def bounded_def)
      next
        case (Some tex)
        have id: "(uniqueId tex = k) = (src_uniqueId source = Some k)"
          using assms Returns Some by (simp add: givesKey_def)
        have z: "uniqueId tex = k \<Longrightarrow> keyCount k s = 0"
          using \<open>getTextureByUniqueID s (src_uniqueId source) = None\<close> id
          by (auto dest: getTexture_None_count)
        have st: "textureStep E dir d t s =
            advanceSpinner d (logInfo (ParsedTexture t) (s\<lparr>textures := textures s @ [tex]\<rparr>))"
          using Returns Some \<open>getTextureByUniqueID s (src_uniqueId source) = None\<close> tfile
          by (simp add: textureStep_cases)
        have c: "keyCount k (textureStep E dir d t s)
            = keyCount k s + (if uniqueId tex = k then 1 else 0)"
          unfolding st by (simp add: keyCount_def)
        have p: "parsesWithKey E dir t k \<Longrightarrow> uniqueId tex = k"
          using tfile id by (simp add: parsesWithKey_def)
        show ?thesis using c z p by (auto simp: bounded_def)
      qed
    qed
  qed
qed

lemma loadTextures_keys:
  assumes "givesKey E k"
  shows "bounded (keyCount k) s (loadTextures E dir d ts s)
     \<and> ((\<exists>t \<in> set ts. parsesWithKey E dir t k) \<longrightarrow> 1 \<le> keyCount k (loadTextures E dir d ts s))"
proof (induction ts arbitrary: s)
  case Nil
  show ?case by simp
next
  case (Cons t ts)
  let ?s1 = "textureStep E dir d t s"
  note st = textureStep_keys[OF assms, of s dir d t]
  note ih = Cons.IH[of ?s1]
  have mono: "keyCount k ?s1 \<le> keyCount k (loadTextures E dir d ts ?s1)"
    using ih by (simp add: bounded_def)
  from st ih mono bounded_trans[of "keyCount k" s ?s1] show ?case by auto
qed

text \<open>
  C3, as amended. Let the manifest be read, and let the engine's \<^verbatim>\<open>Texture.Parse\<close> give the
  unique id \<open>k\<close> to exactly the textures it creates from sources that carry \<open>k\<close>. The texture
  loop of the import keeps every texture the scene holds when the loop starts; it leaves no
  more textures of unique id \<open>k\<close> than one, however many entries of the texture list carry
  \<open>k\<close>, unless there were more when it started; and it leaves at least one when the engine
  parses some entry that carries \<open>k\<close>. The mechanism: an entry whose unique id is found in
  the scene leaves the whole state as it is (no parse, no log, no progress update). All this
  is part of the import: its events extend those of the end of the texture loop.
\<close>

theorem unique_id_deduplicated:
  assumes "startImport E path s = (Returns (dir, project), s0)" and "givesKey E k"
  shows "keyCount k (beforeTextures E dir project s0) \<le> keyCount k (texturesLoaded E dir project s0)
     \<and> keyCount k (texturesLoaded E dir project s0)
         \<le> max 1 (keyCount k (beforeTextures E dir project s0))
     \<and> ((\<exists>t \<in> set (p_textures project). parsesWithKey E dir t k)
          \<longrightarrow> 1 \<le> keyCount k (texturesLoaded E dir project s0))
     \<and> (\<exists>tx. textures (texturesLoaded E dir project s0)
                = textures (beforeTextures E dir project s0) @ tx)
     \<and> (textureFile E (join E [dir, ''textures'', t]) = Some source
          \<and> getTextureByUniqueID sx (src_uniqueId source) = Some existing
         \<longrightarrow> textureStep E dir d t sx = sx)
     \<and> (\<exists>c. events (snd (priv_ImportProject E path s))
               = events (texturesLoaded E dir project s0) @ c)"
proof -
  let ?sB = "beforeTextures E dir project s0"
  let ?sT = "texturesLoaded E dir project s0"
  note lt = loadTextures_keys[OF assms(2), of ?sB dir "spinnerStepOf project" "p_textures project",
      folded texturesLoaded_def]
  have kp: "\<exists>tx. textures ?sT = textures ?sB @ tx"
    using evolves_loadTextures[of ?sB E dir "spinnerStepOf project" "p_textures project"]
    by (simp add: evolves_def texturesLoaded_def)
  have skip: "textureFile E (join E [dir, ''textures'', t]) = Some source
         \<and> getTextureByUniqueID sx (src_uniqueId source) = Some existing
        \<longrightarrow> textureStep E dir d t sx = sx"
    by (simp add: textureStep_cases)
  from lt kp skip events_after_texturesLoaded[OF assms(1)]
  show ?thesis by (simp add: bounded_def)
qed

lemma twinWorld_facts:
  "\<not> startFails twinWorld path" "projectFile twinWorld path = Some twinProject"
  "textureFile twinWorld p = Some twinSource"
  "Texture_Parse twinWorld twinSource = Returns (Some \<lparr>uniqueId = 7, editorName = None\<rparr>)"
  "physicsEngine twinWorld = None"
  "\<not> finishFails twinWorld dir twinProject"
  "dirname twinWorld path = ''d''"
  by (simp_all add: startFails_def finishFails_def postProcessFails_def twinWorld_def
        brokenTwinWorld_def worldWithCache_def worldWithoutCache_def bareWorld_def
        twinProject_def twinSource_def bareProject_def)

lemma twinProject_lists:
  "p_meshes twinProject = []" "p_transformNodes twinProject = None"
  "p_materials twinProject = []" "p_textures twinProject = [''a.json'', ''b.json'']"
  "p_lights twinProject = []" "p_cameras twinProject = []"
  by (simp_all add: twinProject_def bareProject_def)

lemma twinWorld_givesKey: "givesKey twinWorld k"
  by (auto simp: givesKey_def twinWorld_def split: option.splits)

text \<open>
  Both entries of the texture list of \<open>twinProject\<close> carry the unique id 7 and the engine
  parses them; the scene holds no texture when the texture loop starts and one texture of
  unique id 7 when it ends. The second entry is skipped.
\<close>

theorem unique_id_deduplicated_witness:
  "startImport twinWorld ''p'' emptyScene
     = (Returns (''d/'', twinProject), snd (startImport twinWorld ''p'' emptyScene))
   \<and> givesKey twinWorld 7
   \<and> p_textures twinProject = [''a.json'', ''b.json'']
   \<and> parsesWithKey twinWorld ''d/'' ''a.json'' 7
   \<and> parsesWithKey twinWorld ''d/'' ''b.json'' 7
   \<and> keyCount 7 (beforeTextures twinWorld ''d/'' twinProject
                    (snd (startImport twinWorld ''p'' emptyScene))) = 0
   \<and> keyCount 7 (texturesLoaded twinWorld ''d/'' twinProject
                    (snd (startImport twinWorld ''p'' emptyScene))) = 1
   \<and> textureFile twinWorld (join twinWorld [''d/'', ''textures'', ''b.json'']) = Some twinSource
   \<and> getTextureByUniqueID (emptyScene\<lparr>textures := [\<lparr>uniqueId = 7, editorName = None\<rparr>]\<rparr>)
         (src_uniqueId twinSource) = Some \<lparr>uniqueId = 7, editorName = None\<rparr>
   \<and> textureStep twinWorld ''d/'' (1 / 2) ''b.json''
         (emptyScene\<lparr>textures := [\<lparr>uniqueId = 7, editorName = None\<rparr>]\<rparr>)
       = emptyScene\<lparr>textures := [\<lparr>uniqueId = 7, editorName = None\<rparr>]\<rparr>"
proof -
  let ?sx = "emptyScene\<lparr>textures := [\<lparr>uniqueId = 7, editorName = None\<rparr>]\<rparr>"
  let ?s0 = "snd (startImport twinWorld ''p'' emptyScene)"
  have st: "startImport twinWorld ''p'' emptyScene = (Returns (''d/'', twinProject), ?s0)"
    using startImport_success[of twinWorld "''p''" twinProject emptyScene,
        OF twinWorld_facts(1,2)]
    by (simp add: twinWorld_facts)
  have pk: "\<And>t. parsesWithKey twinWorld ''d/'' t 7"
    by (simp add: parsesWithKey_def twinWorld_facts) (simp add: twinSource_def)
  have "textures (beforeTextures twinWorld ''d/'' twinProject ?s0) = []"
    by (simp add: beforeTextures_def materialsLoaded_def twinProject_lists
          textures_beforeMaterials startImport_textures) (simp add: emptyScene_def)
  then have k0: "keyCount 7 (beforeTextures twinWorld ''d/'' twinProject ?s0) = 0"
    by (simp add: keyCount_def)
  have tf: "textureFile twinWorld (join twinWorld [''d/'', ''textures'', ''b.json'']) = Some twinSource"
    by (rule twinWorld_facts)
  have g: "getTextureByUniqueID ?sx (src_uniqueId twinSource) = Some \<lparr>uniqueId = 7, editorName = None\<rparr>"
    by (simp add: getTextureByUniqueID_def twinSource_def)
  note th = unique_id_deduplicated [OF st twinWorld_givesKey, of 7 "''b.json''" twinSource ?sx
      "\<lparr>uniqueId = 7, editorName = None\<rparr>" "1 / 2"]
  from th k0 pk[of "''a.json''"] twinProject_lists(4)
  have k1: "keyCount 7 (texturesLoaded twinWorld ''d/'' twinProject ?s0) = 1" by simp
  from th tf g have sk: "textureStep twinWorld ''d/'' (1 / 2) ''b.json'' ?sx = ?sx" by blast
  from st twinWorld_givesKey[of 7] twinProject_lists(4) pk k0 k1 tf g sk show ?thesis by simp
qed

lemma loadTextures_no_parse:
  "(\<And>source. Texture_Parse E source = Throws) \<Longrightarrow>
     textures (loadTextures E dir d ts s) = textures s"
proof (induction ts arbitrary: s)
  case Nil
  show ?case by simp
next
  case (Cons t ts)
  have "textures (textureStep E dir d t s) = textures s"
    by (simp add: textureStep_cases Cons.prems split: option.split)
  with Cons.IH[OF Cons.prems] show ?case by simp
qed

lemma brokenTwinWorld_facts:
  "\<not> startFails brokenTwinWorld path" "projectFile brokenTwinWorld path = Some twinProject"
  "textureFile brokenTwinWorld p = Some twinSource"
  "Texture_Parse brokenTwinWorld source = Throws"
  "dirname brokenTwinWorld path = ''d''"
  by (simp_all add: startFails_def brokenTwinWorld_def worldWithCache_def worldWithoutCache_def
        bareWorld_def)

lemma twinPaintWorld_facts:
  "\<not> startFails twinPaintWorld path" "projectFile twinPaintWorld path = Some twinPaintProject"
  "textureFile twinPaintWorld p = Some twinSource"
  "Texture_Parse twinPaintWorld twinSource = Returns (Some \<lparr>uniqueId = 7, editorName = None\<rparr>)"
  "dirname twinPaintWorld path = ''d''"
  "materialFile twinPaintWorld p = Some \<lparr>mat_body = ''{}'', mat_textures = [twinSource, twinSource]\<rparr>"
  "Material_Parse twinPaintWorld j = Returns (Some ''paint'')"
  by (simp_all add: startFails_def twinPaintWorld_def twinWorld_def
        brokenTwinWorld_def worldWithCache_def worldWithoutCache_def bareWorld_def
        twinSource_def)

lemma twinPaintProject_lists:
  "p_materials twinPaintProject = [twinPaintEntry]"
  "p_textures twinPaintProject = [''a.json'', ''b.json'']"
  "isMultiMaterial twinPaintEntry = False" "bindedMeshes twinPaintEntry = []"
  by (simp_all add: twinPaintProject_def twinProject_def bareProject_def twinPaintEntry_def)

text \<open>
  C3, as stated, fails in both directions. In \<open>brokenTwinWorld\<close> both entries of the texture
  list carry the unique id 7, the engine's parser throws on both (each failure is caught and
  logged), and the scene ends with no texture of that id. In \<open>twinPaintWorld\<close> the same two
  entries are parseable, and a material of the manifest holds the texture of unique id 7
  twice in its payload: the material loop, which comes first, creates two textures of that id,
  the texture loop finds one and skips both entries, and the scene ends with two.
\<close>

theorem duplicate_key_zero_or_two_instances:
  "projectFile brokenTwinWorld ''p'' = Some twinProject
   \<and> p_textures twinProject = [''a.json'', ''b.json'']
   \<and> carriesKey brokenTwinWorld ''d/'' ''a.json'' 7
   \<and> carriesKey brokenTwinWorld ''d/'' ''b.json'' 7
   \<and> keyCount 7 (snd (priv_ImportProject brokenTwinWorld ''p'' emptyScene)) = 0
   \<and> projectFile twinPaintWorld ''p'' = Some twinPaintProject
   \<and> p_textures twinPaintProject = [''a.json'', ''b.json'']
   \<and> carriesKey twinPaintWorld ''d/'' ''a.json'' 7
   \<and> carriesKey twinPaintWorld ''d/'' ''b.json'' 7
   \<and> keyCount 7 (snd (priv_ImportProject twinPaintWorld ''p'' emptyScene)) = 2"
proof -
  have ck: "\<And>t. carriesKey brokenTwinWorld ''d/'' t 7" "\<And>t. carriesKey twinPaintWorld ''d/'' t 7"
    by (simp_all add: carriesKey_def brokenTwinWorld_facts twinPaintWorld_facts twinSource_def)
  let ?b0 = "snd (startImport brokenTwinWorld ''p'' emptyScene)"
  have stb: "startImport brokenTwinWorld ''p'' emptyScene = (Returns (''d/'', twinProject), ?b0)"
    using startImport_success[of brokenTwinWorld "''p''" twinProject emptyScene,
        OF brokenTwinWorld_facts(1,2)]
    by (simp add: brokenTwinWorld_facts)
  have "textures (beforeTextures brokenTwinWorld ''d/'' twinProject ?b0) = []"
    by (simp add: beforeTextures_def materialsLoaded_def twinProject_lists
          textures_beforeMaterials startImport_textures) (simp add: emptyScene_def)
  then have "textures (texturesLoaded brokenTwinWorld ''d/'' twinProject ?b0) = []"
    unfolding texturesLoaded_def
    by (simp only: loadTextures_no_parse[OF brokenTwinWorld_facts(4)])
  then have zero: "keyCount 7 (snd (priv_ImportProject brokenTwinWorld ''p'' emptyScene)) = 0"
    using textures_import[OF stb] by (simp add: keyCount_def)
  let ?p0 = "snd (startImport twinPaintWorld ''p'' emptyScene)"
  have stp: "startImport twinPaintWorld ''p'' emptyScene = (Returns (''d/'', twinPaintProject), ?p0)"
    using startImport_success[of twinPaintWorld "''p''" twinPaintProject emptyScene,
        OF twinPaintWorld_facts(1,2)]
    by (simp add: twinPaintWorld_facts)
  let ?sB = "beforeMaterials twinPaintWorld ''d/'' twinPaintProject ?p0"
  let ?tex = "\<lparr>uniqueId = 7, editorName = None\<rparr>"
  have tB: "textures ?sB = []"
    by (simp add: textures_beforeMaterials startImport_textures) (simp add: emptyScene_def)
  have pl: "textures (snd (parsePayloadTextures twinPaintWorld [twinSource, twinSource] sx))
      = textures sx @ [?tex, ?tex]" for sx
    by (simp add: SerializationHelper_TextureParser_def hookedTextureParser_def parseTexture_def
          twinPaintWorld_facts(4)) (simp add: twinSource_def truthy_def)
  have "textures (materialStep twinPaintWorld ''d/'' d twinPaintEntry ?sB) = [?tex, ?tex]" for d
  proof -
    obtain mat s1 where im: "installMaterial (Some ''paint'') ?sB = (mat, s1)"
      by (cases "installMaterial (Some ''paint'') ?sB")
    then have t1: "textures s1 = []" using tB by (auto simp: installMaterial_def)
    obtain r s2 where pp: "parsePayloadTextures twinPaintWorld [twinSource, twinSource] s1 = (r, s2)"
      by (cases "parsePayloadTextures twinPaintWorld [twinSource, twinSource] s1")
    have t2: "textures s2 = [?tex, ?tex]" using pl[of s1] pp t1 by simp
    have "snd (parseMaterial twinPaintWorld twinPaintEntry
        \<lparr>mat_body = ''{}'', mat_textures = [twinSource, twinSource]\<rparr> ?sB) = s2"
      using im pp by (cases r) (simp_all add: parseMaterial_def twinPaintProject_lists
          twinPaintWorld_facts)
    then show ?thesis
      using t2
      by (cases "parseMaterial twinPaintWorld twinPaintEntry
            \<lparr>mat_body = ''{}'', mat_textures = [twinSource, twinSource]\<rparr> ?sB")
         (auto simp: materialStep_def materialBody_def twinPaintWorld_facts
            twinPaintProject_lists split: outcome.splits)
  qed
  then have tM: "textures (beforeTextures twinPaintWorld ''d/'' twinPaintProject ?p0) = [?tex, ?tex]"
    by (simp add: beforeTextures_def materialsLoaded_def twinPaintProject_lists)
  have "textures (texturesLoaded twinPaintWorld ''d/'' twinPaintProject ?p0) = [?tex, ?tex]"
    unfolding texturesLoaded_def
    by (simp add: twinPaintProject_lists textureStep_cases twinPaintWorld_facts
          getTextureByUniqueID_def tM twinSource_def)
  then have two: "keyCount 7 (snd (priv_ImportProject twinPaintWorld ''p'' emptyScene)) = 2"
    using textures_import[OF stp] by (simp add: keyCount_def)
  from brokenTwinWorld_facts(2) twinWorld_facts twinProject_lists(4) ck zero
    twinPaintWorld_facts(2) twinPaintProject_lists(2) two
  show ?thesis by simp
qed

section \<open>Progress when a texture is skipped\<close>

lemma twin_entities:
  assumes "spinnerValue s = 0" and "textures s = []"
  shows "progressValues (events (loadEntities twinWorld dir twinProject s))
           = progressValues (events s) @ [1 / 2]"
    and "spinnerValue (loadEntities twinWorld dir twinProject s) = 1 / 2"
proof -
  have lists: "p_meshes twinProject = []" "p_transformNodes twinProject = None"
    "p_materials twinProject = []" "p_textures twinProject = [''a.json'', ''b.json'']"
    "p_lights twinProject = []" "p_cameras twinProject = []"
    by (simp_all add: twinProject_def bareProject_def)
  have step: "spinnerStepOf twinProject = 1 / 2"
    by (simp add: spinnerStepOf_def lists)
  let ?s4 = "emit (Overlay_SetMessage ''Creating Textures...'')
      (emit (Overlay_SetMessage ''Creating Materials...'')
        (emit (Overlay_SetMessage ''Creating Transform Nodes'')
          (emit (Overlay_SetMessage ''Creating Meshes...'') s)))"
  let ?tex = "\<lparr>uniqueId = 7, editorName = None\<rparr>"
  let ?s5 = "advanceSpinner (1 / 2)
      (emit (Console Info (ParsedTexture ''a.json'')) (?s4\<lparr>textures := [?tex]\<rparr>))"
  have key: "src_uniqueId twinSource = Some 7" by (simp add: twinSource_def)
  have first: "textureStep twinWorld dir (1 / 2) ''a.json'' ?s4 = ?s5"
    using assms(2)
    by (simp add: textureStep_cases twinWorld_facts key getTextureByUniqueID_def)
  have second: "textureStep twinWorld dir (1 / 2) ''b.json'' ?s5 = ?s5"
    by (simp add: textureStep_cases twinWorld_facts key getTextureByUniqueID_def)
  have all: "loadEntities twinWorld dir twinProject s =
      emit (Overlay_SetMessage ''Creating Cameras...'')
        (emit (Overlay_SetMessage ''Creating Lights...'') ?s5)"
    by (simp add: loadEntities_def Let_def lists step retrieveImpostors_def twinWorld_facts
          first second)
  show "progressValues (events (loadEntities twinWorld dir twinProject s))
           = progressValues (events s) @ [1 / 2]"
    unfolding all using assms(1) by simp
  show "spinnerValue (loadEntities twinWorld dir twinProject s) = 1 / 2"
    unfolding all using assms(1) by simp
qed

text \<open>
  C2 on a concrete import. The manifest lists two textures and nothing else, so the progress
  step is 1/2. Both texture files carry the unique id 7 and the engine parses them. The first
  entry is parsed and the progress goes to 1/2; the second finds the first in the scene and
  leaves the loop body through \<^verbatim>\<open>continue\<close>, before the progress update. The import
  returns normally, both entries were attempted, and the reported progress values are 0 and
  1/2: 1 is never reached.
\<close>

theorem progress_stops_short:
  "length (p_textures twinProject) + length (p_materials twinProject)
     + length (p_meshes twinProject) + length (p_lights twinProject)
     + length (p_cameras twinProject) = 2
   \<and> fst (priv_ImportProject twinWorld ''p'' emptyScene) = Returns ()
   \<and> progressValues (events (snd (priv_ImportProject twinWorld ''p'' emptyScene))) = [0, 1 / 2]
   \<and> spinnerValue (snd (priv_ImportProject twinWorld ''p'' emptyScene)) = 1 / 2"
proof -
  let ?dir = "dirname twinWorld ''p'' @ ''/''"
  let ?s1 = "snd (startImport twinWorld ''p'' emptyScene)"
  let ?sL = "loadEntities twinWorld ?dir twinProject ?s1"
  have n: "length (p_textures twinProject) + length (p_materials twinProject)
     + length (p_meshes twinProject) + length (p_lights twinProject)
     + length (p_cameras twinProject) = 2"
    by (simp add: twinProject_def bareProject_def)
  note run = priv_ImportProject_success[of twinWorld "''p''" twinProject emptyScene,
      OF twinWorld_facts(1,2)]
  have st: "startImport twinWorld ''p'' emptyScene = (Returns (?dir, twinProject), ?s1)"
    by (rule startImport_success[OF twinWorld_facts(1,2)])
  note sp = startImport_progress[OF st]
  have e1: "events ?s1 = [Overlay_Show ''Importing Project...'', Overlay_SetSpinnervalue 0]"
    using sp(3) by (simp add: emptyScene_def)
  have t1: "textures ?s1 = []" using sp(2) by (simp add: emptyScene_def)
  note te = twin_entities[OF sp(1) t1, of ?dir]
  note fq = finishImport_quiet[of twinWorld ?dir twinProject ?sL]
  have r: "fst (priv_ImportProject twinWorld ''p'' emptyScene) = Returns ()"
    by (rule import_returns_no_nodes[OF twinWorld_facts(1,2,6) twinProject_lists(1,2,5,6)
          twinWorld_facts(5)])
       (simp add: sceneNodes_def emptyScene_def)
  have pv: "progressValues (events (snd (priv_ImportProject twinWorld ''p'' emptyScene))) = [0, 1 / 2]"
    unfolding run using fq te(1) e1 by auto
  have sv: "spinnerValue (snd (priv_ImportProject twinWorld ''p'' emptyScene)) = 1 / 2"
    unfolding run using fq te(2) by simp
  from n r pv sv show ?thesis by simp
qed


section \<open>Materials come after the meshes\<close>

lemma quiet_refl [simp]: "quiet 0 s s"
  by (simp add: quiet_def)

lemma quiet_trans: "quiet n s s1 \<Longrightarrow> quiet m s1 s2 \<Longrightarrow> quiet (n + m) s s2"
  by (auto simp: quiet_def)

lemma quiet_trans0: "quiet n s s1 \<Longrightarrow> quiet 0 s1 s2 \<Longrightarrow> quiet n s s2"
  using quiet_trans[of n s s1 0 s2] by simp

lemma quiet_emit:
  "\<not> isMaterialEvent e \<Longrightarrow> progressValues [e] = [] \<Longrightarrow> quiet n s s1 \<Longrightarrow> quiet n s (emit e s1)"
  by (auto simp: quiet_def)

lemma quiet_advanceSpinner: "quiet n s s1 \<Longrightarrow> quiet (Suc n) s (advanceSpinner d s1)"
  by (auto simp: quiet_def)

lemma quiet_silent:
  "quiet n s s1 \<Longrightarrow> quiet n s (updateNode h f s1)"
  "quiet n s s1 \<Longrightarrow> quiet n s (addMeshes ns s1)"
  "quiet n s s1 \<Longrightarrow> quiet n s (addTransformNode nd s1)"
  by (auto simp: quiet_def)

lemmas quiet_intros = quiet_silent quiet_emit

lemma quiet_setWaitingIds: "quiet 0 s (snd (setWaitingIds hs ps s))"
proof (induction hs ps s rule: setWaitingIds.induct)
  case (3 h hs p ps s)
  have "quiet 0 s (updateNode h (\<lambda>n. n\<lparr>waitingParentId := p\<rparr>) s)"
    by (intro quiet_intros) simp
  from quiet_trans0[OF this 3] show ?case by simp
qed simp_all

lemma quiet_lodBody: "quiet 0 s (snd (lodBody E name hs l s))"
  unfolding lodBody_def Let_def
  by (auto split: outcome.split list.split option.split intro!: quiet_intros)

lemma quiet_importLods: "quiet 0 s (snd (importLods E name hs ls s))"
proof (induction ls arbitrary: s)
  case Nil
  show ?case by simp
next
  case (Cons l ls)
  obtain r s1 where b: "lodBody E name hs l s = (r, s1)" by (cases "lodBody E name hs l s")
  have e1: "quiet 0 s s1" using quiet_lodBody[of s E name hs l] b by simp
  show ?case
  proof (cases r)
    case (Returns u)
    with b quiet_trans0[OF e1 Cons.IH[of s1]] show ?thesis by simp
  next
    case Throws
    show ?thesis
    proof (cases hs)
      case Nil
      with b Throws e1 show ?thesis by simp
    next
      case (Cons h hs')
      let ?s2 = "logError (FailedLOD (node_name (nodes s1 ! h))) s1"
      have "quiet 0 s ?s2" using e1 by (auto intro!: quiet_intros)
      from quiet_trans0[OF this Cons.IH[of ?s2]] b Throws Cons show ?thesis by simp
    qed
  qed
qed

lemma quiet_ImportMesh: "quiet 0 s (snd (ImportMesh E name json rootUrl filename s))"
proof (cases "ImportMeshAsync E rootUrl filename")
  case Throws
  then show ?thesis by (simp add: ImportMesh_def)
next
  case (Returns loaded)
  let ?s1 = "logInfo (ParsedMesh name) (addMeshes loaded s)"
  let ?hs = "newHandles s loaded"
  have e1: "quiet 0 s ?s1" by (auto intro!: quiet_intros)
  obtain r s2 where w: "setWaitingIds ?hs (mf_meshes json) ?s1 = (r, s2)"
    by (cases "setWaitingIds ?hs (mf_meshes json) ?s1")
  have e2: "quiet 0 s s2"
    using quiet_trans0[OF e1 quiet_setWaitingIds[of ?s1 ?hs "mf_meshes json"]] w by simp
  have e3: "\<And>ls. quiet 0 s (snd (importLods E name ?hs ls s2))"
    using quiet_trans0[OF e2 quiet_importLods] by simp
  show ?thesis
    using Returns w e2 e3
    by (auto simp: ImportMesh_def Let_def split: outcome.split option.split)
qed

lemma quiet_meshStep: "quiet 1 s (meshStep E dir d m s)"
proof -
  have "quiet 0 s (snd (meshBody E dir m s))"
    by (auto simp: meshBody_def quiet_ImportMesh split: option.split)
  then show ?thesis
    by (cases "meshBody E dir m s")
       (auto simp: meshStep_def split: outcome.split
          intro!: quiet_advanceSpinner[of 0, simplified] quiet_intros)
qed

lemma quiet_loadMeshes: "quiet (length ms) s (loadMeshes E dir d ms s)"
proof (induction ms arbitrary: s)
  case Nil
  show ?case by simp
next
  case (Cons m ms)
  from quiet_trans[OF quiet_meshStep Cons.IH] show ?case by simp
qed

lemma quiet_loadTransformNodes: "quiet 0 s (loadTransformNodes E dir ts s)"
proof (induction ts arbitrary: s)
  case Nil
  show ?case by simp
next
  case (Cons t ts)
  have "quiet 0 s (transformStep E dir t s)"
    by (auto simp: transformStep_def transformBody_def split: option.split outcome.split
          intro!: quiet_intros)
  from quiet_trans0[OF this Cons.IH] show ?case by simp
qed

lemma quiet_retrieveImpostors: "quiet 0 s (retrieveImpostors E s)"
proof -
  have "\<And>g hs s. quiet 0 s (fold (impostorStep g) hs s)"
  proof -
    fix g hs s show "quiet 0 s (fold (impostorStep g) hs s)"
    proof (induction hs arbitrary: s)
      case Nil
      show ?case by simp
    next
      case (Cons h hs)
      have "quiet 0 s (impostorStep g h s)"
        by (auto simp: impostorStep_def split: outcome.split intro!: quiet_intros)
      from quiet_trans0[OF this Cons.IH] show ?case by simp
    qed
  qed
  then show ?thesis by (simp add: retrieveImpostors_def split: option.split)
qed

text \<open>After the mesh loop the list of meshes does not change any more.\<close>

lemma meshes_loadTransformNodes: "meshes (loadTransformNodes E dir ts s) = meshes s"
proof (induction ts arbitrary: s)
  case Nil
  show ?case by simp
next
  case (Cons t ts)
  have "meshes (transformStep E dir t s) = meshes s"
    by (simp add: transformStep_def transformBody_def split: option.split outcome.split)
  with Cons.IH show ?case by simp
qed

lemma meshes_retrieveImpostors: "meshes (retrieveImpostors E s) = meshes s"
proof -
  have "\<And>g hs s. meshes (fold (impostorStep g) hs s) = meshes s"
  proof -
    fix g hs s show "meshes (fold (impostorStep g) hs s) = meshes s"
      by (induction hs arbitrary: s) (simp_all add: impostorStep_def split: outcome.split)
  qed
  then show ?thesis by (simp add: retrieveImpostors_def split: option.split)
qed

lemma meshes_bindMeshes: "meshes (bindMeshes mat mj bms s) = meshes s"
  by (induction bms arbitrary: s) (simp_all add: bindMesh_def split: option.split)

lemma meshes_loadMaterials: "meshes (loadMaterials E dir d ms s) = meshes s"
  using sameIndex_loadMaterials[of s E dir d ms] by (simp add: sameIndex_def)

lemma meshes_loadTextures: "meshes (loadTextures E dir d ts s) = meshes s"
proof (induction ts arbitrary: s)
  case Nil
  show ?case by simp
next
  case (Cons t ts)
  have "meshes (textureStep E dir d t s) = meshes s"
    by (simp add: textureStep_cases split: option.split outcome.split)
  with Cons.IH show ?case by simp
qed

lemma meshes_loadLights: "meshes (loadLights E dir d ls s) = meshes s"
proof (induction ls arbitrary: s)
  case Nil
  show ?case by simp
next
  case (Cons l ls)
  have sh: "\<And>s1. meshes (snd (shadowBody E dir l s1)) = meshes s1"
    by (simp add: shadowBody_def split: option.split outcome.split)
  have "meshes (snd (lightBody E dir l s)) = meshes s"
    by (simp add: lightBody_def sh split: option.split outcome.split)
  then have "meshes (lightStep E dir d l s) = meshes s"
    by (cases "lightBody E dir l s") (simp add: lightStep_def split: outcome.split)
  with Cons.IH show ?case by simp
qed

lemma meshes_loadCameras: "meshes (loadCameras E dir d cs s) = meshes s"
proof (induction cs arbitrary: s)
  case Nil
  show ?case by simp
next
  case (Cons c cs)
  have "meshes (snd (cameraBody E dir c s)) = meshes s"
    by (simp add: cameraBody_def split: option.split outcome.split)
  then have "meshes (cameraStep E dir d c s) = meshes s"
    by (cases "cameraBody E dir c s") (simp add: cameraStep_def split: outcome.split)
  with Cons.IH show ?case by simp
qed

lemma meshes_finishImport: "meshes (snd (finishImport E dir project s)) = meshes s"
  by (rule finishImport_cases[of E project dir s]) simp_all

lemma meshes_beforeMaterials:
  "meshes (beforeMaterials E dir project s0) = meshes (meshesLoaded E dir project s0)"
  by (simp add: beforeMaterials_def meshes_retrieveImpostors meshes_loadTransformNodes)

lemma meshes_loadEntities:
  "meshes (loadEntities E dir project s0) = meshes (meshesLoaded E dir project s0)"
  by (simp add: loadEntities_phases meshes_loadCameras meshes_loadLights texturesLoaded_def
        beforeTextures_def materialsLoaded_def meshes_loadTextures meshes_loadMaterials
        meshes_beforeMaterials)

lemma events_after_beforeMaterials:
  "\<exists>tr. events (snd (finishImport E dir project (loadEntities E dir project s0)))
          = events (beforeMaterials E dir project s0) @ tr"
proof -
  have "evolves (beforeMaterials E dir project s0) (loadEntities E dir project s0)"
    unfolding loadEntities_phases texturesLoaded_def beforeTextures_def materialsLoaded_def
    by (intro evolves_trans[OF _ evolves_loadCameras] evolves_emit
          evolves_trans[OF _ evolves_loadLights] evolves_trans[OF _ evolves_loadTextures]
          evolves_loadMaterials)
  from evolves_trans[OF this evolves_finishImport] show ?thesis by (simp add: evolves_def)
qed

text \<open>
  C8. Let the manifest be read. When the mesh loop has ended, the import has reported the
  initial progress and one progress update for each mesh of the manifest (every mesh was
  attempted), and the console holds no message of the material loop. Between the end of the
  mesh loop and the start of the material loop there is no material message, no progress
  update and no change of the list of meshes. All later events of the import, the material
  messages among them, come after these. The material loop never changes the list of meshes,
  and the list at the end of the import is still the list at the end of the mesh loop.
\<close>

theorem materials_after_meshes:
  assumes "startImport E path s = (Returns (dir, project), s0)"
  shows "(\<exists>a. events (meshesLoaded E dir project s0) = events s @ a
             \<and> list_all (\<lambda>e. \<not> isMaterialEvent e) a
             \<and> length (progressValues a) = Suc (length (p_meshes project)))
     \<and> (\<exists>b. events (beforeMaterials E dir project s0) = events (meshesLoaded E dir project s0) @ b
             \<and> list_all (\<lambda>e. \<not> isMaterialEvent e) b \<and> progressValues b = [])
     \<and> meshes (beforeMaterials E dir project s0) = meshes (meshesLoaded E dir project s0)
     \<and> (\<exists>c. events (snd (priv_ImportProject E path s))
               = events (beforeMaterials E dir project s0) @ c)
     \<and> meshes (loadMaterials E dir d ms sx) = meshes sx
     \<and> meshes (snd (priv_ImportProject E path s)) = meshes (meshesLoaded E dir project s0)"
proof -
  let ?sM = "meshesLoaded E dir project s0"
  let ?sB = "beforeMaterials E dir project s0"
  have run: "priv_ImportProject E path s = finishImport E dir project (loadEntities E dir project s0)"
    using assms by (simp add: priv_ImportProject_def)
  have "events s0 = events s @ [Overlay_Show ''Importing Project...'', Overlay_SetSpinnervalue 0]"
    by (rule startImport_progress(3)[OF assms])
  then have q0: "quiet 1 s s0" by (simp add: quiet_def)
  have q1: "quiet 1 s (emit (Overlay_SetMessage ''Creating Meshes...'') s0)"
    using q0 by (auto intro!: quiet_intros)
  have qM: "quiet (Suc (length (p_meshes project))) s ?sM"
    unfolding meshesLoaded_def using quiet_trans[OF q1 quiet_loadMeshes] by simp
  have qB: "quiet 0 ?sM ?sB"
    unfolding beforeMaterials_def
    by (intro quiet_emit quiet_trans0[OF _ quiet_retrieveImpostors]
          quiet_trans0[OF _ quiet_loadTransformNodes]) simp_all
  have mB: "meshes ?sB = meshes ?sM" by (rule meshes_beforeMaterials)
  have mE: "meshes (snd (priv_ImportProject E path s)) = meshes ?sM"
    unfolding run by (simp add: meshes_finishImport meshes_loadEntities)
  have ev: "\<exists>c. events (snd (priv_ImportProject E path s)) = events ?sB @ c"
    unfolding run by (rule events_after_beforeMaterials)
  from qB have qB': "\<exists>b. events ?sB = events ?sM @ b
             \<and> list_all (\<lambda>e. \<not> isMaterialEvent e) b \<and> progressValues b = []"
    by (auto simp: quiet_def)
  from qM qB' mB ev mE show ?thesis
    by (simp add: quiet_def meshes_loadMaterials)
qed

lemma meshWorld_facts:
  "\<not> startFails meshWorld path" "projectFile meshWorld path = Some meshProject"
  "p_meshes meshProject = [''a'', ''x'', ''c'']" "p_materials meshProject = [paintEntry]"
  "dirname meshWorld path = ''d''" "join meshWorld = slashes"
  "\<not> finishFails meshWorld dir meshProject"
  by (simp_all add: startFails_def finishFails_def postProcessFails_def meshWorld_def
        paintWorld_def worldWithCache_def
        worldWithoutCache_def bareWorld_def meshProject_def bareProject_def)

theorem materials_after_meshes_witness:
  "startImport meshWorld ''p'' emptyScene
     = (Returns (''d/'', meshProject), snd (startImport meshWorld ''p'' emptyScene))
   \<and> (\<exists>a. events (meshesLoaded meshWorld ''d/'' meshProject
                     (snd (startImport meshWorld ''p'' emptyScene))) = a
          \<and> list_all (\<lambda>e. \<not> isMaterialEvent e) a \<and> length (progressValues a) = 4)
   \<and> meshes (snd (priv_ImportProject meshWorld ''p'' emptyScene))
       = meshes (meshesLoaded meshWorld ''d/'' meshProject
                   (snd (startImport meshWorld ''p'' emptyScene)))"
proof -
  have st: "startImport meshWorld ''p'' emptyScene
     = (Returns (''d/'', meshProject), snd (startImport meshWorld ''p'' emptyScene))"
    using startImport_success[of meshWorld "''p''" meshProject emptyScene, OF meshWorld_facts(1,2)]
    by (simp add: meshWorld_facts)
  have e: "events emptyScene = []" by (simp add: emptyScene_def)
  from materials_after_meshes [OF st] st show ?thesis
    by (simp add: e meshWorld_facts)
qed


section \<open>The phases after the mesh loop\<close>





section \<open>One broken mesh file\<close>

lemma kept_refl [simp]: "kept s s"
  by (simp add: kept_def)
































section \<open>Binding materials to meshes\<close>















section \<open>The texts of the console messages\<close>

lemma message_texts:
  \<open>message_text (FailedMesh ''x'') = ''Failed to load mesh "x"''\<close>
  \<open>message_text (FailedAttach ''m.json'' ''nope'')
     = ''Failed to attach material m.json on mesh with id "nope"''\<close>
  \<open>message_text FailedLight = ''Failed to parse light "[object Object]"''\<close>
  by (simp_all add: quoted_def)

end
